(* ===== verification/Prelude.thy ===== *)
theory Prelude
  imports Main "HOL-Library.Word" "HOL-Library.Char_ord" "HOL-Library.Multiset"
begin

text \<open>
  Shared vocabulary of the development. The TypeScript and JavaScript sources manipulate
  strings, arrays and \<open>Map\<close> objects through a handful of library calls; this theory gives
  each of them one executable HOL definition and the lemmas the component theories share:
  \<^item> \<open>trim\<close>, \<open>to_lower\<close>, \<open>split_on\<close>, \<open>join_with\<close>, \<open>starts_with\<close>, \<open>str_includes\<close>
    model \<open>String.prototype.trim\<close>, \<open>toLowerCase\<close>, \<open>split\<close> with a one-character
    separator, \<open>Array.prototype.join\<close>, \<open>startsWith\<close> and \<open>includes\<close>;
  \<^item> \<open>nat_to_string\<close> and \<open>int_to_string\<close> model \<open>Number.prototype.toString\<close> on
    integral values, \<open>js_parse_int\<close> models \<open>parseInt(s, 10)\<close>;
  \<^item> a JavaScript \<open>Map\<close> is an association list in insertion order (\<open>jsmap\<close>):
    \<open>set\<close> on a present key updates the entry in place, on a new key appends it,
    \<open>delete\<close> removes it. Its refinement lemmas relate it to the HOL map \<open>map_of\<close>.
  Strings are HOL strings (lists of 8-bit characters): the models are exact on ASCII text,
  which is what the parsed keys, identifiers and separators of the sources are; case
  folding and white space beyond ASCII are outside the model.
\<close>

named_theorems js_simps "equations of the JavaScript library model"
named_theorems jsmap_simps "refinement equations of the Map model"

type_synonym bytes = "8 word list"
type_synonym ('k, 'v) jsmap = "('k \<times> 'v) list"

text \<open>
  Identifiers drawn from \<open>uuidv4()\<close> are modelled as numbers from a counter held in the
  state: each call yields a value no earlier call yielded, which is all the code relies on.
\<close>

type_synonym uuid = nat

subsection \<open>Strings\<close>

definition is_ws :: "char \<Rightarrow> bool" where
  "is_ws c \<longleftrightarrow> c = CHR '' '' \<or> c = CHR 0x09 \<or> c = CHR 0x0A \<or> c = CHR 0x0B \<or>
     c = CHR 0x0C \<or> c = CHR 0x0D"

definition trim :: "string \<Rightarrow> string" where
  "trim s = rev (dropWhile is_ws (rev (dropWhile is_ws s)))"

definition lower_char :: "char \<Rightarrow> char" where
  "lower_char c = (if CHR ''A'' \<le> c \<and> c \<le> CHR ''Z'' then char_of (of_char c + (32::nat)) else c)"

definition to_lower :: "string \<Rightarrow> string" where
  "to_lower s = map lower_char s"

fun split_on :: "char \<Rightarrow> string \<Rightarrow> string list" where
  "split_on c [] = [[]]"
| "split_on c (x # xs) =
     (if x = c then [] # split_on c xs
      else (case split_on c xs of [] \<Rightarrow> [[x]] | w # ws \<Rightarrow> (x # w) # ws))"

fun join_with :: "'a list \<Rightarrow> 'a list list \<Rightarrow> 'a list" where
  "join_with sep [] = []"
| "join_with sep [x] = x"
| "join_with sep (x # y # xs) = x @ sep @ join_with sep (y # xs)"

fun starts_with :: "'a list \<Rightarrow> 'a list \<Rightarrow> bool" where
  "starts_with xs [] = True"
| "starts_with [] (p # ps) = False"
| "starts_with (x # xs) (p # ps) = (x = p \<and> starts_with xs ps)"

fun str_includes :: "'a list \<Rightarrow> 'a list \<Rightarrow> bool" where
  "str_includes [] p = (p = [])"
| "str_includes (x # xs) p = (starts_with (x # xs) p \<or> str_includes xs p)"

fun nat_to_string :: "nat \<Rightarrow> string" where
  "nat_to_string n =
     (if n < 10 then [char_of (48 + n)] else nat_to_string (n div 10) @ [char_of (48 + n mod 10)])"

declare nat_to_string.simps [simp del]

definition int_to_string :: "int \<Rightarrow> string" where
  "int_to_string i = (if i < 0 then CHR ''-'' # nat_to_string (nat (- i)) else nat_to_string (nat i))"

text \<open>\<open>parseInt(s, 10)\<close>: leading white space, a sign, the longest digit prefix; \<open>NaN\<close> is \<open>None\<close>.\<close>

definition is_digit :: "char \<Rightarrow> bool" where
  "is_digit c \<longleftrightarrow> CHR ''0'' \<le> c \<and> c \<le> CHR ''9''"

definition digits_value :: "string \<Rightarrow> nat" where
  "digits_value ds = foldl (\<lambda>n c. 10 * n + (of_char c - 48)) 0 ds"

definition js_parse_int :: "string \<Rightarrow> int option" where
  "js_parse_int s =
     (let s1 = dropWhile is_ws s;
          (sg, s2) = (case s1 of c # r \<Rightarrow> if c = CHR ''-'' then (-1, r) else if c = CHR ''+'' then (1, r) else (1, s1)
                             | [] \<Rightarrow> (1, []));
          ds = takeWhile is_digit s2
      in if ds = [] then None else Some (sg * int (digits_value ds)))"

text \<open>
  JavaScript's \<open>a || b\<close> on an optional string or number: \<open>undefined\<close>, the empty
  string and \<open>0\<close> are falsy and fall through to the default.
\<close>

fun js_str_or :: "string option \<Rightarrow> string \<Rightarrow> string" where
  "js_str_or None d = d"
| "js_str_or (Some x) d = (if x = [] then d else x)"

fun js_nat_or :: "nat option \<Rightarrow> nat \<Rightarrow> nat" where
  "js_nat_or None d = d"
| "js_nat_or (Some x) d = (if x = 0 then d else x)"

text \<open>\<open>Array.prototype.findIndex\<close>, with \<open>-1\<close> as \<open>None\<close>.\<close>

fun find_idx :: "('a \<Rightarrow> bool) \<Rightarrow> 'a list \<Rightarrow> nat option" where
  "find_idx P [] = None"
| "find_idx P (x # xs) = (if P x then Some 0 else map_option Suc (find_idx P xs))"

text \<open>A field of an object spread \<open>{...old, ...patch}\<close>: the patch's value when present.\<close>

fun patch_or :: "'a option \<Rightarrow> 'a \<Rightarrow> 'a" where
  "patch_or None d = d"
| "patch_or (Some x) d = x"

text \<open>\<open>if (!xs.includes(x)) xs.push(x)\<close>\<close>

definition add_unique :: "'a list \<Rightarrow> 'a \<Rightarrow> 'a list" where
  "add_unique xs x = (if x \<in> set xs then xs else xs @ [x])"

subsection \<open>JSON values\<close>

text \<open>
  A JSON value as \<open>JSON.stringify\<close> sees it: text produced by \<open>JSON.stringify\<close> is
  modelled by the value it encodes. An object property whose value is \<open>undefined\<close> is
  left out of the text, which \<open>json_opt_field\<close> writes out.
\<close>

datatype json = JNull | JBool bool | JNum int | JStr string | JArr "json list"
  | JObj "(string \<times> json) list"

definition json_opt_field :: "string \<Rightarrow> ('a \<Rightarrow> json) \<Rightarrow> 'a option \<Rightarrow> (string \<times> json) list" where
  "json_opt_field k f x = (case x of None \<Rightarrow> [] | Some v \<Rightarrow> [(k, f v)])"

subsection \<open>Maps in insertion order\<close>

fun jsmap_set :: "'k \<Rightarrow> 'v \<Rightarrow> ('k, 'v) jsmap \<Rightarrow> ('k, 'v) jsmap" where
  "jsmap_set k v [] = [(k, v)]"
| "jsmap_set k v ((a, b) # ps) = (if a = k then (k, v) # ps else (a, b) # jsmap_set k v ps)"

definition jsmap_delete :: "'k \<Rightarrow> ('k, 'v) jsmap \<Rightarrow> ('k, 'v) jsmap" where
  "jsmap_delete k m = filter (\<lambda>(a, _). a \<noteq> k) m"

definition jsmap_keys :: "('k, 'v) jsmap \<Rightarrow> 'k list" where
  "jsmap_keys m = map fst m"

text \<open>All the elements of the list-valued entries of a map, in map order.\<close>

definition jsmap_concat :: "('v \<Rightarrow> 'a list) \<Rightarrow> ('k, 'v) jsmap \<Rightarrow> 'a list" where
  "jsmap_concat g m = concat (map (\<lambda>(_, v). g v) m)"

subsection \<open>Lemmas on the string model\<close>

lemma split_on_not_Nil [js_simps]: "split_on c s \<noteq> []"
  by (induction s) (auto split: list.split)

lemma join_with_Cons_Cons [js_simps]:
  "join_with sep ((x # w) # ws) = x # join_with sep (w # ws)"
  by (cases ws) simp_all

lemma join_with_Nil_Cons [js_simps]:
  "join_with sep ([] # y # ys) = sep @ join_with sep (y # ys)"
  by simp

text \<open>Joining the pieces of a split gives the string back.\<close>

lemma join_split_on [js_simps]: "join_with [c] (split_on c s) = s"
proof (induction s)
  case Nil
  then show ?case by simp
next
  case (Cons x xs)
  obtain w ws where r: "split_on c xs = w # ws"
    using split_on_not_Nil by (metis list.exhaust)
  show ?case
    using Cons.IH r by (simp add: join_with_Cons_Cons)
qed

lemma split_on_no_sep: "c \<notin> set x \<Longrightarrow> split_on c x = [x]"
  by (induction x) auto

lemma split_on_append_sep:
  "c \<notin> set x \<Longrightarrow> split_on c (x @ c # rest) = x # split_on c rest"
  by (induction x) auto

text \<open>Splitting a join of separator-free pieces gives the pieces back.\<close>

lemma split_on_join [js_simps]:
  "xs \<noteq> [] \<Longrightarrow> \<forall>x \<in> set xs. c \<notin> set x \<Longrightarrow> split_on c (join_with [c] xs) = xs"
proof (induction xs rule: induct_list012)
  case (2 x)
  then show ?case by (simp add: split_on_no_sep)
next
  case (3 x y zs)
  then show ?case by (simp add: split_on_append_sep)
qed simp

lemma starts_with_iff: "starts_with xs p \<longleftrightarrow> (\<exists>b. xs = p @ b)"
  by (induction xs p rule: starts_with.induct) auto

lemma str_includes_iff: "str_includes s p \<longleftrightarrow> (\<exists>a b. s = a @ p @ b)"
proof (induction s)
  case Nil
  then show ?case by simp
next
  case (Cons x xs)
  show ?case
  proof
    assume "str_includes (x # xs) p"
    then consider "starts_with (x # xs) p" | "str_includes xs p" by auto
    then show "\<exists>a b. x # xs = a @ p @ b"
    proof cases
      case 1
      then obtain b where "x # xs = [] @ p @ b" by (auto simp: starts_with_iff)
      then show ?thesis by blast
    next
      case 2
      with Cons.IH obtain a b where "xs = a @ p @ b" by blast
      then have "x # xs = (x # a) @ p @ b" by simp
      then show ?thesis by blast
    qed
  next
    assume "\<exists>a b. x # xs = a @ p @ b"
    then obtain a b where e: "x # xs = a @ p @ b" by blast
    show "str_includes (x # xs) p"
    proof (cases a)
      case Nil
      with e have "starts_with (x # xs) p" by (simp add: starts_with_iff)
      then show ?thesis by simp
    next
      case (Cons a' as)
      with e have "xs = as @ p @ b" by simp
      then have "str_includes xs p" using Cons.IH by blast
      then show ?thesis by simp
    qed
  qed
qed

lemma trim_Nil_iff [js_simps]: "trim s = [] \<longleftrightarrow> (\<forall>c \<in> set s. is_ws c)"
proof -
  let ?d = "dropWhile is_ws s"
  have dw: "(\<forall>x \<in> set ?d. is_ws x) \<longleftrightarrow> ?d = []"
  proof
    assume a: "\<forall>x \<in> set ?d. is_ws x"
    show "?d = []"
    proof (rule ccontr)
      assume ne: "?d \<noteq> []"
      then have "\<not> is_ws (hd ?d)" by (rule hd_dropWhile)
      moreover from ne have "hd ?d \<in> set ?d" by simp
      ultimately show False using a by blast
    qed
  next
    assume "?d = []"
    then show "\<forall>x \<in> set ?d. is_ws x" by (simp del: dropWhile_eq_Nil_conv)
  qed
  have "trim s = [] \<longleftrightarrow> (\<forall>x \<in> set ?d. is_ws x)" by (simp add: trim_def)
  also have "\<dots> \<longleftrightarrow> ?d = []" by (rule dw)
  also have "\<dots> \<longleftrightarrow> (\<forall>c \<in> set s. is_ws c)" by (rule dropWhile_eq_Nil_conv)
  finally show ?thesis .
qed

lemma nat_to_string_step:
  "\<not> n < 10 \<Longrightarrow> nat_to_string n = nat_to_string (n div 10) @ [char_of (48 + n mod 10)]"
  by (subst nat_to_string.simps) simp

lemma of_char_digit: "d < 10 \<Longrightarrow> of_char (char_of (48 + d)) = (48 + d :: nat)"
  by (simp add: of_char_of)

lemma nat_to_string_digits:
  "c \<in> set (nat_to_string n) \<Longrightarrow> (48::nat) \<le> of_char c \<and> of_char c \<le> (57::nat)"
proof (induction n rule: nat_to_string.induct)
  case (1 n)
  show ?case
  proof (cases "n < 10")
    case True
    with "1.prems" have "c = char_of (48 + n)" by (simp add: nat_to_string.simps)
    with True show ?thesis by (simp add: of_char_digit)
  next
    case False
    with "1.prems" consider "c \<in> set (nat_to_string (n div 10))" | "c = char_of (48 + n mod 10)"
      by (auto simp: nat_to_string_step)
    then show ?thesis
    proof cases
      case 1
      with False "1.IH" show ?thesis by blast
    next
      case 2
      then show ?thesis by (simp add: of_char_digit)
    qed
  qed
qed

lemma nat_to_string_not_Nil [js_simps]: "nat_to_string n \<noteq> []"
  by (subst nat_to_string.simps) simp

subsection \<open>Lemmas on arrays\<close>

lemma find_idx_None: "find_idx P xs = None \<longleftrightarrow> (\<forall>x \<in> set xs. \<not> P x)"
  by (induction xs) auto

lemma find_idx_Some:
  "find_idx P xs = Some i \<Longrightarrow> i < length xs \<and> P (xs ! i) \<and> (\<forall>j < i. \<not> P (xs ! j))"
proof (induction xs arbitrary: i)
  case (Cons x xs)
  then show ?case by (cases i) (auto split: if_splits simp: less_Suc_eq_0_disj)
qed simp

lemma find_idx_distinct:
  assumes "distinct (map f xs)" and "find_idx (\<lambda>x. f x = k) xs = Some i"
  shows "i < length xs \<and> f (xs ! i) = k"
  using find_idx_Some [OF assms(2)] by simp

lemma remove_at_filter:
  assumes "distinct (map f xs)" and "k < length xs" and "f (xs ! k) = i"
  shows "take k xs @ drop (Suc k) xs = filter (\<lambda>x. f x \<noteq> i) xs"
  using assms
proof (induction xs arbitrary: k)
  case (Cons x xs)
  show ?case
  proof (cases k)
    case 0
    with Cons.prems have "\<forall>y \<in> set xs. f y \<noteq> i" by (auto simp: image_iff)
    with 0 Cons.prems show ?thesis by (simp add: filter_id_conv)
  next
    case (Suc k')
    with Cons.prems have "f x \<noteq> i" by (auto simp: nth_mem)
    with Suc Cons.prems Cons.IH [of k'] show ?thesis by simp
  qed
qed simp

lemma update_at_map:
  assumes "distinct (map f xs)" and "k < length xs" and "f (xs ! k) = i"
  shows "xs[k := u] = map (\<lambda>x. if f x = i then u else x) xs"
  using assms
proof (induction xs arbitrary: k)
  case (Cons x xs)
  show ?case
  proof (cases k)
    case 0
    with Cons.prems have "\<forall>y \<in> set xs. f y \<noteq> i" by (auto simp: image_iff)
    with 0 Cons.prems show ?thesis by (simp add: map_idI)
  next
    case (Suc k')
    with Cons.prems have "f x \<noteq> i" by (auto simp: nth_mem)
    with Suc Cons.prems Cons.IH [of k'] show ?thesis by simp
  qed
qed simp

lemma add_unique_set [simp]: "set (add_unique xs x) = insert x (set xs)"
  by (auto simp: add_unique_def)

lemma add_unique_distinct [simp]: "distinct (add_unique xs x) \<longleftrightarrow> distinct xs"
  by (auto simp: add_unique_def)

lemma foldl_add_unique_set:
  "set (foldl add_unique xs ys) = set xs \<union> set ys"
  by (induction ys arbitrary: xs) auto

lemma foldl_add_unique_distinct:
  "distinct xs \<Longrightarrow> distinct (foldl add_unique xs ys)"
  by (induction ys arbitrary: xs) auto

lemma foldl_add_unique_rev_remdups:
  "foldl add_unique [] ys = rev (remdups (rev ys))"
proof -
  have "\<And>xs. distinct xs \<Longrightarrow> foldl add_unique xs ys = xs @ [y \<leftarrow> rev (remdups (rev ys)). y \<notin> set xs]"
  proof (induction ys rule: rev_induct)
    case Nil
    then show ?case by simp
  next
    case (snoc y ys)
    then show ?case by (auto simp: add_unique_def filter_empty_conv)
  qed
  then show ?thesis by simp
qed

subsection \<open>Lemmas on the Map model\<close>

lemma map_of_jsmap_set [jsmap_simps]: "map_of (jsmap_set k v m) = (map_of m)(k \<mapsto> v)"
  by (induction k v m rule: jsmap_set.induct) (auto simp: fun_eq_iff)

lemma map_of_jsmap_delete [jsmap_simps]: "map_of (jsmap_delete k m) = (map_of m)(k := None)"
  by (induction m) (auto simp: jsmap_delete_def fun_eq_iff)

lemma jsmap_keys_set [jsmap_simps]:
  "jsmap_keys (jsmap_set k v m) =
     (if k \<in> set (jsmap_keys m) then jsmap_keys m else jsmap_keys m @ [k])"
  by (induction k v m rule: jsmap_set.induct) (auto simp: jsmap_keys_def)

lemma jsmap_keys_delete [jsmap_simps]:
  "jsmap_keys (jsmap_delete k m) = filter (\<lambda>a. a \<noteq> k) (jsmap_keys m)"
  by (induction m) (auto simp: jsmap_keys_def jsmap_delete_def)

lemma distinct_jsmap_set [jsmap_simps]:
  "distinct (jsmap_keys m) \<Longrightarrow> distinct (jsmap_keys (jsmap_set k v m))"
  by (simp add: jsmap_keys_set)

lemma distinct_jsmap_delete [jsmap_simps]:
  "distinct (jsmap_keys m) \<Longrightarrow> distinct (jsmap_keys (jsmap_delete k m))"
  by (simp add: jsmap_keys_delete)

lemma length_jsmap_set [jsmap_simps]:
  "length (jsmap_set k v m) = (if k \<in> set (jsmap_keys m) then length m else Suc (length m))"
  by (induction k v m rule: jsmap_set.induct) (auto simp: jsmap_keys_def)

lemma jsmap_delete_absent [jsmap_simps]:
  "k \<notin> set (jsmap_keys m) \<Longrightarrow> jsmap_delete k m = m"
  by (induction m) (auto simp: jsmap_keys_def jsmap_delete_def)

lemma jsmap_set_same [jsmap_simps]:
  "distinct (jsmap_keys m) \<Longrightarrow> map_of m k = Some v \<Longrightarrow> jsmap_set k v m = m"
  by (induction k v m rule: jsmap_set.induct) (auto simp: jsmap_keys_def)

lemma jsmap_concat_Cons [jsmap_simps]: "jsmap_concat g ((a, b) # m) = g b @ jsmap_concat g m"
  by (simp add: jsmap_concat_def)

lemma jsmap_concat_Nil [jsmap_simps]: "jsmap_concat g [] = []"
  by (simp add: jsmap_concat_def)

lemma jsmap_delete_Cons [jsmap_simps]:
  "jsmap_delete k ((a, b) # m) = (if a = k then jsmap_delete k m else (a, b) # jsmap_delete k m)"
  by (simp add: jsmap_delete_def)

lemma jsmap_delete_Nil [jsmap_simps]: "jsmap_delete k [] = []"
  by (simp add: jsmap_delete_def)

lemma set_jsmap_concat_set:
  "distinct (jsmap_keys m) \<Longrightarrow>
     set (jsmap_concat g (jsmap_set k v m)) = set (jsmap_concat g (jsmap_delete k m)) \<union> set (g v)"
proof (induction m)
  case Nil
  then show ?case by (simp add: jsmap_concat_Cons jsmap_concat_Nil jsmap_delete_Nil)
next
  case (Cons p m)
  obtain a b where p: "p = (a, b)" by fastforce
  have dk: "distinct (jsmap_keys m)" and ak: "a \<notin> set (jsmap_keys m)"
    using Cons.prems p by (auto simp: jsmap_keys_def)
  show ?case
  proof (cases "a = k")
    case True
    with ak have "jsmap_delete k m = m" by (simp add: jsmap_delete_absent)
    with True p show ?thesis by (auto simp: jsmap_concat_Cons jsmap_delete_Cons)
  next
    case False
    with p Cons.IH[OF dk] show ?thesis by (auto simp: jsmap_concat_Cons jsmap_delete_Cons)
  qed
qed

lemma distinct_jsmap_concat_set:
  "distinct (jsmap_keys m) \<Longrightarrow>
     distinct (jsmap_concat g (jsmap_set k v m)) \<longleftrightarrow>
       distinct (jsmap_concat g (jsmap_delete k m)) \<and> distinct (g v) \<and>
       set (g v) \<inter> set (jsmap_concat g (jsmap_delete k m)) = {}"
proof (induction m)
  case Nil
  then show ?case by (simp add: jsmap_concat_Cons jsmap_concat_Nil jsmap_delete_Nil)
next
  case (Cons p m)
  obtain a b where p: "p = (a, b)" by fastforce
  have dk: "distinct (jsmap_keys m)" and ak: "a \<notin> set (jsmap_keys m)"
    using Cons.prems p by (auto simp: jsmap_keys_def)
  show ?case
  proof (cases "a = k")
    case True
    with ak have "jsmap_delete k m = m" by (simp add: jsmap_delete_absent)
    with True p show ?thesis by (auto simp: jsmap_concat_Cons jsmap_delete_Cons)
  next
    case False
    have s: "set (jsmap_concat g (jsmap_set k v m)) = set (jsmap_concat g (jsmap_delete k m)) \<union> set (g v)"
      using dk by (rule set_jsmap_concat_set)
    from False p Cons.IH[OF dk] s show ?thesis
      by (auto simp: jsmap_concat_Cons jsmap_delete_Cons)
  qed
qed

lemma jsmap_concat_delete_sub:
  "set (jsmap_concat g (jsmap_delete k m)) \<subseteq> set (jsmap_concat g m)"
proof (induction m)
  case (Cons p m)
  obtain a b where "p = (a, b)" by fastforce
  with Cons show ?case by (auto simp: jsmap_concat_Cons jsmap_delete_Cons)
qed (simp add: jsmap_delete_Nil)

lemma distinct_jsmap_concat_delete:
  "distinct (jsmap_concat g m) \<Longrightarrow> distinct (jsmap_concat g (jsmap_delete k m))"
proof (induction m)
  case Nil
  then show ?case by (simp add: jsmap_delete_Nil)
next
  case (Cons p m)
  obtain a b where p: "p = (a, b)" by fastforce
  with Cons show ?case
    using jsmap_concat_delete_sub [of g k m]
    by (auto simp: jsmap_concat_Cons jsmap_delete_Cons)
qed

text \<open>
  Replacing the list of one entry by a duplicate-free list of some of its own elements
  keeps the elements of all entries free of duplicates: the shape of every operation
  that removes members from one entry of a map of lists.
\<close>

lemma jsmap_concat_set_shrink:
  assumes dk: "distinct (jsmap_keys m)" and d: "distinct (jsmap_concat g m)"
    and old: "map_of m k = Some v0" and sub: "set (g v) \<subseteq> set (g v0)" and dv: "distinct (g v)"
  shows "distinct (jsmap_concat g (jsmap_set k v m)) \<and>
         set (jsmap_concat g (jsmap_set k v m)) \<subseteq> set (jsmap_concat g m)"
proof -
  from dk old have m: "jsmap_set k v0 m = m" by (rule jsmap_set_same)
  from d m dk have "set (g v0) \<inter> set (jsmap_concat g (jsmap_delete k m)) = {}"
    and dd: "distinct (jsmap_concat g (jsmap_delete k m))"
    using distinct_jsmap_concat_set [of m g k v0] by auto
  with sub have "set (g v) \<inter> set (jsmap_concat g (jsmap_delete k m)) = {}" by blast
  with dd dv dk have "distinct (jsmap_concat g (jsmap_set k v m))"
    by (simp add: distinct_jsmap_concat_set)
  moreover have "set (jsmap_concat g (jsmap_set k v m)) \<subseteq> set (jsmap_concat g m)"
    using set_jsmap_concat_set [OF dk, of g k v] set_jsmap_concat_set [OF dk, of g k v0] m sub
    by auto
  ultimately show ?thesis by blast
qed

text \<open>Adding one element that occurs in no entry keeps the elements free of duplicates.\<close>

lemma jsmap_concat_set_snoc:
  assumes dk: "distinct (jsmap_keys m)" and d: "distinct (jsmap_concat g m)"
    and old: "map_of m k = Some v0" and new: "g v = g v0 @ [c]"
    and fresh: "c \<notin> set (jsmap_concat g m)"
  shows "distinct (jsmap_concat g (jsmap_set k v m)) \<and>
         set (jsmap_concat g (jsmap_set k v m)) = insert c (set (jsmap_concat g m))"
proof -
  from dk old have m: "jsmap_set k v0 m = m" by (rule jsmap_set_same)
  from d m dk have disj: "set (g v0) \<inter> set (jsmap_concat g (jsmap_delete k m)) = {}"
    and dd: "distinct (jsmap_concat g (jsmap_delete k m))" and d0: "distinct (g v0)"
    using distinct_jsmap_concat_set [of m g k v0] by auto
  have s0: "set (jsmap_concat g m) = set (jsmap_concat g (jsmap_delete k m)) \<union> set (g v0)"
    using set_jsmap_concat_set [OF dk, of g k v0] m by simp
  from fresh s0 have "c \<notin> set (g v0)" and "c \<notin> set (jsmap_concat g (jsmap_delete k m))" by auto
  with disj dd d0 new dk have "distinct (jsmap_concat g (jsmap_set k v m))"
    by (simp add: distinct_jsmap_concat_set)
  moreover have "set (jsmap_concat g (jsmap_set k v m)) = insert c (set (jsmap_concat g m))"
    using set_jsmap_concat_set [OF dk, of g k v] s0 new by auto
  ultimately show ?thesis by blast
qed

lemma jsmap_concat_entry:
  assumes dk: "distinct (jsmap_keys m)" and d: "distinct (jsmap_concat g m)"
    and e: "map_of m k = Some v"
  shows "distinct (g v) \<and> set (g v) \<subseteq> set (jsmap_concat g m)"
proof -
  from dk e have m: "jsmap_set k v m = m" by (rule jsmap_set_same)
  with d dk have "distinct (g v)" using distinct_jsmap_concat_set [of m g k v] by simp
  moreover have "set (g v) \<subseteq> set (jsmap_concat g m)"
    using set_jsmap_concat_set [OF dk, of g k v] m by auto
  ultimately show ?thesis by blast
qed

end
