(* ===== verification/Relay.thy ===== *)
theory Relay
  imports Prelude
begin

text \<open>
  The session-sharing relay (spec sections 3 to 5), the process-local server that fans a
  terminal's output out to remote viewers. Its implementation module
  (\<open>sessionSharingServer\<close>, imported by \<open>src/app/lib/app.ts\<close> line 13) is not part
  of the sources, so this theory models it from the specification; the host's use of it is
  modelled from the code in theory \<open>SharingHost\<close>.
  \<^item> State: a \<open>relay\<close> record holds the server phase, the bound port and host, the
    optional public URL, the session registry as a \<open>Map\<close> from session id to
    \<open>shared_session\<close> (token, optional password, mode, optional absolute expiry,
    viewer handles in attach order) and the next connection handle the listener hands out.
  \<^item> Operations return the new state and the list of observable events: viewer-count
    notifications, transports closed, bytes delivered to a viewer, input forwarded to the
    host. Transport write failures are an argument (\<open>ok\<close>: which viewers' writes
    succeed); the OS bind call is an argument (\<open>os_bind\<close>).
  \<^item> Time is milliseconds (\<open>now\<close>), expiry is \<open>expiresAt < now\<close>.
\<close>

datatype share_mode = ReadOnly | Interactive

record shared_session =
  ss_token :: string
  ss_password :: "string option"
  ss_mode :: share_mode
  ss_expires_at :: "nat option"
  ss_viewers :: "nat list"

datatype server_phase = Stopped | Running

record relay =
  phase :: server_phase
  bound_port :: nat
  bound_host :: string
  public_url :: "string option"
  sessions :: "(string, shared_session) jsmap"
  next_conn :: nat

datatype relay_event =
    ViewerCountChanged string nat
  | CloseViewer nat
  | Deliver nat bytes
  | HostInput string bytes

datatype relay_error = BindError

type_synonym os_bind = "nat \<Rightarrow> string \<Rightarrow> nat option"

definition relay_init :: relay where
  "relay_init = \<lparr>phase = Stopped, bound_port = 0, bound_host = ''0.0.0.0'', public_url = None,
     sessions = [], next_conn = 0\<rparr>"

subsection \<open>Session registry\<close>

definition lookup_session :: "relay \<Rightarrow> string \<Rightarrow> shared_session option" where
  "lookup_session s sid = map_of (sessions s) sid"

definition viewer_count :: "relay \<Rightarrow> string \<Rightarrow> nat" where
  "viewer_count s sid = (case lookup_session s sid of None \<Rightarrow> 0 | Some ss \<Rightarrow> length (ss_viewers ss))"

definition active_session_count :: "relay \<Rightarrow> nat" where
  "active_session_count s = length (sessions s)"

definition register_session ::
  "nat \<Rightarrow> string \<Rightarrow> string \<Rightarrow> share_mode \<Rightarrow> string option \<Rightarrow> nat option \<Rightarrow> relay \<Rightarrow> relay" where
  "register_session now sid tok m pw expires_in s =
     s\<lparr>sessions := jsmap_set sid
        \<lparr>ss_token = tok, ss_password = pw, ss_mode = m,
         ss_expires_at = map_option (\<lambda>n. now + 1000 * n) expires_in, ss_viewers = []\<rparr>
        (sessions s)\<rparr>"

text \<open>Closing the viewers of a session one at a time, each followed by the new count.\<close>

fun close_viewers :: "string \<Rightarrow> nat list \<Rightarrow> relay_event list" where
  "close_viewers sid [] = []"
| "close_viewers sid (v # vs) = CloseViewer v # ViewerCountChanged sid (length vs) # close_viewers sid vs"

definition unregister_session :: "string \<Rightarrow> relay \<Rightarrow> relay \<times> relay_event list" where
  "unregister_session sid s =
     (case lookup_session s sid of
        None \<Rightarrow> (s, [])
      | Some ss \<Rightarrow> (s\<lparr>sessions := jsmap_delete sid (sessions s)\<rparr>, close_viewers sid (ss_viewers ss)))"

subsection \<open>Transport listener: the attach handshake\<close>

definition is_expired :: "nat \<Rightarrow> shared_session \<Rightarrow> bool" where
  "is_expired now ss \<longleftrightarrow> (case ss_expires_at ss of None \<Rightarrow> False | Some e \<Rightarrow> e < now)"

definition credentials_ok :: "shared_session \<Rightarrow> string \<Rightarrow> string option \<Rightarrow> bool" where
  "credentials_ok ss tok pw \<longleftrightarrow>
     ss_token ss = tok \<and> (case ss_password ss of None \<Rightarrow> True | Some p \<Rightarrow> pw = Some p)"

text \<open>
  An inbound connection is accepted only while the server runs; it receives the next
  handle. It is rejected (closed, registry untouched) when the session is unknown, the
  credentials do not match or the session has expired; otherwise it joins the session's
  viewers and the new count is announced.
\<close>

definition attach_viewer :: "nat \<Rightarrow> string \<Rightarrow> string \<Rightarrow> string option \<Rightarrow> relay \<Rightarrow> relay \<times> relay_event list" where
  "attach_viewer now sid tok pw s =
     (if phase s \<noteq> Running then (s, [])
      else
        let c = next_conn s; s' = s\<lparr>next_conn := Suc c\<rparr> in
        (case lookup_session s sid of
           None \<Rightarrow> (s', [CloseViewer c])
         | Some ss \<Rightarrow>
             if \<not> credentials_ok ss tok pw \<or> is_expired now ss then (s', [CloseViewer c])
             else
               let vs = ss_viewers ss @ [c] in
               (s'\<lparr>sessions := jsmap_set sid (ss\<lparr>ss_viewers := vs\<rparr>) (sessions s)\<rparr>,
                [ViewerCountChanged sid (length vs)])))"

subsection \<open>Broadcast engine\<close>

text \<open>
  Every viewer of the snapshot is written to in order; a viewer whose write fails is
  dropped and closed and the count announced, and the remaining viewers are still served.
\<close>

fun fan_out :: "string \<Rightarrow> bytes \<Rightarrow> (nat \<Rightarrow> bool) \<Rightarrow> nat \<Rightarrow> nat list \<Rightarrow> nat list \<times> relay_event list" where
  "fan_out sid d ok n [] = ([], [])"
| "fan_out sid d ok n (v # vs) =
     (if ok v then
        (case fan_out sid d ok n vs of (ks, es) \<Rightarrow> (v # ks, Deliver v d # es))
      else
        (case fan_out sid d ok (n - 1) vs of
           (ks, es) \<Rightarrow> (ks, CloseViewer v # ViewerCountChanged sid (n - 1) # es)))"

definition broadcast_output :: "string \<Rightarrow> bytes \<Rightarrow> (nat \<Rightarrow> bool) \<Rightarrow> relay \<Rightarrow> relay \<times> relay_event list" where
  "broadcast_output sid d ok s =
     (case lookup_session s sid of
        None \<Rightarrow> (s, [])
      | Some ss \<Rightarrow>
          (case fan_out sid d ok (length (ss_viewers ss)) (ss_viewers ss) of
             (ks, es) \<Rightarrow> (s\<lparr>sessions := jsmap_set sid (ss\<lparr>ss_viewers := ks\<rparr>) (sessions s)\<rparr>, es)))"

subsection \<open>Input router and viewer departure\<close>

definition session_of_viewer :: "relay \<Rightarrow> nat \<Rightarrow> (string \<times> shared_session) option" where
  "session_of_viewer s c = find (\<lambda>(sid, ss). c \<in> set (ss_viewers ss)) (sessions s)"

definition viewer_input :: "nat \<Rightarrow> bytes \<Rightarrow> relay \<Rightarrow> relay_event list" where
  "viewer_input c d s =
     (case session_of_viewer s c of
        None \<Rightarrow> []
      | Some (sid, ss) \<Rightarrow> (if ss_mode ss = Interactive then [HostInput sid d] else []))"

definition viewer_closed :: "nat \<Rightarrow> relay \<Rightarrow> relay \<times> relay_event list" where
  "viewer_closed c s =
     (case session_of_viewer s c of
        None \<Rightarrow> (s, [])
      | Some (sid, ss) \<Rightarrow>
          let vs = filter (\<lambda>v. v \<noteq> c) (ss_viewers ss) in
          (s\<lparr>sessions := jsmap_set sid (ss\<lparr>ss_viewers := vs\<rparr>) (sessions s)\<rparr>,
           [ViewerCountChanged sid (length vs)]))"

subsection \<open>Lifecycle manager\<close>

fun unregister_all :: "string list \<Rightarrow> relay \<Rightarrow> relay \<times> relay_event list" where
  "unregister_all [] s = (s, [])"
| "unregister_all (sid # sids) s =
     (case unregister_session sid s of
        (s1, es1) \<Rightarrow> (case unregister_all sids s1 of (s2, es2) \<Rightarrow> (s2, es1 @ es2)))"

definition expired_sessions :: "nat \<Rightarrow> relay \<Rightarrow> string list" where
  "expired_sessions now s = [sid. (sid, ss) \<leftarrow> sessions s, is_expired now ss]"

definition expire_sessions :: "nat \<Rightarrow> relay \<Rightarrow> relay \<times> relay_event list" where
  "expire_sessions now s = unregister_all (expired_sessions now s) s"

definition start_server :: "os_bind \<Rightarrow> nat \<Rightarrow> string \<Rightarrow> relay \<Rightarrow> relay \<times> (relay_error + nat)" where
  "start_server os p h s =
     (if phase s = Running then (s, Inr (bound_port s))
      else
        (case os p h of
           None \<Rightarrow> (s, Inl BindError)
         | Some p' \<Rightarrow> (s\<lparr>phase := Running, bound_port := p', bound_host := h\<rparr>, Inr p')))"

definition stop_server :: "relay \<Rightarrow> relay \<times> relay_event list" where
  "stop_server s =
     (if phase s = Stopped then (s, [])
      else
        (s\<lparr>phase := Stopped, bound_port := 0, sessions := []\<rparr>,
         concat (map (\<lambda>(sid, ss). close_viewers sid (ss_viewers ss)) (sessions s))))"

definition set_public_url :: "string option \<Rightarrow> relay \<Rightarrow> relay" where
  "set_public_url u s = s\<lparr>public_url := u\<rparr>"

subsection \<open>The relay as a state machine\<close>

datatype relay_op =
    Register string string share_mode "string option" "nat option"
  | Unregister string
  | Attach string string "string option"
  | Broadcast string bytes "nat \<Rightarrow> bool"
  | Input nat bytes
  | ViewerClosed nat
  | Expire
  | Start nat string
  | Stop
  | SetPublicUrl "string option"

fun relay_step :: "os_bind \<Rightarrow> nat \<Rightarrow> relay_op \<Rightarrow> relay \<Rightarrow> relay \<times> relay_event list" where
  "relay_step os now (Register sid tok m pw e) s = (register_session now sid tok m pw e s, [])"
| "relay_step os now (Unregister sid) s = unregister_session sid s"
| "relay_step os now (Attach sid tok pw) s = attach_viewer now sid tok pw s"
| "relay_step os now (Broadcast sid d ok) s = broadcast_output sid d ok s"
| "relay_step os now (Input c d) s = (s, viewer_input c d s)"
| "relay_step os now (ViewerClosed c) s = viewer_closed c s"
| "relay_step os now Expire s = expire_sessions now s"
| "relay_step os now (Start p h) s = (fst (start_server os p h s), [])"
| "relay_step os now Stop s = stop_server s"
| "relay_step os now (SetPublicUrl u) s = (set_public_url u s, [])"

text \<open>A run: each operation at its time, the events concatenated in order.\<close>

fun relay_run :: "os_bind \<Rightarrow> (nat \<times> relay_op) list \<Rightarrow> relay \<Rightarrow> relay \<times> relay_event list" where
  "relay_run os [] s = (s, [])"
| "relay_run os ((t, op) # ops) s =
     (case relay_step os t op s of
        (s1, es1) \<Rightarrow> (case relay_run os ops s1 of (s2, es2) \<Rightarrow> (s2, es1 @ es2)))"

inductive relay_reachable :: "os_bind \<Rightarrow> relay \<Rightarrow> bool" for os where
  init: "relay_reachable os relay_init"
| step: "relay_reachable os s \<Longrightarrow> relay_reachable os (fst (relay_step os now op s))"

text \<open>Observations of an event list: whether an event is a delivery, and what one viewer received.\<close>

definition is_delivery :: "relay_event \<Rightarrow> bool" where
  "is_delivery e = (case e of Deliver _ _ \<Rightarrow> True | _ \<Rightarrow> False)"

fun deliveries_to :: "nat \<Rightarrow> relay_event list \<Rightarrow> bytes list" where
  "deliveries_to v [] = []"
| "deliveries_to v (Deliver w d # es) = (if w = v then d # deliveries_to v es else deliveries_to v es)"
| "deliveries_to v (e # es) = deliveries_to v es"

definition all_viewers :: "relay \<Rightarrow> nat list" where
  "all_viewers s = jsmap_concat ss_viewers (sessions s)"

definition relay_inv :: "relay \<Rightarrow> bool" where
  "relay_inv s \<longleftrightarrow>
     distinct (jsmap_keys (sessions s)) \<and> distinct (all_viewers s) \<and>
     (\<forall>c \<in> set (all_viewers s). c < next_conn s) \<and>
     (phase s = Stopped \<longrightarrow> all_viewers s = [])"

definition port_inv :: "relay \<Rightarrow> bool" where
  "port_inv s \<longleftrightarrow> (phase s = Running \<longrightarrow> 0 < bound_port s)"

definition wf_os :: "os_bind \<Rightarrow> bool" where
  "wf_os os \<longleftrightarrow> (\<forall>p h p'. os p h = Some p' \<longrightarrow> 0 < p' \<and> (0 < p \<longrightarrow> p' = p))"


subsection \<open>Example configurations\<close>

text \<open>
  A well-behaved bind call (port 0 picks 40000) and the relay right after starting on
  loopback, with one read-only session ''abc'' and one interactive session ''int1''
  (spec section 8, scenarios 1 and 2).
\<close>

definition demo_os :: os_bind where
  "demo_os p h = Some (if p = 0 then 40000 else p)"

definition demo_running :: relay where
  "demo_running = fst (relay_step demo_os 0 (Start 0 ''127.0.0.1'') relay_init)"

definition demo_shared :: relay where
  "demo_shared = register_session 0 ''int1'' ''t'' Interactive None None
     (register_session 0 ''abc'' ''tok1'' ReadOnly None None demo_running)"

definition demo_locked :: relay where
  "demo_locked = register_session 0 ''pw1'' ''t'' ReadOnly (Some ''secret'') None demo_running"

text \<open>Scenario 4: session ''multi'' with three viewers, handles 0, 1 and 2.\<close>

definition demo_multi :: relay where
  "demo_multi =
     (let s0 = register_session 0 ''multi'' ''m'' ReadOnly None None demo_running;
          s1 = fst (attach_viewer 0 ''multi'' ''m'' None s0);
          s2 = fst (attach_viewer 0 ''multi'' ''m'' None s1)
      in fst (attach_viewer 0 ''multi'' ''m'' None s2))"

definition demo_viewers3 :: shared_session where
  "demo_viewers3 = \<lparr>ss_token = ''m'', ss_password = None, ss_mode = ReadOnly,
     ss_expires_at = None, ss_viewers = [0, 1, 2]\<rparr>"

subsection \<open>Registry lemmas\<close>

named_theorems relay_simps "registry equations of the relay model"

lemma lookup_session_update [relay_simps]:
  "lookup_session (s\<lparr>sessions := jsmap_set k v (sessions s)\<rparr>) sid =
     (if sid = k then Some v else lookup_session s sid)"
  by (simp add: lookup_session_def map_of_jsmap_set)

lemma lookup_session_delete [relay_simps]:
  "lookup_session (s\<lparr>sessions := jsmap_delete k (sessions s)\<rparr>) sid =
     (if sid = k then None else lookup_session s sid)"
  by (simp add: lookup_session_def map_of_jsmap_delete)

lemma lookup_session_conn [relay_simps]:
  "lookup_session (s\<lparr>next_conn := n\<rparr>) sid = lookup_session s sid"
  by (simp add: lookup_session_def)

lemma lookup_register [relay_simps]:
  "lookup_session (register_session now sid tok m pw e s) k =
     (if k = sid then Some \<lparr>ss_token = tok, ss_password = pw, ss_mode = m,
        ss_expires_at = map_option (\<lambda>n. now + 1000 * n) e, ss_viewers = []\<rparr>
      else lookup_session s k)"
  unfolding register_session_def by (simp add: lookup_session_def map_of_jsmap_set)

lemma fan_out_kept [relay_simps]: "fst (fan_out sid d ok n vs) = filter ok vs"
  by (induction sid d ok n vs rule: fan_out.induct) (auto split: prod.split)

lemma fan_out_deliveries [relay_simps]:
  "filter is_delivery (snd (fan_out sid d ok n vs)) = map (\<lambda>v. Deliver v d) (filter ok vs)"
  by (induction sid d ok n vs rule: fan_out.induct) (auto simp: is_delivery_def split: prod.split)

lemma fan_out_closed [relay_simps]:
  "CloseViewer v \<in> set (snd (fan_out sid d ok n vs)) \<longleftrightarrow> v \<in> set vs \<and> \<not> ok v"
  by (induction sid d ok n vs rule: fan_out.induct) (auto split: prod.split)

lemma unregister_lookup [relay_simps]:
  "lookup_session (fst (unregister_session sid s)) k = (if k = sid then None else lookup_session s k)"
  by (auto simp: unregister_session_def lookup_session_delete split: option.split)

lemma unregister_twice:
  "unregister_session sid (fst (unregister_session sid s)) = (fst (unregister_session sid s), [])"
  by (simp add: unregister_session_def [of sid "fst (unregister_session sid s)"] unregister_lookup)

lemma unregister_all_Cons_fst:
  "fst (unregister_all (sid # sids) s) = fst (unregister_all sids (fst (unregister_session sid s)))"
  by (simp split: prod.split)

lemma unregister_all_lookup [relay_simps]:
  "lookup_session (fst (unregister_all sids s)) k = (if k \<in> set sids then None else lookup_session s k)"
proof (induction sids arbitrary: s)
  case (Cons a sids)
  show ?case unfolding unregister_all_Cons_fst using Cons.IH by (simp add: unregister_lookup)
qed simp

subsection \<open>The relay invariant\<close>

lemma relay_inv_init: "relay_inv relay_init"
  by (simp add: relay_inv_def relay_init_def all_viewers_def jsmap_keys_def jsmap_concat_def)

text \<open>
  An operation that keeps the registry keys distinct, only removes viewers, never moves
  the handle counter back and never stops the server keeps the invariant.
\<close>

lemma relay_inv_shrink:
  assumes "relay_inv s" and "distinct (jsmap_keys (sessions s'))" and "distinct (all_viewers s')"
    and "set (all_viewers s') \<subseteq> set (all_viewers s)" and "next_conn s \<le> next_conn s'"
    and "phase s' = Stopped \<longrightarrow> phase s = Stopped"
  shows "relay_inv s'"
  using assms by (fastforce simp: relay_inv_def)

lemma relay_inv_replace:
  assumes inv: "relay_inv s" and e: "lookup_session s sid = Some ss"
    and sub: "set vs \<subseteq> set (ss_viewers ss)" and dv: "distinct vs"
  shows "relay_inv (s\<lparr>sessions := jsmap_set sid (ss\<lparr>ss_viewers := vs\<rparr>) (sessions s)\<rparr>)"
proof -
  from inv have dk: "distinct (jsmap_keys (sessions s))" and d: "distinct (all_viewers s)"
    by (auto simp: relay_inv_def)
  from e have m: "map_of (sessions s) sid = Some ss" by (simp add: lookup_session_def)
  have "distinct (jsmap_concat ss_viewers (jsmap_set sid (ss\<lparr>ss_viewers := vs\<rparr>) (sessions s))) \<and>
        set (jsmap_concat ss_viewers (jsmap_set sid (ss\<lparr>ss_viewers := vs\<rparr>) (sessions s))) \<subseteq>
          set (jsmap_concat ss_viewers (sessions s))"
    using jsmap_concat_set_shrink [OF dk d [unfolded all_viewers_def] m] sub dv by simp
  then show ?thesis
    using dk by - (rule relay_inv_shrink [OF inv], auto simp: all_viewers_def distinct_jsmap_set)
qed

lemma register_inv: "relay_inv s \<Longrightarrow> relay_inv (register_session now sid tok m pw e s)"
proof -
  assume inv: "relay_inv s"
  then have dk: "distinct (jsmap_keys (sessions s))" and d: "distinct (all_viewers s)"
    by (auto simp: relay_inv_def)
  let ?m = "jsmap_set sid \<lparr>ss_token = tok, ss_password = pw, ss_mode = m,
        ss_expires_at = map_option (\<lambda>n. now + 1000 * n) e, ss_viewers = []\<rparr> (sessions s)"
  have "distinct (jsmap_concat ss_viewers ?m)"
    using dk d distinct_jsmap_concat_delete [of ss_viewers "sessions s" sid]
    by (simp add: distinct_jsmap_concat_set all_viewers_def)
  moreover have "set (jsmap_concat ss_viewers ?m) = set (jsmap_concat ss_viewers (jsmap_delete sid (sessions s)))"
    by (simp add: set_jsmap_concat_set [OF dk])
  then have "set (jsmap_concat ss_viewers ?m) \<subseteq> set (all_viewers s)"
    using jsmap_concat_delete_sub [of ss_viewers sid "sessions s"] by (simp add: all_viewers_def)
  ultimately show ?thesis
    using dk by - (rule relay_inv_shrink [OF inv], simp_all add: register_session_def all_viewers_def distinct_jsmap_set)
qed

lemma unregister_inv: "relay_inv s \<Longrightarrow> relay_inv (fst (unregister_session sid s))"
proof -
  assume inv: "relay_inv s"
  then have dk: "distinct (jsmap_keys (sessions s))" and d: "distinct (all_viewers s)"
    by (auto simp: relay_inv_def)
  have "relay_inv (s\<lparr>sessions := jsmap_delete sid (sessions s)\<rparr>)"
    using dk d jsmap_concat_delete_sub [of ss_viewers sid "sessions s"]
    by - (rule relay_inv_shrink [OF inv],
          simp_all add: all_viewers_def distinct_jsmap_delete distinct_jsmap_concat_delete)
  with inv show ?thesis by (simp add: unregister_session_def split: option.split)
qed

lemma attach_inv: "relay_inv s \<Longrightarrow> relay_inv (fst (attach_viewer now sid tok pw s))"
proof -
  assume inv: "relay_inv s"
  then have dk: "distinct (jsmap_keys (sessions s))" and d: "distinct (all_viewers s)"
    and lt: "\<forall>c \<in> set (all_viewers s). c < next_conn s"
    by (auto simp: relay_inv_def)
  let ?s' = "s\<lparr>next_conn := Suc (next_conn s)\<rparr>"
  have rej: "relay_inv ?s'"
    using inv by - (rule relay_inv_shrink [OF inv], auto simp: relay_inv_def all_viewers_def)
  show ?thesis
  proof (cases "phase s = Running")
    case False
    with inv show ?thesis by (simp add: attach_viewer_def)
  next
    case run: True
    show ?thesis
    proof (cases "lookup_session s sid")
      case None
      with run rej show ?thesis by (simp add: attach_viewer_def Let_def)
    next
      case (Some ss)
      show ?thesis
      proof (cases "\<not> credentials_ok ss tok pw \<or> is_expired now ss")
        case True
        with run rej Some show ?thesis by (simp add: attach_viewer_def Let_def)
      next
        case False
        let ?ss' = "ss\<lparr>ss_viewers := ss_viewers ss @ [next_conn s]\<rparr>"
        from Some have m: "map_of (sessions s) sid = Some ss" by (simp add: lookup_session_def)
        have fresh: "next_conn s \<notin> set (jsmap_concat ss_viewers (sessions s))"
          using lt by (auto simp: all_viewers_def)
        have new: "distinct (jsmap_concat ss_viewers (jsmap_set sid ?ss' (sessions s))) \<and>
            set (jsmap_concat ss_viewers (jsmap_set sid ?ss' (sessions s))) =
              insert (next_conn s) (set (jsmap_concat ss_viewers (sessions s)))"
          by (rule jsmap_concat_set_snoc [OF dk d [unfolded all_viewers_def] m]) (simp_all add: fresh)
        have "relay_inv (?s'\<lparr>sessions := jsmap_set sid ?ss' (sessions s)\<rparr>)"
          using new lt dk run by (auto simp: relay_inv_def all_viewers_def distinct_jsmap_set)
        with run Some False show ?thesis by (simp add: attach_viewer_def Let_def)
      qed
    qed
  qed
qed

lemma broadcast_inv: "relay_inv s \<Longrightarrow> relay_inv (fst (broadcast_output sid d ok s))"
proof -
  assume inv: "relay_inv s"
  show ?thesis
  proof (cases "lookup_session s sid")
    case None
    with inv show ?thesis by (simp add: broadcast_output_def)
  next
    case (Some ss)
    from inv have dk: "distinct (jsmap_keys (sessions s))" and d: "distinct (all_viewers s)"
      by (auto simp: relay_inv_def)
    from Some have "map_of (sessions s) sid = Some ss" by (simp add: lookup_session_def)
    with dk d have "distinct (ss_viewers ss)"
      using jsmap_concat_entry [of "sessions s" ss_viewers] by (auto simp: all_viewers_def)
    then have "relay_inv (s\<lparr>sessions := jsmap_set sid (ss\<lparr>ss_viewers := filter ok (ss_viewers ss)\<rparr>) (sessions s)\<rparr>)"
      using relay_inv_replace [OF inv Some] by simp
    moreover obtain ks es where fo: "fan_out sid d ok (length (ss_viewers ss)) (ss_viewers ss) = (ks, es)"
      by fastforce
    moreover have "ks = filter ok (ss_viewers ss)"
      using fan_out_kept [of sid d ok "length (ss_viewers ss)" "ss_viewers ss"] fo by simp
    ultimately show ?thesis using Some by (simp add: broadcast_output_def)
  qed
qed

lemma session_of_viewer_lookup:
  "distinct (jsmap_keys (sessions s)) \<Longrightarrow> session_of_viewer s c = Some (sid, ss) \<Longrightarrow>
     lookup_session s sid = Some ss \<and> c \<in> set (ss_viewers ss)"
  by (auto simp: session_of_viewer_def lookup_session_def jsmap_keys_def find_Some_iff
      dest: nth_mem intro: map_of_is_SomeI)

lemma viewer_closed_inv: "relay_inv s \<Longrightarrow> relay_inv (fst (viewer_closed c s))"
proof -
  assume inv: "relay_inv s"
  show ?thesis
  proof (cases "session_of_viewer s c")
    case None
    with inv show ?thesis by (simp add: viewer_closed_def)
  next
    case (Some p)
    obtain sid ss where p: "p = (sid, ss)" by fastforce
    from inv have dk: "distinct (jsmap_keys (sessions s))" and d: "distinct (all_viewers s)"
      by (auto simp: relay_inv_def)
    from Some p dk have l: "lookup_session s sid = Some ss"
      using session_of_viewer_lookup by blast
    then have "map_of (sessions s) sid = Some ss" by (simp add: lookup_session_def)
    with dk d have "distinct (ss_viewers ss)"
      using jsmap_concat_entry [of "sessions s" ss_viewers] by (auto simp: all_viewers_def)
    then have "relay_inv (s\<lparr>sessions := jsmap_set sid (ss\<lparr>ss_viewers := filter (\<lambda>v. v \<noteq> c) (ss_viewers ss)\<rparr>) (sessions s)\<rparr>)"
      using relay_inv_replace [OF inv l] by simp
    with Some p show ?thesis by (simp add: viewer_closed_def Let_def)
  qed
qed

lemma unregister_all_inv: "relay_inv s \<Longrightarrow> relay_inv (fst (unregister_all sids s))"
proof (induction sids arbitrary: s)
  case (Cons a sids)
  show ?case unfolding unregister_all_Cons_fst using Cons by (simp add: unregister_inv)
qed simp

lemma start_inv: "relay_inv s \<Longrightarrow> relay_inv (fst (start_server os p h s))"
  by (auto simp: start_server_def relay_inv_def all_viewers_def split: option.split)

lemma stop_inv: "relay_inv s \<Longrightarrow> relay_inv (fst (stop_server s))"
  by (auto simp: stop_server_def relay_inv_def all_viewers_def jsmap_keys_def jsmap_concat_def)

lemma set_public_url_inv: "relay_inv s \<Longrightarrow> relay_inv (set_public_url u s)"
  by (simp add: set_public_url_def relay_inv_def all_viewers_def)

lemma relay_step_inv: "relay_inv s \<Longrightarrow> relay_inv (fst (relay_step os now op s))"
proof (cases op)
  case (Input c d)
  then show "relay_inv s \<Longrightarrow> ?thesis" by simp
qed (simp_all add: register_inv unregister_inv attach_inv broadcast_inv viewer_closed_inv
      expire_sessions_def unregister_all_inv start_inv stop_inv set_public_url_inv)

subsection \<open>Behaviour of the operations\<close>

lemma broadcast_output_Some:
  "lookup_session s sid = Some ss \<Longrightarrow>
     broadcast_output sid d ok s =
       (s\<lparr>sessions := jsmap_set sid (ss\<lparr>ss_viewers := filter ok (ss_viewers ss)\<rparr>) (sessions s)\<rparr>,
        snd (fan_out sid d ok (length (ss_viewers ss)) (ss_viewers ss)))"
proof -
  assume l: "lookup_session s sid = Some ss"
  obtain ks es where fo: "fan_out sid d ok (length (ss_viewers ss)) (ss_viewers ss) = (ks, es)"
    by fastforce
  moreover from fo have "ks = filter ok (ss_viewers ss)"
    using fan_out_kept [of sid d ok "length (ss_viewers ss)" "ss_viewers ss"] by simp
  ultimately show ?thesis using l by (simp add: broadcast_output_def)
qed

lemma deliveries_to_append [relay_simps]:
  "deliveries_to v (es @ es') = deliveries_to v es @ deliveries_to v es'"
  by (induction v es rule: deliveries_to.induct) simp_all

lemma deliveries_to_filter [relay_simps]:
  "deliveries_to v (filter is_delivery es) = deliveries_to v es"
  by (induction v es rule: deliveries_to.induct) (simp_all add: is_delivery_def)

lemma deliveries_to_map [relay_simps]:
  "deliveries_to v (map (\<lambda>w. Deliver w d) ws) = replicate (count_list ws v) d"
  by (induction ws) auto

lemma count_list_filter_distinct:
  "distinct ws \<Longrightarrow> v \<in> set ws \<Longrightarrow> ok v \<Longrightarrow> count_list (filter ok ws) v = 1"
  by (induction ws) (auto simp: count_list_0_iff)

lemma fan_out_deliveries_to:
  "distinct vs \<Longrightarrow> v \<in> set vs \<Longrightarrow> ok v \<Longrightarrow> deliveries_to v (snd (fan_out sid d ok n vs)) = [d]"
proof -
  assume "distinct vs" "v \<in> set vs" "ok v"
  then have "count_list (filter ok vs) v = 1" by (rule count_list_filter_distinct)
  then show ?thesis
    using fan_out_deliveries [of sid d ok n vs] deliveries_to_filter [of v]
    by (metis deliveries_to_map replicate_0 replicate_Suc One_nat_def)
qed

lemma relay_run_Cons_snd:
  "snd (relay_run os ((t, op) # ops) s) =
     snd (relay_step os t op s) @ snd (relay_run os ops (fst (relay_step os t op s)))"
  by (simp split: prod.split)

lemma relay_run_Cons_fst:
  "fst (relay_run os ((t, op) # ops) s) = fst (relay_run os ops (fst (relay_step os t op s)))"
  by (simp split: prod.split)

lemma relay_reachable_run: "relay_reachable os s \<Longrightarrow> relay_reachable os (fst (relay_run os ops s))"
proof (induction ops arbitrary: s)
  case (Cons a ops)
  obtain t op where a: "a = (t, op)" by fastforce
  show ?case
    using Cons.IH [OF relay_reachable.step [OF Cons.prems, of t op]] a
    by (simp del: relay_run.simps add: relay_run_Cons_fst)
qed simp

lemma close_viewers_closed [relay_simps]:
  "CloseViewer v \<in> set (close_viewers sid vs) \<longleftrightarrow> v \<in> set vs"
  by (induction vs) auto

lemma close_viewers_counts:
  "ViewerCountChanged k n \<in> set (close_viewers sid vs) \<Longrightarrow> k = sid"
  by (induction vs) auto

lemma relay_reachable_inv_lemma: "relay_reachable os s \<Longrightarrow> relay_inv s"
  by (induction rule: relay_reachable.induct) (simp_all add: relay_inv_init relay_step_inv)

lemma unregister_all_port:
  "phase (fst (unregister_all sids s)) = phase s \<and> bound_port (fst (unregister_all sids s)) = bound_port s"
proof (induction sids arbitrary: s)
  case (Cons a sids)
  show ?case unfolding unregister_all_Cons_fst using Cons
    by (simp add: unregister_session_def split: option.split)
qed simp

lemma relay_step_port_inv:
  "wf_os os \<Longrightarrow> port_inv s \<Longrightarrow> port_inv (fst (relay_step os now op s))"
  by (cases op)
    (auto simp: port_inv_def wf_os_def register_session_def unregister_session_def attach_viewer_def
       broadcast_output_def viewer_closed_def expire_sessions_def start_server_def stop_server_def
       set_public_url_def Let_def unregister_all_port
       split: option.split prod.split)

lemma relay_reachable_port: "relay_reachable os s \<Longrightarrow> wf_os os \<Longrightarrow> port_inv s"
  by (induction rule: relay_reachable.induct)
     (simp_all add: port_inv_def relay_init_def relay_step_port_inv [unfolded port_inv_def])

subsection \<open>Properties of the relay\<close>

text \<open>
  In every state the relay can reach, the registry keys are distinct, every viewer
  handle belongs to exactly one session, every handle was handed out by the listener, and
  a stopped server has no viewer.
\<close>

lemma relay_reachable_inv: "relay_reachable os s \<Longrightarrow> relay_inv s"
  by (rule relay_reachable_inv_lemma)

lemmas demo_simps = demo_shared_def demo_running_def demo_os_def relay_init_def start_server_def
  register_session_def

text \<open>
  Token and password enforcement: an attach request whose token or password does not
  match, or that arrives after the session expired, leaves the registry as it was and
  announces no viewer.
\<close>

lemma attach_rejected:
  assumes "lookup_session s sid = Some ss"
    and "\<not> credentials_ok ss tok pw \<or> is_expired now ss"
  shows "sessions (fst (attach_viewer now sid tok pw s)) = sessions s \<and>
         (\<forall>n. ViewerCountChanged sid n \<notin> set (snd (attach_viewer now sid tok pw s)))"
  using assms by (simp add: attach_viewer_def Let_def)

text \<open>
  With the right token on a running server and a live session protected by password
  \<open>p\<close>, an attach adds exactly one viewer when it supplies \<open>p\<close> and none otherwise.
\<close>

lemma attach_password:
  assumes "phase s = Running" and "lookup_session s sid = Some ss" and "ss_token ss = tok"
    and "ss_password ss = Some p" and "\<not> is_expired now ss"
  shows "viewer_count (fst (attach_viewer now sid tok pw s)) sid =
           viewer_count s sid + (if pw = Some p then 1 else 0)"
  using assms by (simp add: attach_viewer_def Let_def credentials_ok_def viewer_count_def
      lookup_session_def map_of_jsmap_set)

text \<open>
  Mode isolation: bytes a viewer sends reach the host input sink only when the
  viewer is attached to an interactive session, tagged with that session's id.
\<close>

lemma viewer_input_interactive_only:
  assumes "relay_inv s" and "HostInput sid d \<in> set (viewer_input c d' s)"
  shows "\<exists>ss. lookup_session s sid = Some ss \<and> ss_mode ss = Interactive \<and>
           c \<in> set (ss_viewers ss) \<and> d = d'"
proof -
  from assms(1) have dk: "distinct (jsmap_keys (sessions s))" by (simp add: relay_inv_def)
  from assms(2) obtain ss where f: "session_of_viewer s c = Some (sid, ss)"
    and m: "ss_mode ss = Interactive" and dd: "d = d'"
    by (cases "session_of_viewer s c") (auto simp: viewer_input_def split: if_splits)
  from session_of_viewer_lookup [OF dk f] m dd show ?thesis by blast
qed

lemma demo_multi_lookup: "lookup_session demo_multi ''multi'' = Some demo_viewers3"
  by (simp add: demo_multi_def demo_viewers3_def demo_simps attach_viewer_def Let_def
      lookup_session_def credentials_ok_def is_expired_def)

lemma demo_multi_inv: "relay_inv demo_multi"
  by (simp add: demo_multi_def demo_simps attach_viewer_def Let_def relay_inv_def all_viewers_def
      jsmap_keys_def jsmap_concat_def lookup_session_def credentials_ok_def is_expired_def)

text \<open>
  Fan-out and dead-viewer isolation: broadcasting to a known session delivers the
  bytes to every viewer whose transport accepts them, in viewer order; exactly the viewers
  whose write fails are closed and dropped, and the session keeps the others.
\<close>

lemma broadcast_fan_out:
  assumes "lookup_session s sid = Some ss" and "broadcast_output sid d ok s = (s', es)"
  shows "filter is_delivery es = map (\<lambda>v. Deliver v d) (filter ok (ss_viewers ss)) \<and>
         lookup_session s' sid = Some (ss\<lparr>ss_viewers := filter ok (ss_viewers ss)\<rparr>) \<and>
         (\<forall>v. CloseViewer v \<in> set es \<longleftrightarrow> v \<in> set (ss_viewers ss) \<and> \<not> ok v)"
proof -
  from broadcast_output_Some [OF assms(1), of d ok] assms(2)
  have s': "s' = s\<lparr>sessions := jsmap_set sid (ss\<lparr>ss_viewers := filter ok (ss_viewers ss)\<rparr>) (sessions s)\<rparr>"
    and es: "es = snd (fan_out sid d ok (length (ss_viewers ss)) (ss_viewers ss))"
    by simp_all
  show ?thesis
    by (simp add: s' es fan_out_deliveries fan_out_closed lookup_session_update)
qed

text \<open>
  Per-viewer ordering: across a sequence of broadcasts to a session, a viewer that
  stays writable receives each chunk exactly once, in the order of the calls.
\<close>

lemma broadcast_per_viewer_order:
  assumes "relay_inv s" and "lookup_session s sid = Some ss" and "v \<in> set (ss_viewers ss)"
    and "\<forall>(t, d, ok) \<in> set bs. ok v"
  shows "deliveries_to v (snd (relay_run os (map (\<lambda>(t, d, ok). (t, Broadcast sid d ok)) bs) s)) =
           map (\<lambda>(t, d, ok). d) bs"
  using assms
proof (induction bs arbitrary: s ss)
  case Nil
  then show ?case by simp
next
  case (Cons b bs)
  obtain t d ok where b: "b = (t, d, ok)" by (cases b) auto
  from Cons.prems b have okv: "ok v" and rest: "\<forall>(t, d, ok) \<in> set bs. ok v" by auto
  from Cons.prems(1) have dk: "distinct (jsmap_keys (sessions s))" and dv: "distinct (all_viewers s)"
    by (auto simp: relay_inv_def)
  from Cons.prems(2) have "map_of (sessions s) sid = Some ss" by (simp add: lookup_session_def)
  with dk dv have dss: "distinct (ss_viewers ss)"
    using jsmap_concat_entry [of "sessions s" ss_viewers] by (auto simp: all_viewers_def)
  let ?s1 = "fst (broadcast_output sid d ok s)"
  have step: "relay_step os t (Broadcast sid d ok) s = broadcast_output sid d ok s" by simp
  have here: "deliveries_to v (snd (broadcast_output sid d ok s)) = [d]"
    using broadcast_output_Some [OF Cons.prems(2)] fan_out_deliveries_to [where vs = "ss_viewers ss" and v = v and ok = ok, OF dss Cons.prems(3) okv]
    by simp
  have i1: "relay_inv ?s1" using Cons.prems(1) by (rule broadcast_inv)
  have l1: "lookup_session ?s1 sid = Some (ss\<lparr>ss_viewers := filter ok (ss_viewers ss)\<rparr>)"
    using broadcast_output_Some [OF Cons.prems(2)] by (simp add: lookup_session_update)
  have v1: "v \<in> set (ss_viewers (ss\<lparr>ss_viewers := filter ok (ss_viewers ss)\<rparr>))"
    using Cons.prems(3) okv by simp
  have "deliveries_to v (snd (relay_run os (map (\<lambda>(t, d, ok). (t, Broadcast sid d ok)) bs) ?s1)) =
          map (\<lambda>(t, d, ok). d) bs"
    using Cons.IH [OF i1 l1 v1 rest] .
  then show ?case
    using here b
    by (simp del: relay_run.simps add: relay_run_Cons_snd relay_run_Cons_fst deliveries_to_append)
qed

lemma expired_sessions_mem:
  "(k, ss) \<in> set (sessions s) \<Longrightarrow> is_expired now ss \<Longrightarrow> k \<in> set (expired_sessions now s)"
  by (force simp: expired_sessions_def)

text \<open>
  Expiration: a session registered at time \<open>t0\<close> with a lifetime of \<open>n\<close> seconds is
  gone from the registry after any expiry sweep later than \<open>t0 + 1000 n\<close> milliseconds.
\<close>

lemma expire_after_ttl:
  assumes "t0 + 1000 * n < now"
  shows "lookup_session (fst (expire_sessions now (register_session t0 sid tok m pw (Some n) s))) sid = None"
proof -
  let ?s = "register_session t0 sid tok m pw (Some n) s"
  let ?ss = "\<lparr>ss_token = tok, ss_password = pw, ss_mode = m, ss_expires_at = Some (t0 + 1000 * n),
     ss_viewers = []\<rparr>"
  have "map_of (sessions ?s) sid = Some ?ss"
    using lookup_register [of t0 sid tok m pw "Some n" s sid] by (simp add: lookup_session_def)
  then have "(sid, ?ss) \<in> set (sessions ?s)" by (rule map_of_SomeD)
  moreover have "is_expired now ?ss" using assms by (simp add: is_expired_def)
  ultimately have "sid \<in> set (expired_sessions now ?s)" by (rule expired_sessions_mem)
  then show ?thesis by (simp add: expire_sessions_def unregister_all_lookup)
qed

text \<open>
  Unregistering is idempotent and tolerant: a second unregister of the same id, like
  an unregister of an unknown id, changes nothing and emits nothing.
\<close>

lemma unregister_idempotent:
  "unregister_session sid (fst (unregister_session sid s)) = (fst (unregister_session sid s), []) \<and>
   (lookup_session s sid = None \<longrightarrow> unregister_session sid s = (s, []))"
  by (simp add: unregister_session_def [of sid "fst (unregister_session sid s)"] unregister_lookup)
     (simp add: unregister_session_def)

text \<open>
  Starting a started server is a no-op that returns the port already bound.
\<close>

lemma start_idempotent:
  "start_server os p h s = (s1, Inr p1) \<Longrightarrow> start_server os p' h' s1 = (s1, Inr p1)"
  by (auto simp: start_server_def split: if_splits option.splits)

text \<open>
  Ephemeral port: with an OS bind call that never reports port 0, starting on port 0
  from any reachable state yields a concrete port greater than zero.
\<close>

lemma start_ephemeral_port:
  assumes "relay_reachable os s" and "wf_os os" and "start_server os 0 h s = (s', Inr p)"
  shows "0 < p"
proof -
  from assms(1,2) have pi: "port_inv s" by (rule relay_reachable_port)
  show ?thesis
  proof (cases "phase s = Running")
    case True
    with assms(3) pi show ?thesis by (auto simp: start_server_def port_inv_def)
  next
    case False
    with assms(3) obtain p' where "os 0 h = Some p'" "p = p'"
      by (auto simp: start_server_def split: option.splits)
    with assms(2) show ?thesis by (simp add: wf_os_def)
  qed
qed

lemma stop_closes_all:
  "CloseViewer v \<in> set (concat (map (\<lambda>(sid, ss). close_viewers sid (ss_viewers ss)) m)) \<longleftrightarrow>
     v \<in> set (jsmap_concat ss_viewers m)"
  by (induction m) (auto simp: jsmap_concat_Cons jsmap_concat_Nil close_viewers_closed)

text \<open>
  Stopping a running server tears everything down: no session survives, the server is
  stopped, and exactly the viewers attached before the call are closed.
\<close>

lemma stop_tears_down:
  assumes "phase s = Running" and "stop_server s = (s', es)"
  shows "sessions s' = [] \<and> phase s' = Stopped \<and> {v. CloseViewer v \<in> set es} = set (all_viewers s)"
proof -
  from assms have s': "s' = s\<lparr>phase := Stopped, bound_port := 0, sessions := []\<rparr>"
    and es: "es = concat (map (\<lambda>(sid, ss). close_viewers sid (ss_viewers ss)) (sessions s))"
    by (simp_all add: stop_server_def)
  have "{v. CloseViewer v \<in> set es} = set (all_viewers s)"
    unfolding es all_viewers_def using stop_closes_all [of _ "sessions s"] by blast
  with s' show ?thesis by simp
qed

end
