(* ===== verification/SharingHost.thy ===== *)
theory SharingHost
  imports Relay
begin

text \<open>
  The host side of session sharing: the IPC handlers of \<open>Application.initSessionSharing\<close>
  and the auto-start of \<open>Application.init\<close> in \<open>src/app/lib/app.ts\<close>, which translate
  renderer requests into relay operations and relay notifications into messages broadcast
  to every window. Each handler is a function from the relay state (and the request's
  arguments) to the new relay state, its reply and the window messages it sends. The
  server's own URL builder is not in the sources; \<open>ws_url\<close> follows the attach URL of
  spec section 6.
\<close>

record sharing_config =
  cfg_bind_host :: "string option"
  cfg_port :: "nat option"
  cfg_auto_start :: bool
  cfg_enable_tunneling :: bool

record server_status =
  st_is_running :: bool
  st_port :: nat
  st_host :: string
  st_url :: "string option"
  st_public_url :: "string option"
  st_active_sessions :: "nat option"

datatype host_msg =
    ServerStatusChanged server_status
  | ViewerCountMsg string nat
  | TerminalInput string bytes

datatype start_reply = StartOk nat string | StartFailed string

definition ws_url :: "bool \<Rightarrow> relay \<Rightarrow> string option" where
  "ws_url use_public s =
     (if use_public \<and> public_url s \<noteq> None then public_url s
      else if phase s = Running
      then Some (''ws://'' @ bound_host s @ '':'' @ nat_to_string (bound_port s))
      else None)"

definition mode_of_string :: "string \<Rightarrow> share_mode" where
  "mode_of_string m = (if m = ''interactive'' then Interactive else ReadOnly)"

subsection \<open>Handlers\<close>

text \<open>\<open>session-sharing:get-server-status\<close>: the status object.\<close>

definition server_status_of :: "relay \<Rightarrow> server_status" where
  "server_status_of s =
     \<lparr>st_is_running = (phase s = Running), st_port = bound_port s, st_host = bound_host s,
      st_url = ws_url False s, st_public_url = public_url s,
      st_active_sessions = Some (active_session_count s)\<rparr>"

text \<open>
  \<open>session-sharing:start-server\<close>: the requested host, else the configured one, else
  \<open>0.0.0.0\<close>; the requested port, else the configured one, else 0. On success the
  status (running, the returned port and the host just computed) goes to every window and
  the reply carries the same host; a bind error is the failure reply.
\<close>

definition start_server_handler ::
  "os_bind \<Rightarrow> sharing_config \<Rightarrow> nat option \<Rightarrow> string option \<Rightarrow> relay \<Rightarrow>
     relay \<times> start_reply \<times> host_msg list" where
  "start_server_handler os cfg port host s =
     (let bind_host = js_str_or host (js_str_or (cfg_bind_host cfg) ''0.0.0.0'');
          bind_port = js_nat_or port (js_nat_or (cfg_port cfg) 0)
      in case start_server os bind_port bind_host s of
           (s', Inl BindError) \<Rightarrow> (s', StartFailed ''address in use or invalid'', [])
         | (s', Inr p) \<Rightarrow>
             (s', StartOk p bind_host,
              [ServerStatusChanged \<lparr>st_is_running = True, st_port = p, st_host = bind_host,
                 st_url = ws_url False s', st_public_url = public_url s',
                 st_active_sessions = None\<rparr>]))"

text \<open>\<open>session-sharing:stop-server\<close>: stop, then announce a stopped server.\<close>

definition stop_server_handler :: "relay \<Rightarrow> relay \<times> relay_event list \<times> host_msg list" where
  "stop_server_handler s =
     (case stop_server s of
        (s', es) \<Rightarrow>
          (s', es, [ServerStatusChanged \<lparr>st_is_running = False, st_port = 0, st_host = ''0.0.0.0'',
             st_url = None, st_public_url = None, st_active_sessions = None\<rparr>]))"

text \<open>\<open>session-sharing:set-public-url\<close>: store the URL, announce the status.\<close>

definition set_public_url_handler :: "string option \<Rightarrow> relay \<Rightarrow> relay \<times> host_msg list" where
  "set_public_url_handler u s =
     (let s' = set_public_url u s in
      (s', [ServerStatusChanged \<lparr>st_is_running = (phase s' = Running), st_port = bound_port s',
         st_host = bound_host s', st_url = ws_url False s', st_public_url = public_url s',
         st_active_sessions = None\<rparr>]))"

text \<open>\<open>session-sharing:register\<close>: the mode string is passed on unchecked.\<close>

definition register_handler ::
  "nat \<Rightarrow> string \<Rightarrow> string \<Rightarrow> string \<Rightarrow> string option \<Rightarrow> nat option \<Rightarrow> relay \<Rightarrow> relay" where
  "register_handler now sid tok m pw expires_in s =
     register_session now sid tok (mode_of_string m) pw expires_in s"

text \<open>
  \<open>session-sharing:forward-input\<close>: the bytes go to every window as terminal input,
  whatever the session's mode.
\<close>

definition forward_input_handler :: "string \<Rightarrow> bytes \<Rightarrow> host_msg list" where
  "forward_input_handler sid d = [TerminalInput sid d]"

text \<open>
  The listeners on the relay's process events: viewer joined and viewer left both become
  a viewer-count message, relay input becomes terminal input.
\<close>

fun host_messages :: "relay_event list \<Rightarrow> host_msg list" where
  "host_messages [] = []"
| "host_messages (ViewerCountChanged sid n # es) = ViewerCountMsg sid n # host_messages es"
| "host_messages (HostInput sid d # es) = TerminalInput sid d # host_messages es"
| "host_messages (e # es) = host_messages es"

text \<open>
  \<open>Application.init\<close>: with \<open>autoStart\<close> set, start on the configured host and port
  (defaults \<open>0.0.0.0\<close> and 0); a failure is logged and otherwise ignored, and no status
  is broadcast.
\<close>

definition auto_start :: "os_bind \<Rightarrow> sharing_config \<Rightarrow> relay \<Rightarrow> relay" where
  "auto_start os cfg s =
     (if cfg_auto_start cfg
      then fst (start_server os (js_nat_or (cfg_port cfg) 0) (js_str_or (cfg_bind_host cfg) ''0.0.0.0'') s)
      else s)"

text \<open>\<open>before-quit\<close>: the server is stopped.\<close>

definition before_quit :: "relay \<Rightarrow> relay" where
  "before_quit s = fst (stop_server s)"

definition default_sharing_config :: sharing_config where
  "default_sharing_config = \<lparr>cfg_bind_host = None, cfg_port = None, cfg_auto_start = False,
     cfg_enable_tunneling = False\<rparr>"

subsection \<open>The host as a state machine\<close>

text \<open>
  What reaches the host: the renderer's IPC requests (\<open>initSessionSharing\<close>), the
  relay's network events (a viewer attaches, sends input or leaves, an expiry sweep) and
  the application's launch and quit. A step returns the relay, the relay's events on the
  network side and the messages broadcast to the windows; the relay's viewer-joined,
  viewer-left and input notifications are turned into window messages by the listeners of
  app.ts lines 228-239.
\<close>

datatype host_op =
    IpcRegister string string string "string option" "nat option"
  | IpcUnregister string
  | IpcBroadcast string bytes "nat \<Rightarrow> bool"
  | IpcForwardInput string bytes
  | IpcStart "nat option" "string option"
  | IpcStop
  | IpcSetPublicUrl "string option"
  | NetAttach string string "string option"
  | NetInput nat bytes
  | NetClosed nat
  | Sweep
  | Launch
  | Quit

definition relay_out :: "relay \<times> relay_event list \<Rightarrow> relay \<times> relay_event list \<times> host_msg list" where
  "relay_out r = (fst r, snd r, host_messages (snd r))"

fun host_step :: "os_bind \<Rightarrow> sharing_config \<Rightarrow> nat \<Rightarrow> host_op \<Rightarrow> relay \<Rightarrow>
    relay \<times> relay_event list \<times> host_msg list" where
  "host_step os cfg now (IpcRegister sid tok m pw e) s = (register_handler now sid tok m pw e s, [], [])"
| "host_step os cfg now (IpcUnregister sid) s = relay_out (unregister_session sid s)"
| "host_step os cfg now (IpcBroadcast sid d ok) s = relay_out (broadcast_output sid d ok s)"
| "host_step os cfg now (IpcForwardInput sid d) s = (s, [], forward_input_handler sid d)"
| "host_step os cfg now (IpcStart p h) s =
     (case start_server_handler os cfg p h s of (s', r, ms) \<Rightarrow> (s', [], ms))"
| "host_step os cfg now IpcStop s =
     (case stop_server_handler s of (s', es, ms) \<Rightarrow> (s', es, host_messages es @ ms))"
| "host_step os cfg now (IpcSetPublicUrl u) s =
     (case set_public_url_handler u s of (s', ms) \<Rightarrow> (s', [], ms))"
| "host_step os cfg now (NetAttach sid tok pw) s = relay_out (attach_viewer now sid tok pw s)"
| "host_step os cfg now (NetInput c d) s = relay_out (s, viewer_input c d s)"
| "host_step os cfg now (NetClosed c) s = relay_out (viewer_closed c s)"
| "host_step os cfg now Sweep s = relay_out (expire_sessions now s)"
| "host_step os cfg now Launch s = (auto_start os cfg s, [], [])"
| "host_step os cfg now Quit s = relay_out (before_quit s, snd (stop_server s))"

fun host_run :: "os_bind \<Rightarrow> sharing_config \<Rightarrow> (nat \<times> host_op) list \<Rightarrow> relay \<Rightarrow>
    relay \<times> relay_event list \<times> host_msg list" where
  "host_run os cfg [] s = (s, [], [])"
| "host_run os cfg ((t, op) # ops) s =
     (case host_step os cfg t op s of
        (s1, es1, ms1) \<Rightarrow> (case host_run os cfg ops s1 of (s2, es2, ms2) \<Rightarrow> (s2, es1 @ es2, ms1 @ ms2)))"

inductive host_reachable :: "os_bind \<Rightarrow> sharing_config \<Rightarrow> relay \<Rightarrow> bool" for os cfg where
  init: "host_reachable os cfg relay_init"
| step: "host_reachable os cfg s \<Longrightarrow> host_reachable os cfg (fst (host_step os cfg now op s))"

text \<open>The relay operations a host step issues, in order.\<close>

fun host_relay_ops :: "sharing_config \<Rightarrow> nat \<Rightarrow> host_op \<Rightarrow> (nat \<times> relay_op) list" where
  "host_relay_ops cfg now (IpcRegister sid tok m pw e) = [(now, Register sid tok (mode_of_string m) pw e)]"
| "host_relay_ops cfg now (IpcUnregister sid) = [(now, Unregister sid)]"
| "host_relay_ops cfg now (IpcBroadcast sid d ok) = [(now, Broadcast sid d ok)]"
| "host_relay_ops cfg now (IpcForwardInput sid d) = []"
| "host_relay_ops cfg now (IpcStart p h) =
     [(now, Start (js_nat_or p (js_nat_or (cfg_port cfg) 0)) (js_str_or h (js_str_or (cfg_bind_host cfg) ''0.0.0.0'')))]"
| "host_relay_ops cfg now IpcStop = [(now, Stop)]"
| "host_relay_ops cfg now (IpcSetPublicUrl u) = [(now, SetPublicUrl u)]"
| "host_relay_ops cfg now (NetAttach sid tok pw) = [(now, Attach sid tok pw)]"
| "host_relay_ops cfg now (NetInput c d) = [(now, Input c d)]"
| "host_relay_ops cfg now (NetClosed c) = [(now, ViewerClosed c)]"
| "host_relay_ops cfg now Sweep = [(now, Expire)]"
| "host_relay_ops cfg now Launch =
     (if cfg_auto_start cfg
      then [(now, Start (js_nat_or (cfg_port cfg) 0) (js_str_or (cfg_bind_host cfg) ''0.0.0.0''))] else [])"
| "host_relay_ops cfg now Quit = [(now, Stop)]"

subsection \<open>Host-side properties\<close>

lemma host_messages_append [simp]: "host_messages (xs @ ys) = host_messages xs @ host_messages ys"
  by (induction xs rule: host_messages.induct) auto

lemma host_messages_close_viewers:
  "host_messages (close_viewers sid vs) = map (ViewerCountMsg sid) (rev [0..<length vs])"
  by (induction vs) auto

lemma host_messages_input:
  "TerminalInput sid d \<in> set (host_messages es) \<longleftrightarrow> HostInput sid d \<in> set es"
  by (induction es rule: host_messages.induct) auto

lemma start_server_handler_fst:
  "fst (start_server_handler os cfg p h s) =
     fst (start_server os (js_nat_or p (js_nat_or (cfg_port cfg) 0))
       (js_str_or h (js_str_or (cfg_bind_host cfg) ''0.0.0.0'')) s)"
  by (simp add: start_server_handler_def Let_def split: prod.split sum.split relay_error.split)

lemma start_server_handler_ok:
  assumes "start_server_handler os cfg p h s = (s', StartOk q h', ms)"
  shows "start_server os (js_nat_or p (js_nat_or (cfg_port cfg) 0)) (js_str_or h (js_str_or (cfg_bind_host cfg) ''0.0.0.0'')) s = (s', Inr q)
         \<and> h' = js_str_or h (js_str_or (cfg_bind_host cfg) ''0.0.0.0'')"
  using assms
  by (auto simp add: start_server_handler_def Let_def split: prod.splits sum.splits relay_error.splits)

lemma host_step_run: "fst (host_step os cfg now op s) = fst (relay_run os (host_relay_ops cfg now op) s)"
proof (cases op)
  case (IpcStart p h)
  obtain s' r ms where e: "start_server_handler os cfg p h s = (s', r, ms)" by (cases "start_server_handler os cfg p h s") auto
  then show ?thesis using IpcStart start_server_handler_fst [of os cfg p h s] by simp
next
  case IpcStop
  then show ?thesis by (simp add: stop_server_handler_def split: prod.split)
qed (simp_all add: relay_out_def register_handler_def set_public_url_handler_def before_quit_def Let_def
       auto_start_def split: prod.split)

lemma host_step_events:
  "fst (snd (host_step os cfg now op s)) = snd (relay_run os (host_relay_ops cfg now op) s)"
proof (cases op)
  case (IpcStart p h)
  obtain s' r ms where "start_server_handler os cfg p h s = (s', r, ms)"
    by (cases "start_server_handler os cfg p h s") auto
  then show ?thesis using IpcStart by simp
next
  case IpcStop
  then show ?thesis by (simp add: stop_server_handler_def split: prod.split)
next
  case (IpcSetPublicUrl u)
  then show ?thesis by (simp add: set_public_url_handler_def Let_def)
qed (simp_all add: relay_out_def split: prod.split)

lemma relay_run_append_fst:
  "fst (relay_run os (xs @ ys) s) = fst (relay_run os ys (fst (relay_run os xs s)))"
proof (induction xs arbitrary: s)
  case (Cons a xs)
  obtain t op where "a = (t, op)" by fastforce
  then show ?case using Cons.IH by (simp del: relay_run.simps add: relay_run_Cons_fst)
qed simp

lemma relay_run_append_snd:
  "snd (relay_run os (xs @ ys) s) = snd (relay_run os xs s) @ snd (relay_run os ys (fst (relay_run os xs s)))"
proof (induction xs arbitrary: s)
  case (Cons a xs)
  obtain t op where "a = (t, op)" by fastforce
  then show ?case using Cons.IH by (simp del: relay_run.simps add: relay_run_Cons_fst relay_run_Cons_snd)
qed simp

lemma host_run_Cons:
  "host_run os cfg ((t, op) # ops) s =
     (fst (host_run os cfg ops (fst (host_step os cfg t op s))),
      fst (snd (host_step os cfg t op s)) @ fst (snd (host_run os cfg ops (fst (host_step os cfg t op s)))),
      snd (snd (host_step os cfg t op s)) @ snd (snd (host_run os cfg ops (fst (host_step os cfg t op s)))))"
  by (simp split: prod.split)

lemma host_run_relay:
  "fst (host_run os cfg ops s) = fst (relay_run os (concat (map (\<lambda>(t, op). host_relay_ops cfg t op) ops)) s) \<and>
   fst (snd (host_run os cfg ops s)) = snd (relay_run os (concat (map (\<lambda>(t, op). host_relay_ops cfg t op) ops)) s)"
proof (induction ops arbitrary: s)
  case Nil
  then show ?case by simp
next
  case (Cons a ops)
  obtain t op where a: "a = (t, op)" by fastforce
  obtain s1 es1 ms1 where h: "host_step os cfg t op s = (s1, es1, ms1)" by (cases "host_step os cfg t op s") auto
  have r1: "fst (relay_run os (host_relay_ops cfg t op) s) = s1"
    using host_step_run [of os cfg t op s] h by simp
  have e1: "snd (relay_run os (host_relay_ops cfg t op) s) = es1"
    using host_step_events [of os cfg t op s] h by simp
  show ?case
    using Cons.IH [of s1] a h r1 e1
    by (simp del: host_run.simps relay_run.simps add: host_run_Cons relay_run_append_fst relay_run_append_snd)
qed

lemma host_reachable_relay: "host_reachable os cfg s \<Longrightarrow> relay_reachable os s"
proof (induction rule: host_reachable.induct)
  case init
  then show ?case by (rule relay_reachable.init)
next
  case (step s now op)
  then show ?case unfolding host_step_run by (blast intro: relay_reachable_run)
qed

lemma demo_multi_viewer: "session_of_viewer demo_multi 1 = Some (''multi'', demo_viewers3)"
  by (simp add: demo_multi_def demo_viewers3_def demo_simps attach_viewer_def Let_def
      session_of_viewer_def lookup_session_def credentials_ok_def is_expired_def)

lemma demo_cfg_reachable:
  "host_reachable demo_os cfg (fst (host_step demo_os cfg 0 (IpcStart None (Some ''127.0.0.1'')) relay_init))"
  by (rule host_reachable.step [OF host_reachable.init])

text \<open>
  C1. Registry invariant: in every state the relay reaches through the host's IPC handlers, the relay's network events, launch and quit, the session ids are distinct, every viewer handle belongs to exactly one session and was handed out by the listener, and a stopped server has no viewer.
\<close>

theorem host_reachable_inv: "host_reachable os cfg s \<Longrightarrow> relay_inv s"
  by (rule relay_reachable_inv [OF host_reachable_relay])

theorem host_reachable_inv_witness:
  "relay_inv (fst (host_step demo_os default_sharing_config 0 (IpcStart None (Some ''127.0.0.1'')) relay_init))"
  by (rule host_reachable_inv [OF demo_cfg_reachable])

text \<open>
  C2. Token and password enforcement: an attach whose token or password does not match, or that arrives after the session expired, leaves the registry as it was, announces no viewer on the relay and sends no message to the windows.
\<close>

theorem host_attach_rejected:
  assumes "lookup_session s sid = Some ss" and "\<not> credentials_ok ss tok pw \<or> is_expired now ss"
    and "host_step os cfg now (NetAttach sid tok pw) s = (s', es, ms)"
  shows "sessions s' = sessions s \<and> ms = [] \<and> (\<forall>n. ViewerCountChanged sid n \<notin> set es)"
  using assms by (auto simp add: attach_viewer_def Let_def relay_out_def split: if_splits)

theorem host_attach_rejected_witness:
  "host_step demo_os default_sharing_config 5 (NetAttach ''abc'' ''wrong'' None) demo_shared =
     (demo_shared\<lparr>next_conn := 1\<rparr>, [CloseViewer 0], [])"
proof -
  let ?ss = "\<lparr>ss_token = ''tok1'', ss_password = None, ss_mode = ReadOnly, ss_expires_at = None, ss_viewers = []\<rparr>"
  have l: "lookup_session demo_shared ''abc'' = Some ?ss" by (simp add: demo_simps lookup_session_def)
  have c: "\<not> credentials_ok ?ss ''wrong'' None \<or> is_expired 5 ?ss" by (simp add: credentials_ok_def)
  have e: "host_step demo_os default_sharing_config 5 (NetAttach ''abc'' ''wrong'' None) demo_shared =
      (demo_shared\<lparr>next_conn := 1\<rparr>, [CloseViewer 0], host_messages [CloseViewer 0])"
    by (simp add: relay_out_def attach_viewer_def demo_simps lookup_session_def credentials_ok_def)
  have "host_messages [CloseViewer 0] = []"
    using host_attach_rejected [OF l c e] by simp
  then show ?thesis using e by simp
qed

text \<open>
  C3. Mode isolation and the forward-input handler: input that a viewer sends reaches the windows as terminal input only from a viewer of an interactive session, unchanged and tagged with that session; but the forward-input IPC handler (app.ts lines 135-139) sends terminal input for any session id, read-only or unknown, without a check.
\<close>

theorem host_input_mode:
  assumes "relay_inv s" and "host_step os cfg now (NetInput c d') s = (s', es, ms)"
  shows "(TerminalInput sid d \<in> set ms \<longrightarrow>
           (\<exists>ss. lookup_session s sid = Some ss \<and> ss_mode ss = Interactive \<and> c \<in> set (ss_viewers ss) \<and> d = d'))
         \<and> host_step os cfg now (IpcForwardInput sid d) s = (s, [], [TerminalInput sid d])"
  using assms viewer_input_interactive_only [OF assms(1)]
  by (auto simp add: relay_out_def host_messages_input forward_input_handler_def)

theorem host_input_mode_witness:
  "host_step demo_os default_sharing_config 0 (NetInput 1 [108]) demo_multi = (demo_multi, [], [])
   \<and> host_step demo_os default_sharing_config 0 (IpcForwardInput ''multi'' [108]) demo_multi =
       (demo_multi, [], [TerminalInput ''multi'' [108]])"
proof -
  have e: "host_step demo_os default_sharing_config 0 (NetInput 1 [108]) demo_multi = (demo_multi, [], [])"
    using demo_multi_viewer by (simp add: relay_out_def viewer_input_def demo_viewers3_def)
  show ?thesis using host_input_mode [OF demo_multi_inv e, of "''multi''" "[108]"] e by simp
qed

text \<open>
  C4. Fan-out and dead-viewer isolation: the broadcast-output handler delivers the bytes to every viewer whose transport accepts them, in viewer order, closes and drops exactly the viewers whose write fails, keeps the others, and forwards the relay's count notifications to the windows.
\<close>

theorem host_broadcast_fan_out:
  assumes "lookup_session s sid = Some ss" and "host_step os cfg now (IpcBroadcast sid d ok) s = (s', es, ms)"
  shows "filter is_delivery es = map (\<lambda>v. Deliver v d) (filter ok (ss_viewers ss)) \<and>
         lookup_session s' sid = Some (ss\<lparr>ss_viewers := filter ok (ss_viewers ss)\<rparr>) \<and>
         (\<forall>v. CloseViewer v \<in> set es \<longleftrightarrow> v \<in> set (ss_viewers ss) \<and> \<not> ok v) \<and>
         ms = host_messages es"
proof -
  have "broadcast_output sid d ok s = (s', es)" and "ms = host_messages es"
    using assms(2) by (auto simp add: relay_out_def)
  then show ?thesis using broadcast_fan_out [OF assms(1)] by blast
qed

theorem host_broadcast_fan_out_witness:
  "filter is_delivery (fst (snd (host_step demo_os default_sharing_config 0 (IpcBroadcast ''multi'' [104, 105] (\<lambda>v. v \<noteq> 1)) demo_multi))) =
     [Deliver 0 [104, 105], Deliver 2 [104, 105]]"
proof -
  let ?h = "host_step demo_os default_sharing_config 0 (IpcBroadcast ''multi'' [104, 105] (\<lambda>v. v \<noteq> 1)) demo_multi"
  have e: "?h = (fst ?h, fst (snd ?h), snd (snd ?h))" by simp
  show ?thesis using host_broadcast_fan_out [OF demo_multi_lookup e] by (simp add: demo_viewers3_def)
qed

text \<open>
  C5. Per-viewer ordering: across a sequence of broadcast-output requests for a session, a viewer that stays writable receives each chunk exactly once, in the order of the requests.
\<close>

theorem host_broadcast_order:
  assumes "relay_inv s" and "lookup_session s sid = Some ss" and "v \<in> set (ss_viewers ss)"
    and "\<forall>(t, d, ok) \<in> set bs. ok v"
  shows "deliveries_to v (fst (snd (host_run os cfg (map (\<lambda>(t, d, ok). (t, IpcBroadcast sid d ok)) bs) s))) =
           map (\<lambda>(t, d, ok). d) bs"
proof -
  have "concat (map (\<lambda>(t, op). host_relay_ops cfg t op) (map (\<lambda>(t, d, ok). (t, IpcBroadcast sid d ok)) bs)) =
        map (\<lambda>(t, d, ok). (t, Broadcast sid d ok)) bs"
    by (induction bs) auto
  then show ?thesis
    using host_run_relay [of os cfg "map (\<lambda>(t, d, ok). (t, IpcBroadcast sid d ok)) bs" s]
      broadcast_per_viewer_order [OF assms] by simp
qed

theorem host_broadcast_order_witness:
  "deliveries_to 0 (fst (snd (host_run demo_os default_sharing_config
      (map (\<lambda>(t, d, ok). (t, IpcBroadcast ''multi'' d ok))
         [(1, [104], \<lambda>_. True), (2, [105], \<lambda>v. v \<noteq> 1)]) demo_multi))) = [[104], [105]]"
proof -
  have "(0::nat) \<in> set (ss_viewers demo_viewers3)" by (simp add: demo_viewers3_def)
  moreover have "\<forall>(t, d, ok) \<in> set [(1::nat, [104::8 word], \<lambda>_::nat. True), (2, [105], \<lambda>v. v \<noteq> 1)]. ok 0"
    by simp
  ultimately have th: "deliveries_to 0 (fst (snd (host_run demo_os default_sharing_config
      (map (\<lambda>(t, d, ok). (t, IpcBroadcast ''multi'' d ok))
         [(1, [104], \<lambda>_. True), (2, [105], \<lambda>v. v \<noteq> 1)]) demo_multi))) =
      map (\<lambda>(t, d, ok). d) [(1::nat, [104::8 word], \<lambda>_::nat. True), (2, [105], \<lambda>v. v \<noteq> 1)]"
    by (rule host_broadcast_order [OF demo_multi_inv demo_multi_lookup])
  then show ?thesis by (simp only: list.map prod.case)
qed

text \<open>
  C6. Expiration: a session registered through the register handler at time t0 with expiresIn n seconds is gone after any expiry sweep later than t0 + 1000 n milliseconds.
\<close>

theorem host_register_expires:
  assumes "t0 + 1000 * n < now"
  shows "lookup_session (fst (host_run os cfg [(t0, IpcRegister sid tok m pw (Some n)), (now, Sweep)] s)) sid = None"
  using expire_after_ttl [OF assms] by (simp add: relay_out_def register_handler_def split: prod.split)

theorem host_register_expires_witness:
  "lookup_session (fst (host_run demo_os default_sharing_config
     [(0, IpcRegister ''exp1'' ''t'' ''read-only'' None (Some 1)), (1500, Sweep)] demo_running)) ''exp1'' = None"
  using host_register_expires [of 0 1 1500] by simp

text \<open>
  C7. Unregistering is idempotent and tolerant: a second unregister request for the same id, like one for an unknown id, changes nothing, closes nothing and sends nothing to the windows.
\<close>

theorem host_unregister_idempotent:
  "host_step os cfg now (IpcUnregister sid) (fst (host_step os cfg t (IpcUnregister sid) s)) =
     (fst (host_step os cfg t (IpcUnregister sid) s), [], []) \<and>
   (lookup_session s sid = None \<longrightarrow> host_step os cfg now (IpcUnregister sid) s = (s, [], []))"
  using unregister_idempotent [of sid s] by (simp add: relay_out_def)

theorem host_unregister_idempotent_witness:
  "host_step demo_os default_sharing_config 0 (IpcUnregister ''nope'') demo_running = (demo_running, [], [])"
proof -
  have "lookup_session demo_running ''nope'' = None" by (simp add: demo_simps lookup_session_def)
  then show ?thesis using host_unregister_idempotent [of demo_os default_sharing_config 0 "''nope''" 0 demo_running] by simp
qed

text \<open>
  C8. Start while running (app.ts lines 164-178): the relay is left as it is and the reply carries the port already bound, but the handler replies with and broadcasts the host of the request, not the host the server is bound to; the witness shows a server bound to loopback announced as bound to 0.0.0.0.
\<close>

theorem start_running_reports_request:
  assumes "phase s = Running" and "h \<noteq> []"
  shows "start_server_handler os cfg port (Some h) s =
           (s, StartOk (bound_port s) h,
            [ServerStatusChanged ((server_status_of s)\<lparr>st_host := h, st_active_sessions := None\<rparr>)])"
  using assms by (simp add: start_server_handler_def start_server_def server_status_of_def)

theorem start_running_reports_request_witness:
  "start_server_handler demo_os default_sharing_config None (Some ''0.0.0.0'') demo_running =
     (demo_running, StartOk 40000 ''0.0.0.0'',
      [ServerStatusChanged ((server_status_of demo_running)\<lparr>st_host := ''0.0.0.0'', st_active_sessions := None\<rparr>)])
   \<and> bound_host demo_running = ''127.0.0.1''"
proof -
  have r: "phase demo_running = Running" "bound_port demo_running = 40000" "bound_host demo_running = ''127.0.0.1''"
    by (simp_all add: demo_running_def demo_os_def relay_init_def start_server_def)
  show ?thesis using start_running_reports_request [of demo_running "''0.0.0.0''" demo_os default_sharing_config None] r
    by simp
qed

text \<open>
  C9. Ephemeral port: with no port in the request or the configuration, a successful start from any reachable state replies with a concrete port greater than zero, given a bind call that never reports port 0.
\<close>

theorem host_start_ephemeral_port:
  assumes "host_reachable os cfg s" and "wf_os os" and "cfg_port cfg = None"
    and "start_server_handler os cfg None h s = (s', StartOk p h', ms)"
  shows "0 < p"
proof -
  from start_server_handler_ok [OF assms(4)] assms(3)
  have "start_server os 0 (js_str_or h (js_str_or (cfg_bind_host cfg) ''0.0.0.0'')) s = (s', Inr p)" by simp
  then show ?thesis by (rule start_ephemeral_port [OF host_reachable_relay [OF assms(1)] assms(2)])
qed

theorem host_start_ephemeral_port_witness:
  "start_server_handler demo_os default_sharing_config None None relay_init =
     (fst (start_server_handler demo_os default_sharing_config None None relay_init), StartOk 40000 ''0.0.0.0'',
      snd (snd (start_server_handler demo_os default_sharing_config None None relay_init))) \<and> (0::nat) < 40000"
proof -
  have w: "wf_os demo_os" by (simp add: wf_os_def demo_os_def)
  have e: "start_server_handler demo_os default_sharing_config None None relay_init =
     (fst (start_server_handler demo_os default_sharing_config None None relay_init), StartOk 40000 ''0.0.0.0'',
      snd (snd (start_server_handler demo_os default_sharing_config None None relay_init)))"
    by (simp add: start_server_handler_def start_server_def default_sharing_config_def demo_os_def relay_init_def Let_def)
  show ?thesis using host_start_ephemeral_port [OF host_reachable.init w _ e] e by (simp add: default_sharing_config_def)
qed

text \<open>
  C10. Stop handler: stopping a running server removes every session and closes exactly the viewers attached before the call; afterwards the status query reports a stopped server on port 0 without URL, and the broadcast status says the same.
\<close>

theorem stop_handler_tears_down:
  assumes "phase s = Running" and "stop_server_handler s = (s', es, ms)"
  shows "sessions s' = [] \<and> {v. CloseViewer v \<in> set es} = set (all_viewers s) \<and>
         \<not> st_is_running (server_status_of s') \<and> st_port (server_status_of s') = 0 \<and>
         st_url (server_status_of s') = None \<and>
         (\<exists>st. ms = [ServerStatusChanged st] \<and> \<not> st_is_running st \<and> st_port st = 0 \<and> st_url st = None)"
proof -
  have st: "stop_server s = (s', es)" using assms(2) by (simp add: stop_server_handler_def split: prod.splits)
  have "sessions s' = [] \<and> phase s' = Stopped \<and> {v. CloseViewer v \<in> set es} = set (all_viewers s)"
    by (rule stop_tears_down [OF assms(1) st])
  moreover have "bound_port s' = 0" using assms(1) st by (auto simp add: stop_server_def)
  ultimately show ?thesis using assms(2) st
    by (auto simp add: stop_server_handler_def server_status_of_def ws_url_def)
qed

theorem stop_handler_tears_down_witness:
  "sessions (fst (stop_server_handler demo_multi)) = [] \<and>
   {v. CloseViewer v \<in> set (fst (snd (stop_server_handler demo_multi)))} = {0, 1, 2}"
proof -
  have r: "phase demo_multi = Running"
    by (simp add: demo_multi_def demo_simps attach_viewer_def Let_def lookup_session_def
        credentials_ok_def is_expired_def)
  have e: "stop_server_handler demo_multi =
      (fst (stop_server_handler demo_multi), fst (snd (stop_server_handler demo_multi)), snd (snd (stop_server_handler demo_multi)))"
    by simp
  have a: "set (all_viewers demo_multi) = {0, 1, 2}"
    by (simp add: demo_multi_def demo_simps attach_viewer_def Let_def all_viewers_def
        jsmap_concat_def lookup_session_def credentials_ok_def is_expired_def insert_commute
        numeral_2_eq_2)
  show ?thesis using stop_handler_tears_down [OF r e] a by simp
qed

text \<open>
  Default binding: a start request with no host and no port, under an empty configuration, on a stopped server binds all interfaces (0.0.0.0) on the port the system picks, replies with that port and host and broadcasts the status the status query then reports.
\<close>

theorem start_handler_defaults:
  assumes "phase s = Stopped" and "os 0 ''0.0.0.0'' = Some p"
  shows "start_server_handler os default_sharing_config None None s =
           (s\<lparr>phase := Running, bound_port := p, bound_host := ''0.0.0.0''\<rparr>, StartOk p ''0.0.0.0'',
            [ServerStatusChanged ((server_status_of (s\<lparr>phase := Running, bound_port := p, bound_host := ''0.0.0.0''\<rparr>))
               \<lparr>st_active_sessions := None\<rparr>)])"
  using assms by (simp add: start_server_handler_def start_server_def default_sharing_config_def server_status_of_def Let_def)

theorem start_handler_defaults_witness:
  "start_server_handler demo_os default_sharing_config None None relay_init =
     (relay_init\<lparr>phase := Running, bound_port := 40000, bound_host := ''0.0.0.0''\<rparr>, StartOk 40000 ''0.0.0.0'',
      [ServerStatusChanged ((server_status_of (relay_init\<lparr>phase := Running, bound_port := 40000, bound_host := ''0.0.0.0''\<rparr>))
         \<lparr>st_active_sessions := None\<rparr>)])"
  using start_handler_defaults [of relay_init demo_os 40000] by (simp add: relay_init_def demo_os_def)

text \<open>
  Start reply agrees with the server: when the start handler succeeds on a stopped server, the port and host of its reply and of its broadcast status are those the status query reports afterwards.
\<close>

theorem start_reply_matches_status:
  assumes "phase s = Stopped"
    and "start_server_handler os cfg port host s = (s', StartOk p h, ms)"
  shows "st_is_running (server_status_of s') \<and> st_port (server_status_of s') = p \<and> st_host (server_status_of s') = h
         \<and> ms = [ServerStatusChanged ((server_status_of s')\<lparr>st_active_sessions := None\<rparr>)]"
  using assms
  by (auto simp add: start_server_handler_def start_server_def server_status_of_def Let_def
      split: option.splits)

theorem start_reply_matches_status_witness:
  "st_port (server_status_of (fst (start_server_handler demo_os default_sharing_config (Some 8080) None relay_init))) = 8080
   \<and> st_host (server_status_of (fst (start_server_handler demo_os default_sharing_config (Some 8080) None relay_init))) = ''0.0.0.0''"
proof -
  let ?r = "start_server_handler demo_os default_sharing_config (Some 8080) None relay_init"
  have e: "?r = (fst ?r, StartOk 8080 ''0.0.0.0'', snd (snd ?r))"
    by (simp add: start_server_handler_def start_server_def demo_os_def relay_init_def default_sharing_config_def Let_def)
  show ?thesis
    using start_reply_matches_status [OF _ e] by (simp add: relay_init_def)
qed

text \<open>
  Viewer-count notification: an accepted viewer makes the windows receive exactly one viewer-count message, carrying the session's new count, one more than before.
\<close>

theorem attach_host_messages:
  assumes "phase s = Running" and "lookup_session s sid = Some ss"
    and "credentials_ok ss tok pw" and "\<not> is_expired now ss"
    and "host_step os cfg now (NetAttach sid tok pw) s = (s', es, ms)"
  shows "ms = [ViewerCountMsg sid (viewer_count s' sid)] \<and> viewer_count s' sid = Suc (viewer_count s sid)"
  using assms by (auto simp add: relay_out_def attach_viewer_def viewer_count_def lookup_session_def map_of_jsmap_set Let_def)

theorem attach_host_messages_witness:
  "snd (snd (host_step demo_os default_sharing_config 0 (NetAttach ''abc'' ''tok1'' None) demo_shared)) =
     [ViewerCountMsg ''abc'' 1]"
proof -
  let ?h = "host_step demo_os default_sharing_config 0 (NetAttach ''abc'' ''tok1'' None) demo_shared"
  have l: "lookup_session demo_shared ''abc'' =
      Some \<lparr>ss_token = ''tok1'', ss_password = None, ss_mode = ReadOnly, ss_expires_at = None, ss_viewers = []\<rparr>"
    by (simp add: demo_simps lookup_session_def)
  have r: "phase demo_shared = Running" by (simp add: demo_simps)
  have v: "viewer_count demo_shared ''abc'' = 0" using l by (simp add: viewer_count_def)
  have e: "?h = (fst ?h, fst (snd ?h), snd (snd ?h))" by simp
  show ?thesis
    using attach_host_messages [OF r l _ _ e] v by (simp add: credentials_ok_def is_expired_def)
qed

text \<open>
  Unregistering a session with n viewers makes the windows receive the counts n-1, ..., 1, 0 for that session, in that order.
\<close>

theorem unregister_host_messages:
  assumes "lookup_session s sid = Some ss"
  shows "snd (snd (host_step os cfg now (IpcUnregister sid) s)) =
           map (ViewerCountMsg sid) (rev [0..<length (ss_viewers ss)])"
  using assms by (simp add: relay_out_def unregister_session_def host_messages_close_viewers)

theorem unregister_host_messages_witness:
  "snd (snd (host_step demo_os default_sharing_config 0 (IpcUnregister ''multi'') demo_multi)) =
     [ViewerCountMsg ''multi'' 2, ViewerCountMsg ''multi'' 1, ViewerCountMsg ''multi'' 0]"
  using unregister_host_messages [OF demo_multi_lookup] by (simp add: demo_viewers3_def upt_rec)

text \<open>
  C15. Auto-start at launch (Application.init, app.ts lines 270-285) and a start request with no arguments resolve the same host and port and leave the relay in the same state.
\<close>

theorem auto_start_eq_start_handler:
  assumes "cfg_auto_start cfg"
  shows "auto_start os cfg s = fst (start_server_handler os cfg None None s)"
proof -
  obtain s' r where "start_server os (js_nat_or (cfg_port cfg) 0) (js_str_or (cfg_bind_host cfg) ''0.0.0.0'') s = (s', r)"
    by fastforce
  with assms show ?thesis
    by (cases r) (auto simp add: auto_start_def start_server_handler_def Let_def split: relay_error.split)
qed

theorem auto_start_eq_start_handler_witness:
  "auto_start demo_os (default_sharing_config\<lparr>cfg_auto_start := True\<rparr>) relay_init =
     fst (start_server_handler demo_os (default_sharing_config\<lparr>cfg_auto_start := True\<rparr>) None None relay_init)"
  using auto_start_eq_start_handler [of "default_sharing_config\<lparr>cfg_auto_start := True\<rparr>"]
  by (simp add: default_sharing_config_def)

end
