(* ===== verification/Workspace.thy ===== *)
theory Workspace
  imports Prelude
begin

text \<open>
  The workspace store of \<open>WorkspaceService\<close> (\<open>src/tlink-core/src/services/workspace.service.ts\<close>,
  lines 12-421, with the \<open>Workspace\<close> interface of \<open>src/tlink-core/src/api/workspace.ts\<close>).
  The service keeps saved workspaces in the configuration store (\<open>config.store.workspaces\<close>)
  and captures and restores the application's open tabs.
  \<^item> State: \<open>ws_state\<close> holds whether the configuration store is loaded, the workspace
    array (\<open>None\<close> while the key is missing), the open tabs and the next fresh identifier.
  \<^item> A tab is what the service reads of it: the recovery token \<open>getFullRecoveryToken\<close>
    returns for it, its folders' paths when it is a code editor, its profile's id.
    Recovery tokens are opaque strings; recovering a tab from a token (\<open>recoverTab\<close>
    followed by \<open>openNewTabRaw\<close>) is an argument.
  \<^item> Dates are milliseconds; \<open>config.save()\<close> is taken to succeed.
  \<^item> The JSON text of \<open>exportWorkspace\<close> and \<open>importFromJson\<close> is modelled by the
    object it carries (\<open>ws_payload\<close>): \<open>JSON.parse (JSON.stringify v)\<close> returns \<open>v\<close> for
    these string, number and array fields, and keys whose value is \<open>undefined\<close> are absent
    on both sides.
\<close>

type_synonym recovery_token = string

record tab =
  tab_token :: "recovery_token option"
  tab_folders :: "string list option"
  tab_profile :: "string option"

record workspace =
  ws_id :: uuid
  ws_name :: string
  ws_description :: "string option"
  ws_tabs :: "recovery_token list"
  ws_folders :: "string list"
  ws_profiles :: "string list"
  ws_layout :: "nat option"
  ws_shared :: bool
  ws_team :: "string option"
  ws_version :: nat
  ws_created :: nat
  ws_updated :: nat
  ws_tags :: "string list"
  ws_is_template :: bool

record ws_state =
  store_ready :: bool
  ws_list :: "workspace list option"
  app_tabs :: "tab list"
  next_uuid :: uuid

datatype ws_error = ConfigNotReady

subsection \<open>Reading the store\<close>

definition ensure_workspaces_config :: "ws_state \<Rightarrow> ws_state" where
  "ensure_workspaces_config s =
     (if store_ready s \<and> ws_list s = None then s\<lparr>ws_list := Some []\<rparr> else s)"

definition stored :: "ws_state \<Rightarrow> workspace list option" where
  "stored s = (if store_ready s then ws_list s else None)"

definition get_workspaces :: "ws_state \<Rightarrow> ws_state \<times> workspace list" where
  "get_workspaces s =
     (let s' = ensure_workspaces_config s in
      (s', case stored s' of None \<Rightarrow> [] | Some l \<Rightarrow> l))"

definition get_workspace :: "uuid \<Rightarrow> ws_state \<Rightarrow> ws_state \<times> workspace option" where
  "get_workspace i s = (case get_workspaces s of (s', l) \<Rightarrow> (s', find (\<lambda>w. ws_id w = i) l))"

subsection \<open>Saving the open tabs\<close>

text \<open>The tokens the tabs yield, skipping a tab without one.\<close>

definition capture_tokens :: "tab list \<Rightarrow> recovery_token list" where
  "capture_tokens ts = List.map_filter tab_token ts"

text \<open>Folder paths of code-editor tabs, first occurrence kept, empty paths skipped.\<close>

definition capture_folders :: "tab list \<Rightarrow> string list" where
  "capture_folders ts =
     foldl (\<lambda>acc t. case tab_folders t of None \<Rightarrow> acc
                    | Some fs \<Rightarrow> foldl (\<lambda>a p. if p \<noteq> [] then add_unique a p else a) acc fs) [] ts"

definition capture_profiles :: "tab list \<Rightarrow> string list" where
  "capture_profiles ts =
     foldl (\<lambda>acc t. case tab_profile t of None \<Rightarrow> acc
                    | Some p \<Rightarrow> if p \<noteq> [] then add_unique acc p else acc) [] ts"

definition capture_layout :: "tab list \<Rightarrow> nat option" where
  "capture_layout ts = Some (length ts)"

definition save_workspace ::
  "nat \<Rightarrow> string \<Rightarrow> string option \<Rightarrow> bool \<Rightarrow> string option \<Rightarrow> ws_state \<Rightarrow>
     ws_state \<times> (ws_error + workspace)" where
  "save_workspace now name desc shared team s =
     (let s1 = ensure_workspaces_config s in
      case stored s1 of
        None \<Rightarrow> (s1, Inl ConfigNotReady)
      | Some l \<Rightarrow>
          let w = \<lparr>ws_id = next_uuid s1, ws_name = name, ws_description = desc,
                   ws_tabs = capture_tokens (app_tabs s1), ws_folders = capture_folders (app_tabs s1),
                   ws_profiles = capture_profiles (app_tabs s1), ws_layout = capture_layout (app_tabs s1),
                   ws_shared = shared, ws_team = team, ws_version = 1, ws_created = now,
                   ws_updated = now, ws_tags = [], ws_is_template = False\<rparr>
          in (s1\<lparr>ws_list := Some (l @ [w]), next_uuid := Suc (next_uuid s1)\<rparr>, Inr w))"

subsection \<open>Updating and deleting\<close>

text \<open>A \<open>Partial<Workspace>\<close>: each present key overrides the stored one.\<close>

record ws_patch =
  p_id :: "uuid option"
  p_name :: "string option"
  p_description :: "string option option"
  p_tabs :: "recovery_token list option"
  p_folders :: "string list option"
  p_profiles :: "string list option"
  p_layout :: "nat option option"
  p_shared :: "bool option"
  p_team :: "string option option"
  p_version :: "nat option"
  p_created :: "nat option"
  p_updated :: "nat option"
  p_tags :: "string list option"
  p_is_template :: "bool option"

definition apply_patch :: "workspace \<Rightarrow> ws_patch \<Rightarrow> workspace" where
  "apply_patch w p =
     \<lparr>ws_id = patch_or (p_id p) (ws_id w), ws_name = patch_or (p_name p) (ws_name w),
      ws_description = patch_or (p_description p) (ws_description w),
      ws_tabs = patch_or (p_tabs p) (ws_tabs w), ws_folders = patch_or (p_folders p) (ws_folders w),
      ws_profiles = patch_or (p_profiles p) (ws_profiles w), ws_layout = patch_or (p_layout p) (ws_layout w),
      ws_shared = patch_or (p_shared p) (ws_shared w), ws_team = patch_or (p_team p) (ws_team w),
      ws_version = patch_or (p_version p) (ws_version w), ws_created = patch_or (p_created p) (ws_created w),
      ws_updated = patch_or (p_updated p) (ws_updated w), ws_tags = patch_or (p_tags p) (ws_tags w),
      ws_is_template = patch_or (p_is_template p) (ws_is_template w)\<rparr>"

definition update_workspace ::
  "nat \<Rightarrow> uuid \<Rightarrow> ws_patch \<Rightarrow> ws_state \<Rightarrow> ws_state \<times> (ws_error + workspace option)" where
  "update_workspace now i p s =
     (case get_workspaces s of
        (s1, ws) \<Rightarrow>
          (case find_idx (\<lambda>w. ws_id w = i) ws of
             None \<Rightarrow> (s1, Inr None)
           | Some k \<Rightarrow>
               (case stored s1 of
                  None \<Rightarrow> (s1, Inl ConfigNotReady)
                | Some l \<Rightarrow>
                    let w = ws ! k;
                        u = (apply_patch w p)\<lparr>ws_id := i, ws_version := ws_version w + 1, ws_updated := now\<rparr>
                    in (s1\<lparr>ws_list := Some (l[k := u])\<rparr>, Inr (Some u)))))"

definition delete_workspace :: "uuid \<Rightarrow> ws_state \<Rightarrow> ws_state \<times> (ws_error + bool)" where
  "delete_workspace i s =
     (case get_workspaces s of
        (s1, ws) \<Rightarrow>
          (case find_idx (\<lambda>w. ws_id w = i) ws of
             None \<Rightarrow> (s1, Inr False)
           | Some k \<Rightarrow>
               (case stored s1 of
                  None \<Rightarrow> (s1, Inl ConfigNotReady)
                | Some l \<Rightarrow> (s1\<lparr>ws_list := Some (take k l @ drop (Suc k) l)\<rparr>, Inr True))))"

subsection \<open>Loading\<close>

text \<open>
  Every open tab is destroyed, one tab is opened per token that recovers, and then each
  code editor gets the workspace's folders it does not have yet (the deferred callback of
  lines 218-230, run here right after the tabs open).
\<close>

definition restore_folders :: "string list \<Rightarrow> tab list \<Rightarrow> tab list" where
  "restore_folders folders ts =
     map (\<lambda>t. case tab_folders t of None \<Rightarrow> t
               | Some fs \<Rightarrow> t\<lparr>tab_folders := Some (foldl add_unique fs folders)\<rparr>) ts"

definition load_workspace :: "(recovery_token \<Rightarrow> tab option) \<Rightarrow> uuid \<Rightarrow> ws_state \<Rightarrow> ws_state \<times> bool" where
  "load_workspace recover i s =
     (case get_workspace i s of
        (s1, None) \<Rightarrow> (s1, False)
      | (s1, Some w) \<Rightarrow>
          (s1\<lparr>app_tabs := restore_folders (ws_folders w) (List.map_filter recover (ws_tabs w))\<rparr>, True))"

subsection \<open>Export and import\<close>

record ws_payload =
  pl_name :: "string option"
  pl_description :: "string option"
  pl_tabs :: "recovery_token list option"
  pl_folders :: "string list option"
  pl_profiles :: "string list option"
  pl_layout :: "nat option"
  pl_version :: "nat option"

definition export_payload :: "workspace \<Rightarrow> ws_payload" where
  "export_payload w =
     \<lparr>pl_name = Some (ws_name w), pl_description = ws_description w, pl_tabs = Some (ws_tabs w),
      pl_folders = Some (ws_folders w), pl_profiles = Some (ws_profiles w), pl_layout = ws_layout w,
      pl_version = Some (ws_version w)\<rparr>"

definition export_workspace :: "uuid \<Rightarrow> ws_state \<Rightarrow> ws_state \<times> ws_payload option" where
  "export_workspace i s = (case get_workspace i s of (s1, r) \<Rightarrow> (s1, map_option export_payload r))"

text \<open>\<open>importFromJson\<close>: defaults for missing keys, a fresh id; a failure is \<open>null\<close>.\<close>

definition import_payload :: "nat \<Rightarrow> ws_payload \<Rightarrow> ws_state \<Rightarrow> ws_state \<times> workspace option" where
  "import_payload now d s =
     (let w = \<lparr>ws_id = next_uuid s, ws_name = js_str_or (pl_name d) ''Imported Workspace'',
               ws_description = pl_description d, ws_tabs = patch_or (pl_tabs d) [],
               ws_folders = patch_or (pl_folders d) [], ws_profiles = patch_or (pl_profiles d) [],
               ws_layout = pl_layout d, ws_shared = False, ws_team = None,
               ws_version = js_nat_or (pl_version d) 1, ws_created = now, ws_updated = now,
               ws_tags = [], ws_is_template = False\<rparr>;
          s1 = s\<lparr>next_uuid := Suc (next_uuid s)\<rparr>;
          s2 = ensure_workspaces_config s1
      in case stored s2 of
           None \<Rightarrow> (s2, None)
         | Some l \<Rightarrow> (s2\<lparr>ws_list := Some (l @ [w])\<rparr>, Some w))"


subsection \<open>The store as a state machine\<close>

text \<open>
  The service's operations, the configuration store becoming ready (\<open>config.ready$\<close>),
  and the user opening and closing tabs between calls.
\<close>

datatype ws_op =
    WsSave nat string "string option" bool "string option"
  | WsUpdate nat uuid ws_patch
  | WsDelete uuid
  | WsLoad uuid
  | WsExport uuid
  | WsImport nat ws_payload
  | WsStoreReady
  | WsSetTabs "tab list"

fun ws_step :: "(recovery_token \<Rightarrow> tab option) \<Rightarrow> ws_op \<Rightarrow> ws_state \<Rightarrow> ws_state" where
  "ws_step recover (WsSave now n d sh t) s = fst (save_workspace now n d sh t s)"
| "ws_step recover (WsUpdate now i p) s = fst (update_workspace now i p s)"
| "ws_step recover (WsDelete i) s = fst (delete_workspace i s)"
| "ws_step recover (WsLoad i) s = fst (load_workspace recover i s)"
| "ws_step recover (WsExport i) s = fst (export_workspace i s)"
| "ws_step recover (WsImport now d) s = fst (import_payload now d s)"
| "ws_step recover WsStoreReady s = ensure_workspaces_config (s\<lparr>store_ready := True\<rparr>)"
| "ws_step recover (WsSetTabs ts) s = s\<lparr>app_tabs := ts\<rparr>"

definition ws_init :: ws_state where
  "ws_init = \<lparr>store_ready = False, ws_list = None, app_tabs = [], next_uuid = 0\<rparr>"

inductive ws_reachable :: "(recovery_token \<Rightarrow> tab option) \<Rightarrow> ws_state \<Rightarrow> bool" for recover where
  init: "ws_reachable recover ws_init"
| step: "ws_reachable recover s \<Longrightarrow> ws_reachable recover (ws_step recover op s)"

text \<open>Stored workspaces have distinct ids drawn earlier from the generator and a positive version.\<close>

definition ws_inv :: "ws_state \<Rightarrow> bool" where
  "ws_inv s \<longleftrightarrow>
     (case ws_list s of None \<Rightarrow> True
      | Some l \<Rightarrow> distinct (map ws_id l) \<and> (\<forall>w \<in> set l. ws_id w < next_uuid s \<and> 0 < ws_version w))"

subsection \<open>Example configuration\<close>

text \<open>
  A ready store with no workspace and two open tabs: a code editor with folders
  \<open>/a\<close>, an entry without a path, \<open>/b\<close> and \<open>/a\<close> again, using profile \<open>p1\<close>; and a tab
  that yields no recovery token, also using \<open>p1\<close>.
\<close>

definition demo_tabs :: "tab list" where
  "demo_tabs =
     [\<lparr>tab_token = Some ''tok-editor'', tab_folders = Some [''/a'', [], ''/b'', ''/a''], tab_profile = Some ''p1''\<rparr>,
      \<lparr>tab_token = None, tab_folders = None, tab_profile = Some ''p1''\<rparr>]"

definition demo_ws :: ws_state where
  "demo_ws = \<lparr>store_ready = True, ws_list = Some [], app_tabs = demo_tabs, next_uuid = 0\<rparr>"

definition demo_recover :: "recovery_token \<Rightarrow> tab option" where
  "demo_recover t = (if t = ''tok-editor'' then Some \<lparr>tab_token = Some t, tab_folders = Some [''/b''], tab_profile = None\<rparr> else None)"

definition demo_w0 :: workspace where
  "demo_w0 = \<lparr>ws_id = 0, ws_name = ''dev'', ws_description = None, ws_tabs = [''tok-editor''],
     ws_folders = [''/a'', ''/b''], ws_profiles = [''p1''], ws_layout = Some 2, ws_shared = False,
     ws_team = None, ws_version = 1, ws_created = 5, ws_updated = 5, ws_tags = [], ws_is_template = False\<rparr>"

definition demo_saved :: ws_state where
  "demo_saved = demo_ws\<lparr>ws_list := Some [demo_w0], next_uuid := 1\<rparr>"

definition no_patch :: ws_patch where
  "no_patch = \<lparr>p_id = None, p_name = None, p_description = None, p_tabs = None, p_folders = None,
     p_profiles = None, p_layout = None, p_shared = None, p_team = None, p_version = None,
     p_created = None, p_updated = None, p_tags = None, p_is_template = None\<rparr>"


subsection \<open>Lemmas on the store\<close>

lemma stored_ensure:
  "stored (ensure_workspaces_config s) = (if store_ready s then Some (case ws_list s of None \<Rightarrow> [] | Some l \<Rightarrow> l) else None)"
  by (cases "ws_list s") (auto simp: stored_def ensure_workspaces_config_def)

lemma get_workspaces_eq:
  "get_workspaces s = (ensure_workspaces_config s, if store_ready s then (case ws_list s of None \<Rightarrow> [] | Some l \<Rightarrow> l) else [])"
  by (simp add: get_workspaces_def stored_ensure)

lemma js_nat_or_pos: "0 < d \<Longrightarrow> 0 < js_nat_or x d"
  by (cases x) auto

lemma ws_inv_ensure: "ws_inv s \<Longrightarrow> ws_inv (ensure_workspaces_config s)"
  by (auto simp: ws_inv_def ensure_workspaces_config_def)

lemma ensure_fields [simp]:
  "store_ready (ensure_workspaces_config s) = store_ready s"
  "app_tabs (ensure_workspaces_config s) = app_tabs s"
  "next_uuid (ensure_workspaces_config s) = next_uuid s"
  by (simp_all add: ensure_workspaces_config_def)

lemma ws_list_ensure_ready:
  "store_ready s \<Longrightarrow> ws_list (ensure_workspaces_config s) = Some (case ws_list s of None \<Rightarrow> [] | Some l \<Rightarrow> l)"
  by (cases "ws_list s") (auto simp: ensure_workspaces_config_def)

lemma save_inv: "ws_inv s \<Longrightarrow> ws_inv (fst (save_workspace now name desc sh team s))"
  by (cases "ws_list s") (auto simp: save_workspace_def Let_def stored_ensure ws_inv_def ensure_workspaces_config_def
      stored_def split: if_splits)

lemma get_ws_stored: "get_workspaces s = (s1, ws) \<Longrightarrow> stored s1 = Some l \<Longrightarrow> ws = l"
  by (auto simp: get_workspaces_def Let_def)

lemma get_ws_ready: "get_workspaces s = (s1, ws) \<Longrightarrow> ws \<noteq> [] \<Longrightarrow> \<exists>l. stored s1 = Some l"
  by (auto simp: get_workspaces_def Let_def split: option.splits)

lemma get_ws_fst: "fst (get_workspaces s) = ensure_workspaces_config s"
  by (simp add: get_workspaces_def Let_def)

lemma ws_inv_stored:
  "ws_inv s \<Longrightarrow> stored s = Some l \<Longrightarrow> distinct (map ws_id l) \<and> (\<forall>w \<in> set l. ws_id w < next_uuid s \<and> 0 < ws_version w)"
  by (auto simp: ws_inv_def stored_def split: if_splits)

lemma ws_inv_set: "ws_inv s \<Longrightarrow> stored s = Some l \<Longrightarrow> ws_list (s\<lparr>ws_list := Some l'\<rparr>) = Some l' \<Longrightarrow>
    distinct (map ws_id l') \<Longrightarrow> \<forall>w \<in> set l'. ws_id w < next_uuid s \<and> 0 < ws_version w \<Longrightarrow> ws_inv (s\<lparr>ws_list := Some l'\<rparr>)"
  by (simp add: ws_inv_def)

lemma update_inv: "ws_inv s \<Longrightarrow> ws_inv (fst (update_workspace now i p s))"
proof -
  assume inv: "ws_inv s"
  obtain s1 ws where g: "get_workspaces s = (s1, ws)" by fastforce
  have inv1: "ws_inv s1" using inv g ws_inv_ensure by (auto simp: get_workspaces_def Let_def)
  show ?thesis
  proof (cases "find_idx (\<lambda>w. ws_id w = i) ws")
    case None
    then show ?thesis using g inv1 by (simp add: update_workspace_def)
  next
    case (Some k)
    show ?thesis
    proof (cases "stored s1")
      case None
      then show ?thesis using g inv1 Some by (simp add: update_workspace_def)
    next
      case (Some l)
      with g have wl: "ws = l" by (rule get_ws_stored)
      from \<open>find_idx _ ws = Some k\<close> wl have k: "k < length l" "ws_id (l ! k) = i"
        using find_idx_Some by blast+
      from ws_inv_stored [OF inv1 Some] have d: "distinct (map ws_id l)"
        and b: "\<forall>w \<in> set l. ws_id w < next_uuid s1 \<and> 0 < ws_version w" by auto
      let ?u = "(apply_patch (l ! k) p)\<lparr>ws_id := i, ws_version := ws_version (l ! k) + 1, ws_updated := now\<rparr>"
      have "map ws_id (l[k := ?u]) = map ws_id l" using k by (simp add: map_update) (metis list_update_id nth_map)
      moreover have "\<forall>w \<in> set (l[k := ?u]). ws_id w < next_uuid s1 \<and> 0 < ws_version w"
        using b k set_update_subset_insert [of l k ?u] by (auto dest!: subsetD simp: nth_mem)
      ultimately show ?thesis using g Some \<open>find_idx _ ws = Some k\<close> wl d
        by (simp add: update_workspace_def Let_def ws_inv_def)
    qed
  qed
qed

lemma delete_inv: "ws_inv s \<Longrightarrow> ws_inv (fst (delete_workspace i s))"
proof -
  assume inv: "ws_inv s"
  obtain s1 ws where g: "get_workspaces s = (s1, ws)" by fastforce
  have inv1: "ws_inv s1" using inv g ws_inv_ensure by (auto simp: get_workspaces_def Let_def)
  show ?thesis
  proof (cases "find_idx (\<lambda>w. ws_id w = i) ws")
    case None
    then show ?thesis using g inv1 by (simp add: delete_workspace_def)
  next
    case (Some k)
    show ?thesis
    proof (cases "stored s1")
      case None
      then show ?thesis using g inv1 Some by (simp add: delete_workspace_def)
    next
      case (Some l)
      from ws_inv_stored [OF inv1 Some] have d: "distinct (map ws_id l)"
        and b: "\<forall>w \<in> set l. ws_id w < next_uuid s1 \<and> 0 < ws_version w" by auto
      from g Some have wl: "ws = l" by (rule get_ws_stored)
      from \<open>find_idx _ ws = Some k\<close> wl have k: "k < length l" "ws_id (l ! k) = i"
        using find_idx_Some by blast+
      have f: "take k l @ drop (Suc k) l = filter (\<lambda>w. ws_id w \<noteq> i) l"
        by (rule remove_at_filter [OF d k])
      have "distinct (map ws_id (take k l @ drop (Suc k) l))"
        unfolding f using d by (simp add: distinct_map_filter)
      moreover have "\<forall>w \<in> set (take k l @ drop (Suc k) l). ws_id w < next_uuid s1 \<and> 0 < ws_version w"
        using b by (auto dest: in_set_takeD in_set_dropD)
      ultimately show ?thesis using g Some \<open>find_idx _ ws = Some k\<close>
        by (simp add: delete_workspace_def ws_inv_def)
    qed
  qed
qed

lemma get_ws_inv: "ws_inv s \<Longrightarrow> ws_inv (fst (get_workspaces s))"
  by (simp add: get_ws_fst ws_inv_ensure)

lemma load_inv: "ws_inv s \<Longrightarrow> ws_inv (fst (load_workspace recover i s))"
  using get_ws_inv [of s]
  by (auto simp: load_workspace_def get_workspace_def ws_inv_def split: prod.split option.split)

lemma export_inv: "ws_inv s \<Longrightarrow> ws_inv (fst (export_workspace i s))"
  using get_ws_inv [of s] by (auto simp: export_workspace_def get_workspace_def split: prod.split)

lemma import_inv: "ws_inv s \<Longrightarrow> ws_inv (fst (import_payload now d s))"
proof -
  assume inv: "ws_inv s"
  let ?s1 = "s\<lparr>next_uuid := Suc (next_uuid s)\<rparr>"
  have inv1: "ws_inv (ensure_workspaces_config ?s1)"
    using inv by (intro ws_inv_ensure) (auto simp: ws_inv_def split: option.splits)
  show ?thesis
  proof (cases "stored (ensure_workspaces_config ?s1)")
    case None
    then show ?thesis using inv1 by (simp add: import_payload_def Let_def)
  next
    case (Some l)
    from ws_inv_stored [OF inv1 Some] have d: "distinct (map ws_id l)"
      and b: "\<forall>w \<in> set l. ws_id w < Suc (next_uuid s) \<and> 0 < ws_version w" by auto
    have fresh: "next_uuid s \<notin> ws_id ` set l"
    proof
      assume "next_uuid s \<in> ws_id ` set l"
      then obtain w where w: "w \<in> set l" "ws_id w = next_uuid s" by force
      from Some w have "w \<in> set (case ws_list s of None \<Rightarrow> [] | Some l \<Rightarrow> l)"
        by (auto simp: stored_ensure split: if_splits)
      with inv w show False by (auto simp: ws_inv_def split: option.splits)
    qed
    show ?thesis using Some d b fresh
      by (simp add: import_payload_def Let_def ws_inv_def js_nat_or_pos)
  qed
qed

lemma ws_inv_fields [simp]:
  "ws_inv (s\<lparr>store_ready := b\<rparr>) = ws_inv s" "ws_inv (s\<lparr>app_tabs := ts\<rparr>) = ws_inv s"
  by (simp_all add: ws_inv_def split: option.split)

lemma ws_step_inv: "ws_inv s \<Longrightarrow> ws_inv (ws_step recover op s)"
  by (cases op) (simp_all add: save_inv update_inv delete_inv load_inv export_inv import_inv ws_inv_ensure)

lemma ws_reachable_inv_lemma: "ws_reachable recover s \<Longrightarrow> ws_inv s"
proof (induction rule: ws_reachable.induct)
  case init
  then show ?case by (simp add: ws_init_def ws_inv_def)
next
  case (step s op)
  from step.IH show ?case by (rule ws_step_inv)
qed

lemma ensure_stored_inv:
  "ws_inv s \<Longrightarrow> stored (ensure_workspaces_config s) = Some l \<Longrightarrow>
     distinct (map ws_id l) \<and> (\<forall>w \<in> set l. ws_id w < next_uuid s \<and> 0 < ws_version w)"
  using ws_inv_stored [OF ws_inv_ensure] by fastforce

lemma capture_folders_gen:
  "foldl (\<lambda>acc t. case tab_folders t of None \<Rightarrow> acc
                  | Some fs \<Rightarrow> foldl (\<lambda>a p. if p \<noteq> [] then add_unique a p else a) acc fs) acc ts =
   foldl add_unique acc (filter (\<lambda>p. p \<noteq> []) (concat (map (\<lambda>t. case tab_folders t of None \<Rightarrow> [] | Some fs \<Rightarrow> fs) ts)))"
proof -
  have inner: "\<And>acc. foldl (\<lambda>a p. if p \<noteq> [] then add_unique a p else a) acc fs = foldl add_unique acc (filter (\<lambda>p. p \<noteq> []) fs)" for fs :: "string list"
    by (induction fs) auto
  show ?thesis by (induction ts arbitrary: acc) (auto simp: inner split: option.split)
qed

lemma capture_profiles_gen:
  "foldl (\<lambda>acc t. case tab_profile t of None \<Rightarrow> acc
                  | Some p \<Rightarrow> if p \<noteq> [] then add_unique acc p else acc) acc ts =
   foldl add_unique acc [p \<leftarrow> List.map_filter tab_profile ts. p \<noteq> []]"
  by (induction ts arbitrary: acc) (auto simp: map_filter_simps split: option.split)

lemma demo_save: "save_workspace 5 ''dev'' None False None demo_ws = (demo_saved, Inr demo_w0)"
  by (simp add: save_workspace_def demo_saved_def demo_ws_def demo_w0_def demo_tabs_def Let_def stored_def
      ensure_workspaces_config_def capture_tokens_def capture_folders_def capture_profiles_def
      capture_layout_def add_unique_def map_filter_simps)

lemma demo_saved_inv: "ws_inv demo_saved"
  by (simp add: ws_inv_def demo_saved_def demo_w0_def)

lemma demo_saved_stored: "stored (ensure_workspaces_config demo_saved) = Some [demo_w0]"
  by (simp add: stored_def ensure_workspaces_config_def demo_saved_def demo_ws_def)

lemma delete_workspace_stored:
  assumes "ws_inv s" and "stored (ensure_workspaces_config s) = Some l"
  shows "delete_workspace i s =
           ((ensure_workspaces_config s)\<lparr>ws_list := Some (filter (\<lambda>w. ws_id w \<noteq> i) l)\<rparr>,
            Inr (i \<in> ws_id ` set l))"
proof -
  from ensure_stored_inv [OF assms] have d: "distinct (map ws_id l)" by simp
  have g: "get_workspaces s = (ensure_workspaces_config s, l)"
    using assms(2) by (simp add: get_workspaces_def)
  have wl: "ws_list (ensure_workspaces_config s) = Some l"
    using assms(2) by (simp add: stored_def split: if_splits)
  show ?thesis
  proof (cases "find_idx (\<lambda>x. ws_id x = i) l")
    case None
    then have "\<forall>x \<in> set l. ws_id x \<noteq> i" by (simp add: find_idx_None)
    then show ?thesis using g None wl
      by (auto simp: delete_workspace_def filter_id_conv image_iff)
  next
    case (Some k)
    from find_idx_Some [OF Some] have kl: "k < length l" "ws_id (l ! k) = i" by auto
    then have "i \<in> ws_id ` set l" by (metis image_eqI nth_mem)
    then show ?thesis using g Some assms(2) remove_at_filter [OF d kl] by (simp add: delete_workspace_def)
  qed
qed

lemma save_workspace_eq:
  assumes "stored (ensure_workspaces_config s) = Some l"
  shows "save_workspace now name desc sh team s =
           ((ensure_workspaces_config s)\<lparr>ws_list := Some (l @ [\<lparr>ws_id = next_uuid s, ws_name = name, ws_description = desc,
                   ws_tabs = capture_tokens (app_tabs s), ws_folders = capture_folders (app_tabs s),
                   ws_profiles = capture_profiles (app_tabs s), ws_layout = capture_layout (app_tabs s),
                   ws_shared = sh, ws_team = team, ws_version = 1, ws_created = now,
                   ws_updated = now, ws_tags = [], ws_is_template = False\<rparr>]), next_uuid := Suc (next_uuid s)\<rparr>,
            Inr \<lparr>ws_id = next_uuid s, ws_name = name, ws_description = desc,
                   ws_tabs = capture_tokens (app_tabs s), ws_folders = capture_folders (app_tabs s),
                   ws_profiles = capture_profiles (app_tabs s), ws_layout = capture_layout (app_tabs s),
                   ws_shared = sh, ws_team = team, ws_version = 1, ws_created = now,
                   ws_updated = now, ws_tags = [], ws_is_template = False\<rparr>)"
  using assms by (simp add: save_workspace_def Let_def)

subsection \<open>Properties of the workspace store\<close>



text \<open>
  C17. Update (updateWorkspace): updating a stored workspace replaces it in place by the patched workspace, whose id stays the requested one and whose version is the old version plus one whatever the patch says, stamped with the current time; the others are untouched.
\<close>

theorem update_workspace_spec:
  assumes "ws_inv s" and "stored (ensure_workspaces_config s) = Some l" and "w \<in> set l" and "ws_id w = i"
  shows "update_workspace now i p s =
           ((ensure_workspaces_config s)\<lparr>ws_list := Some (map (\<lambda>x. if ws_id x = i then
               (apply_patch w p)\<lparr>ws_id := i, ws_version := ws_version w + 1, ws_updated := now\<rparr> else x) l)\<rparr>,
            Inr (Some ((apply_patch w p)\<lparr>ws_id := i, ws_version := ws_version w + 1, ws_updated := now\<rparr>)))"
proof -
  from ensure_stored_inv [OF assms(1,2)] have d: "distinct (map ws_id l)" by simp
  have g: "get_workspaces s = (ensure_workspaces_config s, l)"
    using assms(2) by (simp add: get_workspaces_def)
  obtain k where k: "find_idx (\<lambda>x. ws_id x = i) l = Some k"
    using assms(3,4) find_idx_None [of "\<lambda>x. ws_id x = i" l] by (cases "find_idx (\<lambda>x. ws_id x = i) l") auto
  from find_idx_Some [OF k] have kl: "k < length l" "ws_id (l ! k) = i" by auto
  have "l ! k = w"
    using d kl assms(3,4) by (metis distinct_map inj_on_eq_iff nth_mem)
  then show ?thesis
    using g k assms(2) update_at_map [OF d kl] by (simp add: update_workspace_def Let_def)
qed

theorem update_workspace_spec_witness:
  "update_workspace 9 0 (no_patch\<lparr>p_id := Some 42, p_name := Some ''renamed'', p_version := Some 7\<rparr>) demo_saved =
     (demo_saved\<lparr>ws_list := Some [demo_w0\<lparr>ws_name := ''renamed'', ws_version := 2, ws_updated := 9\<rparr>]\<rparr>,
      Inr (Some (demo_w0\<lparr>ws_name := ''renamed'', ws_version := 2, ws_updated := 9\<rparr>)))"
  using update_workspace_spec [OF demo_saved_inv demo_saved_stored, of demo_w0 0 9
      "no_patch\<lparr>p_id := Some 42, p_name := Some ''renamed'', p_version := Some 7\<rparr>"]
  by (simp add: demo_w0_def apply_patch_def no_patch_def ensure_workspaces_config_def demo_saved_def demo_ws_def)

text \<open>
  The 'Config store not ready' branches of updateWorkspace and deleteWorkspace are unreachable: an id is only found when the store is ready.
\<close>

theorem update_delete_never_fail:
  "snd (update_workspace now i p s) \<noteq> Inl e \<and> snd (delete_workspace i s) \<noteq> Inl e"
proof -
  obtain s1 ws where g: "get_workspaces s = (s1, ws)" by fastforce
  have "find_idx (\<lambda>w. ws_id w = i) ws \<noteq> None \<Longrightarrow> stored s1 \<noteq> None"
    using get_ws_ready [OF g] by (cases ws) auto
  then show ?thesis using g
    by (auto simp: update_workspace_def delete_workspace_def Let_def split: option.splits)
qed

text \<open>
  Delete (deleteWorkspace): deleting removes exactly the workspace with that id and reports whether there was one; deleting an absent id changes nothing and reports false.
\<close>

theorem delete_workspace_spec:
  assumes "ws_inv s" and "stored (ensure_workspaces_config s) = Some l"
  shows "delete_workspace i s =
           ((ensure_workspaces_config s)\<lparr>ws_list := Some (filter (\<lambda>w. ws_id w \<noteq> i) l)\<rparr>,
            Inr (i \<in> ws_id ` set l))"
  by (rule delete_workspace_stored [OF assms])

theorem delete_workspace_spec_witness:
  "delete_workspace 0 demo_saved = (demo_saved\<lparr>ws_list := Some []\<rparr>, Inr True) \<and>
   delete_workspace 3 demo_saved = (demo_saved, Inr False)"
  using delete_workspace_spec [OF demo_saved_inv demo_saved_stored, of 0]
    delete_workspace_spec [OF demo_saved_inv demo_saved_stored, of 3]
  by (simp add: demo_w0_def ensure_workspaces_config_def demo_saved_def demo_ws_def)

text \<open>
  C20. Save (saveWorkspace): the saved workspace holds the recovery tokens of the open tabs in order, the code editors' non-empty folder paths and the tabs' non-empty profile ids each once in order of first occurrence, version 1, and is appended to the store under an id no stored workspace has.
\<close>

theorem save_workspace_captures:
  assumes "ws_inv s" and "save_workspace now n d sh t s = (s', Inr w)"
  shows "ws_tabs w = List.map_filter tab_token (app_tabs s) \<and>
         ws_folders w = rev (remdups (rev (filter (\<lambda>p. p \<noteq> [])
            (concat (map (\<lambda>t. case tab_folders t of None \<Rightarrow> [] | Some fs \<Rightarrow> fs) (app_tabs s)))))) \<and>
         ws_profiles w = rev (remdups (rev [p \<leftarrow> List.map_filter tab_profile (app_tabs s). p \<noteq> []])) \<and>
         ws_version w = 1 \<and>
         (\<exists>l. stored s' = Some (l @ [w]) \<and> ws_id w \<notin> ws_id ` set l)"
proof -
  obtain l where st: "stored (ensure_workspaces_config s) = Some l"
    using assms(2) by (cases "stored (ensure_workspaces_config s)") (auto simp: save_workspace_def Let_def)
  from ensure_stored_inv [OF assms(1) st] have "\<forall>x \<in> set l. ws_id x < next_uuid s" by simp
  then have fresh: "next_uuid s \<notin> ws_id ` set l" by auto
  show ?thesis using assms(2) st fresh
    by (auto simp: save_workspace_def Let_def capture_tokens_def capture_folders_def capture_profiles_def
        capture_folders_gen capture_profiles_gen foldl_add_unique_rev_remdups stored_def split: if_splits)
qed

theorem save_workspace_captures_witness:
  "ws_folders demo_w0 = [''/a'', ''/b''] \<and> ws_profiles demo_w0 = [''p1''] \<and> ws_tabs demo_w0 = [''tok-editor'']"
proof -
  have i: "ws_inv demo_ws" by (simp add: ws_inv_def demo_ws_def)
  show ?thesis
    using save_workspace_captures [OF i demo_save]
    by (simp add: demo_ws_def demo_tabs_def map_filter_simps)
qed

text \<open>
  C21. Export then import (exportWorkspace, importFromJson): a workspace with a non-empty name comes back with the same name, description, tabs, folders, profiles, layout and version, under a fresh id, not shared, without team or tags.
\<close>

theorem export_import_roundtrip:
  assumes "ws_name w \<noteq> []" and "0 < ws_version w" and "store_ready s"
  shows "snd (import_payload now (export_payload w) s) =
           Some (w\<lparr>ws_id := next_uuid s, ws_shared := False, ws_team := None, ws_created := now,
                   ws_updated := now, ws_tags := [], ws_is_template := False\<rparr>)"
  using assms by (simp add: import_payload_def export_payload_def Let_def stored_ensure)

theorem export_import_roundtrip_witness:
  "snd (import_payload 7 (export_payload demo_w0) demo_saved) = Some (demo_w0\<lparr>ws_id := 1, ws_created := 7, ws_updated := 7\<rparr>)"
  using export_import_roundtrip [of demo_w0 demo_saved 7]
  by (simp add: demo_w0_def demo_saved_def demo_ws_def)

text \<open>
  C22. Load (loadWorkspace): loading a stored workspace opens one tab per recovery token that recovers and every code editor then has all of the workspace's folders; loading an unknown id reports false and leaves the tabs alone.
\<close>

theorem load_workspace_spec:
  "(get_workspace i s = (s1, Some w) \<longrightarrow>
      snd (load_workspace recover i s) \<and>
      length (app_tabs (fst (load_workspace recover i s))) = length (List.map_filter recover (ws_tabs w)) \<and>
      (\<forall>t \<in> set (app_tabs (fst (load_workspace recover i s))). \<forall>fs. tab_folders t = Some fs \<longrightarrow>
          set (ws_folders w) \<subseteq> set fs)) \<and>
   (snd (get_workspace i s) = None \<longrightarrow>
      load_workspace recover i s = (fst (get_workspace i s), False) \<and> app_tabs (fst (get_workspace i s)) = app_tabs s)"
  by (auto simp: load_workspace_def restore_folders_def foldl_add_unique_set get_workspace_def
      get_workspaces_def Let_def split: prod.splits option.splits)

theorem load_workspace_spec_witness:
  "app_tabs (fst (load_workspace demo_recover 0 demo_saved)) =
     [\<lparr>tab_token = Some ''tok-editor'', tab_folders = Some [''/b'', ''/a''], tab_profile = None\<rparr>]"
proof -
  have g: "get_workspace 0 demo_saved = (demo_saved, Some demo_w0)"
    by (simp add: get_workspace_def get_workspaces_def demo_saved_stored Let_def)
       (simp add: ensure_workspaces_config_def demo_saved_def demo_ws_def demo_w0_def)
  have "snd (load_workspace demo_recover 0 demo_saved)"
    using load_workspace_spec [of 0 demo_saved demo_saved demo_w0 demo_recover] g by simp
  then show ?thesis using g
    by (simp add: load_workspace_def restore_folders_def demo_w0_def demo_recover_def map_filter_simps add_unique_def)
qed

end
