(* ===== verification/Backup.thy ===== *)
theory Backup
  imports Workspace
begin

text \<open>
  \<open>BackupService\<close> (\<open>src/tlink-core/src/services/workspace.service.ts\<close>, lines 423-1169):
  backups of the configuration, the saved workspaces and the profiles, kept as JSON files
  in a backup directory that the main process reads and writes over IPC, an index of
  them, a retention policy and a periodic timer.
  \<^item> State: \<open>backup_state\<close> holds the workspace service's state (theory \<open>Workspace\<close>),
    the profiles and a snapshot of the configuration store, the backup configuration,
    the index \<open>backups\<close>, the interval timer (its period while set), the device id, the
    backup directory, the files as a map from path to content, whether IPC is
    available, the next fresh backup id and the number of \<open>backupsChanged\<close> emissions.
  \<^item> A file's content is the \<open>backup_data\<close> object it serialises; its SHA-256 and
    byte length are functions of that object (\<open>codec\<close>), so an intact file passes the
    integrity check and a file replaced by other data does not.
  \<^item> Times are milliseconds; a day is 86400000 ms (the code subtracts calendar days).
  \<^item> The initial backup of \<open>startAutomaticBackups\<close> runs without being awaited; it is
    modelled as taking place when the timer is set.
\<close>

record backup_config =
  bc_enabled :: bool
  bc_interval :: nat
  bc_retention :: int
  bc_include_workspaces :: bool
  bc_include_config :: bool
  bc_include_profiles :: bool

record profile =
  prof_id :: string
  prof_body :: string

record backup_data =
  bd_version :: string
  bd_timestamp :: "nat option"
  bd_device :: string
  bd_config :: "string option"
  bd_workspaces :: "workspace list option"
  bd_profiles :: "profile list option"
  bd_app_version :: "string option"

record backup =
  b_id :: uuid
  b_timestamp :: nat
  b_size :: nat
  b_path :: string
  b_checksum :: string
  b_version :: string
  b_device :: string
  b_items :: "string list"
  b_app_version :: "string option"

record codec =
  cd_hash :: "backup_data \<Rightarrow> string"
  cd_size :: "backup_data \<Rightarrow> nat"

record backup_state =
  bk_ws :: ws_state
  bk_profiles :: "profile list"
  bk_config_text :: string
  bk_app_version :: string
  bk_config :: backup_config
  bk_backups :: "backup list"
  bk_timer :: "nat option"
  bk_device :: string
  bk_dir :: string
  bk_files :: "string \<Rightarrow> backup_data option"
  bk_ipc :: bool
  bk_next_id :: uuid
  bk_changed :: nat

datatype backup_error = NotFound | NoIpc | LoadFailed | Corrupted | StoreNotReady | SaveFailed

definition day_ms :: nat where
  "day_ms = 86400000"

definition default_backup_config :: backup_config where
  "default_backup_config = \<lparr>bc_enabled = False, bc_interval = 60, bc_retention = 30,
     bc_include_workspaces = True, bc_include_config = True, bc_include_profiles = True\<rparr>"

text \<open>\<open>loadBackupConfig\<close>: the stored values, each defaulting when absent.\<close>

record stored_backup_config =
  sb_enabled :: "bool option"
  sb_interval :: "nat option"
  sb_retention :: "int option"
  sb_include_workspaces :: "bool option"
  sb_include_config :: "bool option"
  sb_include_profiles :: "bool option"

definition load_backup_config :: "stored_backup_config option \<Rightarrow> backup_config" where
  "load_backup_config st =
     (case st of None \<Rightarrow> default_backup_config
      | Some c \<Rightarrow> \<lparr>bc_enabled = patch_or (sb_enabled c) False, bc_interval = patch_or (sb_interval c) 60,
                   bc_retention = patch_or (sb_retention c) 30,
                   bc_include_workspaces = patch_or (sb_include_workspaces c) True,
                   bc_include_config = patch_or (sb_include_config c) True,
                   bc_include_profiles = patch_or (sb_include_profiles c) True\<rparr>)"

subsection \<open>Creating a backup\<close>

definition store_ready_bk :: "backup_state \<Rightarrow> bool" where
  "store_ready_bk s = store_ready (bk_ws s)"

text \<open>\<open>collectBackupData\<close>; reading the workspaces goes through \<open>getWorkspaces\<close>.\<close>

definition collect_backup_data :: "nat \<Rightarrow> backup_state \<Rightarrow> backup_state \<times> backup_data" where
  "collect_backup_data now s =
     (let c = bk_config s;
          (ws', wl) = (if bc_include_workspaces c then (case get_workspaces (bk_ws s) of (w', l) \<Rightarrow> (w', Some l))
                       else (bk_ws s, None))
      in (s\<lparr>bk_ws := ws'\<rparr>,
          \<lparr>bd_version = ''1.0'', bd_timestamp = Some now, bd_device = bk_device s,
           bd_config = (if bc_include_config c \<and> store_ready_bk s then Some (bk_config_text s) else None),
           bd_workspaces = wl,
           bd_profiles = (if bc_include_profiles c \<and> store_ready_bk s then Some (bk_profiles s) else None),
           bd_app_version = Some (bk_app_version s)\<rparr>))"

definition backup_items :: "backup_data \<Rightarrow> string list" where
  "backup_items d =
     (if bd_config d \<noteq> None then [''config''] else []) @
     (case bd_workspaces d of Some l \<Rightarrow> if l \<noteq> [] then [''workspaces('' @ nat_to_string (length l) @ '')''] else []
      | None \<Rightarrow> []) @
     (case bd_profiles d of Some l \<Rightarrow> if l \<noteq> [] then [''profiles('' @ nat_to_string (length l) @ '')''] else []
      | None \<Rightarrow> [])"

text \<open>
  \<open>backup-<timestamp>-<first 8 characters of the id>.json\<close> in the backup directory; the
  ISO timestamp is written as its millisecond count and the id as its number.
\<close>

definition backup_path :: "string \<Rightarrow> string \<Rightarrow> nat \<Rightarrow> uuid \<Rightarrow> string" where
  "backup_path dir prefix now i = dir @ ''/'' @ prefix @ ''-'' @ nat_to_string now @ ''-'' @ nat_to_string i @ ''.json''"

text \<open>\<open>deleteBackup\<close>: the file goes over IPC when available, the entry goes in any case.\<close>

definition delete_backup :: "uuid \<Rightarrow> backup_state \<Rightarrow> backup_state \<times> (backup_error + unit)" where
  "delete_backup i s =
     (case find (\<lambda>b. b_id b = i) (bk_backups s) of
        None \<Rightarrow> (s, Inl NotFound)
      | Some b \<Rightarrow>
          (s\<lparr>bk_files := (if bk_ipc s then (bk_files s)(b_path b := None) else bk_files s),
             bk_backups := filter (\<lambda>x. b_id x \<noteq> i) (bk_backups s),
             bk_changed := Suc (bk_changed s)\<rparr>, Inr ()))"

text \<open>\<open>cleanupOldBackups\<close>: with a positive retention, delete every backup older than the cutoff.\<close>

definition cleanup_cutoff :: "nat \<Rightarrow> backup_config \<Rightarrow> int" where
  "cleanup_cutoff now c = int now - bc_retention c * int day_ms"

definition cleanup_old_backups :: "nat \<Rightarrow> backup_state \<Rightarrow> backup_state" where
  "cleanup_old_backups now s =
     (if bc_retention (bk_config s) \<le> 0 then s
      else
        let old = filter (\<lambda>b. int (b_timestamp b) < cleanup_cutoff now (bk_config s)) (bk_backups s)
        in foldl (\<lambda>st b. fst (delete_backup (b_id b) st)) s old)"

definition create_backup :: "codec \<Rightarrow> nat \<Rightarrow> bool \<Rightarrow> backup_state \<Rightarrow> backup_state \<times> (backup_error + backup)" where
  "create_backup cd now silent s =
     (let i = bk_next_id s;
          s0 = s\<lparr>bk_next_id := Suc i\<rparr>;
          (s1, d) = collect_backup_data now s0;
          b = \<lparr>b_id = i, b_timestamp = now, b_size = cd_size cd d, b_path = backup_path (bk_dir s) ''backup'' now i,
               b_checksum = cd_hash cd d, b_version = ''1.0'', b_device = bk_device s,
               b_items = backup_items d, b_app_version = Some (bk_app_version s)\<rparr>
      in if \<not> bk_ipc s1 then (s1, Inl NoIpc)
         else
           let s2 = s1\<lparr>bk_files := (bk_files s1)(b_path b \<mapsto> d), bk_backups := bk_backups s1 @ [b],
                       bk_changed := (if silent then bk_changed s1 else Suc (bk_changed s1))\<rparr>
           in (cleanup_old_backups now s2, Inr b))"

subsection \<open>The automatic schedule\<close>

definition stop_automatic_backups :: "backup_state \<Rightarrow> backup_state" where
  "stop_automatic_backups s = s\<lparr>bk_timer := None\<rparr>"

text \<open>
  \<open>startAutomaticBackups\<close>: clear the timer; when enabled, take an initial backup unless
  told to skip it (its failure is only logged) and set the timer to the interval.
\<close>

definition start_automatic_backups :: "codec \<Rightarrow> nat \<Rightarrow> bool \<Rightarrow> backup_state \<Rightarrow> backup_state" where
  "start_automatic_backups cd now skip s =
     (let s1 = stop_automatic_backups s in
      if \<not> bc_enabled (bk_config s1) then s1
      else
        let s2 = (if skip then s1 else fst (create_backup cd now False s1))
        in s2\<lparr>bk_timer := Some (bc_interval (bk_config s2) * 60 * 1000)\<rparr>)"

text \<open>
  \<open>saveBackupConfig\<close>: nothing when the store is not loaded; otherwise \<open>config.save()\<close>,
  whose failure (\<open>ok\<close> false) is rethrown.
\<close>

definition save_backup_config :: "bool \<Rightarrow> backup_state \<Rightarrow> backup_error + unit" where
  "save_backup_config ok s = (if \<not> store_ready_bk s \<or> ok then Inr () else Inl SaveFailed)"

definition enable_automatic_backups ::
  "codec \<Rightarrow> nat \<Rightarrow> bool \<Rightarrow> backup_state \<Rightarrow> backup_state \<times> (backup_error + unit)" where
  "enable_automatic_backups cd now ok s =
     (let s1 = s\<lparr>bk_config := (bk_config s)\<lparr>bc_enabled := True\<rparr>\<rparr> in
      case save_backup_config ok s1 of
        Inl e \<Rightarrow> (s1, Inl e)
      | Inr _ \<Rightarrow> (start_automatic_backups cd now False s1, Inr ()))"

definition disable_automatic_backups :: "bool \<Rightarrow> backup_state \<Rightarrow> backup_state \<times> (backup_error + unit)" where
  "disable_automatic_backups ok s =
     (let s1 = s\<lparr>bk_config := (bk_config s)\<lparr>bc_enabled := False\<rparr>\<rparr> in
      case save_backup_config ok s1 of
        Inl e \<Rightarrow> (s1, Inl e)
      | Inr _ \<Rightarrow> (stop_automatic_backups s1, Inr ()))"

record backup_config_patch =
  bp_enabled :: "bool option"
  bp_interval :: "nat option"
  bp_retention :: "int option"
  bp_include_workspaces :: "bool option"
  bp_include_config :: "bool option"
  bp_include_profiles :: "bool option"

definition apply_backup_patch :: "backup_config \<Rightarrow> backup_config_patch \<Rightarrow> backup_config" where
  "apply_backup_patch c p =
     \<lparr>bc_enabled = patch_or (bp_enabled p) (bc_enabled c), bc_interval = patch_or (bp_interval p) (bc_interval c),
      bc_retention = patch_or (bp_retention p) (bc_retention c),
      bc_include_workspaces = patch_or (bp_include_workspaces p) (bc_include_workspaces c),
      bc_include_config = patch_or (bp_include_config p) (bc_include_config c),
      bc_include_profiles = patch_or (bp_include_profiles p) (bc_include_profiles c)\<rparr>"

definition update_backup_config ::
  "codec \<Rightarrow> nat \<Rightarrow> bool \<Rightarrow> backup_config_patch \<Rightarrow> backup_state \<Rightarrow> backup_state \<times> (backup_error + unit)" where
  "update_backup_config cd now ok p s =
     (let s1 = s\<lparr>bk_config := apply_backup_patch (bk_config s) p\<rparr> in
      case save_backup_config ok s1 of
        Inl e \<Rightarrow> (s1, Inl e)
      | Inr _ \<Rightarrow> (if bc_enabled (bk_config s1) then start_automatic_backups cd now False s1
                  else stop_automatic_backups s1, Inr ()))"

text \<open>The interval timer firing: an automatic backup, whose failure is only logged.\<close>

definition backup_tick :: "codec \<Rightarrow> nat \<Rightarrow> backup_state \<Rightarrow> backup_state" where
  "backup_tick cd now s = (if bk_timer s = None then s else fst (create_backup cd now False s))"

subsection \<open>Restoring\<close>

text \<open>Lines 850-861: delete every stored workspace, then save one per backed-up workspace.\<close>

definition restore_workspaces :: "nat \<Rightarrow> workspace list \<Rightarrow> ws_state \<Rightarrow> ws_state" where
  "restore_workspaces now wl w =
     (case get_workspaces w of
        (w1, existing) \<Rightarrow>
          let w2 = foldl (\<lambda>st e. fst (delete_workspace (ws_id e) st)) w1 existing
          in foldl (\<lambda>st x. fst (save_workspace now (ws_name x) (ws_description x) (ws_shared x) (ws_team x) st)) w2 wl)"

text \<open>Lines 864-880: add the backed-up profiles whose id is not present.\<close>

definition restore_profiles :: "profile list \<Rightarrow> profile list \<Rightarrow> profile list" where
  "restore_profiles existing pl = existing @ filter (\<lambda>p. prof_id p \<notin> set (map prof_id existing)) pl"

definition restore_body :: "codec \<Rightarrow> nat \<Rightarrow> backup \<Rightarrow> backup_state \<Rightarrow> backup_state \<times> (backup_error + unit)" where
  "restore_body cd now b s =
     (if \<not> bk_ipc s then (s, Inl NoIpc)
      else case bk_files s (b_path b) of
        None \<Rightarrow> (s, Inl LoadFailed)
      | Some d \<Rightarrow>
          if cd_hash cd d \<noteq> b_checksum b then (s, Inl Corrupted)
          else
            let s1 = fst (create_backup cd now True s) in
            if \<not> store_ready_bk s1 then (s1, Inl StoreNotReady)
            else
              let c = bk_config s1;
                  s2 = (case bd_workspaces d of
                          Some wl \<Rightarrow> if bc_include_workspaces c \<and> wl \<noteq> []
                                     then s1\<lparr>bk_ws := restore_workspaces now wl (bk_ws s1)\<rparr> else s1
                        | None \<Rightarrow> s1);
                  s3 = (case bd_profiles d of
                          Some pl \<Rightarrow> if bc_include_profiles c \<and> pl \<noteq> []
                                     then s2\<lparr>bk_profiles := restore_profiles (bk_profiles s2) pl\<rparr> else s2
                        | None \<Rightarrow> s2)
              in (s3\<lparr>bk_changed := Suc (bk_changed s3)\<rparr>, Inr ()))"

text \<open>
  \<open>restoreBackup\<close>: the schedule is suspended while restoring and, in the \<open>finally\<close>
  block, resumed without an initial backup when it was enabled and no timer is set.
\<close>

definition restore_backup :: "codec \<Rightarrow> nat \<Rightarrow> uuid \<Rightarrow> backup_state \<Rightarrow> backup_state \<times> (backup_error + unit)" where
  "restore_backup cd now i s =
     (case find (\<lambda>b. b_id b = i) (bk_backups s) of
        None \<Rightarrow> (s, Inl NotFound)
      | Some b \<Rightarrow>
          let was = bc_enabled (bk_config s);
              s1 = (if was then stop_automatic_backups s else s);
              (s2, r) = restore_body cd now b s1;
              s3 = (if was \<and> bk_timer s2 = None then start_automatic_backups cd now True s2 else s2)
          in (s3, r))"

subsection \<open>Import, listing and statistics\<close>

definition import_backup :: "codec \<Rightarrow> nat \<Rightarrow> string \<Rightarrow> backup_state \<Rightarrow> backup_state \<times> (backup_error + backup)" where
  "import_backup cd now path s =
     (if \<not> bk_ipc s then (s, Inl NoIpc)
      else case bk_files s path of
        None \<Rightarrow> (s, Inl LoadFailed)
      | Some d \<Rightarrow>
          let i = bk_next_id s;
              ts = (case bd_timestamp d of None \<Rightarrow> now | Some t \<Rightarrow> t);
              b = \<lparr>b_id = i, b_timestamp = ts, b_size = cd_size cd d, b_path = backup_path (bk_dir s) ''imported'' ts i,
                   b_checksum = cd_hash cd d, b_version = js_str_or (Some (bd_version d)) ''1.0'',
                   b_device = js_str_or (Some (bd_device d)) (bk_device s), b_items = backup_items d,
                   b_app_version = bd_app_version d\<rparr>
          in (s\<lparr>bk_next_id := Suc i, bk_files := (bk_files s)(b_path b \<mapsto> d), bk_backups := bk_backups s @ [b],
                bk_changed := Suc (bk_changed s)\<rparr>, Inr b))"

text \<open>\<open>getBackups\<close>: newest first; \<open>Array.prototype.sort\<close> is stable.\<close>

definition get_backups :: "backup_state \<Rightarrow> backup list" where
  "get_backups s = sort_key (\<lambda>b. - int (b_timestamp b)) (bk_backups s)"

record backup_stats =
  st_total :: nat
  st_size :: nat
  st_oldest :: "nat option"
  st_newest :: "nat option"

definition get_backup_stats :: "backup_state \<Rightarrow> backup_stats" where
  "get_backup_stats s =
     (if bk_backups s = [] then \<lparr>st_total = 0, st_size = 0, st_oldest = None, st_newest = None\<rparr>
      else
        let sorted = get_backups s in
        \<lparr>st_total = length (bk_backups s), st_size = foldl (\<lambda>acc b. acc + b_size b) 0 (bk_backups s),
         st_oldest = Some (b_timestamp (last sorted)), st_newest = Some (b_timestamp (hd sorted))\<rparr>)"

subsection \<open>The service as a state machine\<close>

text \<open>
  The service's public operations, the interval timer firing, the workspace service's
  operations and a file of the backup directory being written from outside. The boolean
  of the configuration operations says whether \<open>config.save()\<close> succeeds.
\<close>

datatype bk_op =
    BkCreate
  | BkRestore uuid
  | BkImport string
  | BkDelete uuid
  | BkEnable bool
  | BkDisable bool
  | BkUpdate bool backup_config_patch
  | BkTick
  | BkWs ws_op
  | BkWriteFile string backup_data

fun bk_step :: "codec \<Rightarrow> (recovery_token \<Rightarrow> tab option) \<Rightarrow> nat \<Rightarrow> bk_op \<Rightarrow> backup_state \<Rightarrow> backup_state" where
  "bk_step cd rc now BkCreate s = fst (create_backup cd now False s)"
| "bk_step cd rc now (BkRestore i) s = fst (restore_backup cd now i s)"
| "bk_step cd rc now (BkImport p) s = fst (import_backup cd now p s)"
| "bk_step cd rc now (BkDelete i) s = fst (delete_backup i s)"
| "bk_step cd rc now (BkEnable ok) s = fst (enable_automatic_backups cd now ok s)"
| "bk_step cd rc now (BkDisable ok) s = fst (disable_automatic_backups ok s)"
| "bk_step cd rc now (BkUpdate ok p) s = fst (update_backup_config cd now ok p s)"
| "bk_step cd rc now BkTick s = backup_tick cd now s"
| "bk_step cd rc now (BkWs op) s = s\<lparr>bk_ws := ws_step rc op (bk_ws s)\<rparr>"
| "bk_step cd rc now (BkWriteFile p d) s = s\<lparr>bk_files := (bk_files s)(p \<mapsto> d)\<rparr>"

text \<open>Whether every configuration save of an operation succeeds.\<close>

fun saves_ok :: "bk_op \<Rightarrow> bool" where
  "saves_ok (BkEnable ok) = ok"
| "saves_ok (BkDisable ok) = ok"
| "saves_ok (BkUpdate ok p) = ok"
| "saves_ok op = True"

text \<open>
  The constructed service once \<open>config.ready$\<close> has fired: the store is loaded, the
  backup configuration is read from it and the schedule started when enabled
  (lines 485-498; the index starts empty, as when no index file exists yet).
\<close>

definition bk_init :: "string \<Rightarrow> string \<Rightarrow> bool \<Rightarrow> backup_state" where
  "bk_init dev dir ipc =
     \<lparr>bk_ws = ws_step (\<lambda>_. None) WsStoreReady ws_init, bk_profiles = [], bk_config_text = [], bk_app_version = [],
      bk_config = default_backup_config, bk_backups = [], bk_timer = None, bk_device = dev,
      bk_dir = dir, bk_files = Map.empty, bk_ipc = ipc, bk_next_id = 0, bk_changed = 0\<rparr>"

text \<open>Runs in which every configuration save succeeds.\<close>

definition backup_service_ready ::
  "codec \<Rightarrow> nat \<Rightarrow> stored_backup_config option \<Rightarrow> backup_state \<Rightarrow> backup_state" where
  "backup_service_ready cd now st s =
     (let s1 = s\<lparr>bk_config := (if store_ready_bk s then load_backup_config st else default_backup_config)\<rparr>
      in if bc_enabled (bk_config s1) then start_automatic_backups cd now False s1 else s1)"

inductive bk_reachable :: "codec \<Rightarrow> (recovery_token \<Rightarrow> tab option) \<Rightarrow> backup_state \<Rightarrow> bool" for cd rc where
  init: "bk_reachable cd rc (backup_service_ready cd now st (bk_init dev dir ipc))"
| step: "bk_reachable cd rc s \<Longrightarrow> saves_ok op \<Longrightarrow> bk_reachable cd rc (bk_step cd rc now op s)"

definition bk_inv :: "backup_state \<Rightarrow> bool" where
  "bk_inv s \<longleftrightarrow> distinct (map b_id (bk_backups s)) \<and> (\<forall>b \<in> set (bk_backups s). b_id b < bk_next_id s)"

definition timer_inv :: "backup_state \<Rightarrow> bool" where
  "timer_inv s \<longleftrightarrow> (bk_timer s \<noteq> None \<longleftrightarrow> bc_enabled (bk_config s))"

subsection \<open>Example configuration\<close>

text \<open>
  A ready service with IPC, the default configuration (30 days' retention, schedule off)
  and one backup imported from a file written at time 0, holding workspace \<open>demo_w0\<close>;
  its checksum is the device name, which the example codec hashes.
\<close>

definition demo_codec :: codec where
  "demo_codec = \<lparr>cd_hash = bd_device, cd_size = (\<lambda>d. 1)\<rparr>"

definition demo_old_data :: backup_data where
  "demo_old_data = \<lparr>bd_version = ''1.0'', bd_timestamp = Some 0, bd_device = ''dev0'', bd_config = None,
     bd_workspaces = Some [demo_w0], bd_profiles = None, bd_app_version = None\<rparr>"

definition demo_old_backup :: backup where
  "demo_old_backup = \<lparr>b_id = 0, b_timestamp = 0, b_size = 1, b_path = ''/bk/imported-0-0.json'',
     b_checksum = ''dev0'', b_version = ''1.0'', b_device = ''dev0'', b_items = [''workspaces(1)''],
     b_app_version = None\<rparr>"

definition demo_bk :: backup_state where
  "demo_bk = (bk_init ''dev1'' ''/bk'' True)\<lparr>bk_backups := [demo_old_backup],
     bk_files := [''/bk/imported-0-0.json'' \<mapsto> demo_old_data], bk_next_id := 1\<rparr>"

text \<open>A settings change that only switches the schedule on.\<close>

definition demo_enable_patch :: backup_config_patch where
  "demo_enable_patch = \<lparr>bp_enabled = Some True, bp_interval = None, bp_retention = None,
     bp_include_workspaces = None, bp_include_config = None, bp_include_profiles = None\<rparr>"


subsection \<open>Lemmas on the backup service\<close>

lemma delete_backup_backups:
  "bk_backups (fst (delete_backup i s)) = filter (\<lambda>x. b_id x \<noteq> i) (bk_backups s)"
proof (cases "find (\<lambda>b. b_id b = i) (bk_backups s)")
  case None
  then have "\<forall>x \<in> set (bk_backups s). b_id x \<noteq> i" by (simp add: find_None_iff)
  with None show ?thesis by (simp add: delete_backup_def filter_id_conv)
next
  case (Some b)
  then show ?thesis by (simp add: delete_backup_def)
qed

lemma delete_backup_fields [simp]:
  "bk_config (fst (delete_backup i s)) = bk_config s"
  "bk_timer (fst (delete_backup i s)) = bk_timer s"
  "bk_next_id (fst (delete_backup i s)) = bk_next_id s"
  "bk_ws (fst (delete_backup i s)) = bk_ws s"
  "bk_profiles (fst (delete_backup i s)) = bk_profiles s"
  "bk_ipc (fst (delete_backup i s)) = bk_ipc s"
  by (simp_all add: delete_backup_def split: option.split)

lemma foldl_delete_backups:
  "bk_backups (foldl (\<lambda>st b. fst (delete_backup (b_id b) st)) s old) =
     filter (\<lambda>x. b_id x \<notin> set (map b_id old)) (bk_backups s)"
  by (induction old arbitrary: s) (auto simp: delete_backup_backups intro: filter_cong)

lemma foldl_delete_fields [simp]:
  "bk_config (foldl (\<lambda>st b. fst (delete_backup (b_id b) st)) s old) = bk_config s"
  "bk_timer (foldl (\<lambda>st b. fst (delete_backup (b_id b) st)) s old) = bk_timer s"
  "bk_next_id (foldl (\<lambda>st b. fst (delete_backup (b_id b) st)) s old) = bk_next_id s"
  "bk_ws (foldl (\<lambda>st b. fst (delete_backup (b_id b) st)) s old) = bk_ws s"
  "bk_profiles (foldl (\<lambda>st b. fst (delete_backup (b_id b) st)) s old) = bk_profiles s"
  "bk_ipc (foldl (\<lambda>st b. fst (delete_backup (b_id b) st)) s old) = bk_ipc s"
  by (induction old arbitrary: s) simp_all

lemma filter_ids_distinct:
  assumes "distinct (map b_id xs)"
  shows "filter (\<lambda>x. b_id x \<notin> set (map b_id (filter P xs))) xs = filter (\<lambda>x. \<not> P x) xs"
proof (rule filter_cong [OF refl])
  fix x assume x: "x \<in> set xs"
  show "(b_id x \<notin> set (map b_id (filter P xs))) = (\<not> P x)"
  proof
    assume "b_id x \<notin> set (map b_id (filter P xs))"
    with x show "\<not> P x" by auto
  next
    assume np: "\<not> P x"
    show "b_id x \<notin> set (map b_id (filter P xs))"
    proof
      assume "b_id x \<in> set (map b_id (filter P xs))"
      then obtain y where y: "y \<in> set xs" "P y" "b_id y = b_id x" by auto
      with x assms have "y = x" by (metis distinct_map inj_on_eq_iff)
      with y np show False by simp
    qed
  qed
qed

lemma cleanup_backups:
  assumes "distinct (map b_id (bk_backups s))"
  shows "bk_backups (cleanup_old_backups now s) =
           (if bc_retention (bk_config s) \<le> 0 then bk_backups s
            else filter (\<lambda>b. cleanup_cutoff now (bk_config s) \<le> int (b_timestamp b)) (bk_backups s))"
  using filter_ids_distinct [OF assms, of "\<lambda>b. int (b_timestamp b) < cleanup_cutoff now (bk_config s)"]
  by (simp add: cleanup_old_backups_def Let_def foldl_delete_backups not_less)

lemma cleanup_fields [simp]:
  "bk_config (cleanup_old_backups now s) = bk_config s"
  "bk_timer (cleanup_old_backups now s) = bk_timer s"
  "bk_next_id (cleanup_old_backups now s) = bk_next_id s"
  "bk_ws (cleanup_old_backups now s) = bk_ws s"
  "bk_profiles (cleanup_old_backups now s) = bk_profiles s"
  "bk_ipc (cleanup_old_backups now s) = bk_ipc s"
  by (simp_all add: cleanup_old_backups_def Let_def)

lemma collect_fields [simp]:
  "bk_config (fst (collect_backup_data now s)) = bk_config s"
  "bk_timer (fst (collect_backup_data now s)) = bk_timer s"
  "bk_next_id (fst (collect_backup_data now s)) = bk_next_id s"
  "bk_backups (fst (collect_backup_data now s)) = bk_backups s"
  "bk_profiles (fst (collect_backup_data now s)) = bk_profiles s"
  "bk_ipc (fst (collect_backup_data now s)) = bk_ipc s"
  "bk_files (fst (collect_backup_data now s)) = bk_files s"
  "bk_dir (fst (collect_backup_data now s)) = bk_dir s"
  "store_ready (bk_ws (fst (collect_backup_data now s))) = store_ready (bk_ws s)"
  by (simp_all add: collect_backup_data_def Let_def get_workspaces_def split: prod.split)

lemma create_backup_fields [simp]:
  "bk_config (fst (create_backup cd now silent s)) = bk_config s"
  "bk_timer (fst (create_backup cd now silent s)) = bk_timer s"
  "bk_next_id (fst (create_backup cd now silent s)) = Suc (bk_next_id s)"
  "bk_profiles (fst (create_backup cd now silent s)) = bk_profiles s"
  "bk_ipc (fst (create_backup cd now silent s)) = bk_ipc s"
  "store_ready (bk_ws (fst (create_backup cd now silent s))) = store_ready (bk_ws s)"
  by (simp_all add: create_backup_def Let_def split_def)

lemma bk_inv_cong:
  "bk_backups s' = bk_backups s \<Longrightarrow> bk_next_id s' = bk_next_id s \<Longrightarrow> bk_inv s' = bk_inv s"
  by (simp add: bk_inv_def)

lemma bk_inv_fresh:
  assumes "bk_inv s"
  shows "distinct (map b_id (bk_backups s @ [b\<lparr>b_id := bk_next_id s\<rparr>])) \<and>
         (\<forall>x \<in> set (bk_backups s @ [b\<lparr>b_id := bk_next_id s\<rparr>]). b_id x < Suc (bk_next_id s))"
  using assms by (auto simp: bk_inv_def)

lemma create_backup_result:
  assumes "bk_inv s" and "create_backup cd now silent s = (s', r)"
  shows "(\<not> bk_ipc s \<and> r = Inl NoIpc \<and> bk_backups s' = bk_backups s) \<or>
         (bk_ipc s \<and> (\<exists>b. r = Inr b \<and> b_id b = bk_next_id s \<and> b_timestamp b = now \<and>
            bk_backups s' = (if bc_retention (bk_config s) \<le> 0 then bk_backups s @ [b]
                             else filter (\<lambda>x. cleanup_cutoff now (bk_config s) \<le> int (b_timestamp x)) (bk_backups s @ [b]))))"
proof -
  obtain s1 d where c: "collect_backup_data now (s\<lparr>bk_next_id := Suc (bk_next_id s)\<rparr>) = (s1, d)" by fastforce
  have f1: "bk_ipc s1 = bk_ipc s" "bk_backups s1 = bk_backups s" "bk_config s1 = bk_config s"
    using collect_fields [of now "s\<lparr>bk_next_id := Suc (bk_next_id s)\<rparr>"] c by simp_all
  let ?b = "\<lparr>b_id = bk_next_id s, b_timestamp = now, b_size = cd_size cd d, b_path = backup_path (bk_dir s) ''backup'' now (bk_next_id s),
               b_checksum = cd_hash cd d, b_version = ''1.0'', b_device = bk_device s,
               b_items = backup_items d, b_app_version = Some (bk_app_version s)\<rparr>"
  have d: "distinct (map b_id (bk_backups s @ [?b]))"
    using bk_inv_fresh [OF assms(1), of ?b] by simp
  show ?thesis
  proof (cases "bk_ipc s")
    case False
    then show ?thesis using assms(2) c f1 by (simp add: create_backup_def Let_def)
  next
    case True
    then have "s' = cleanup_old_backups now (s1\<lparr>bk_files := (bk_files s1)(b_path ?b \<mapsto> d), bk_backups := bk_backups s1 @ [?b],
                  bk_changed := (if silent then bk_changed s1 else Suc (bk_changed s1))\<rparr>)" and "r = Inr ?b"
      using assms(2) c f1 by (simp_all add: create_backup_def Let_def)
    then show ?thesis using True f1 d cleanup_backups [where s = "s1\<lparr>bk_files := (bk_files s1)(b_path ?b \<mapsto> d), bk_backups := bk_backups s1 @ [?b],
                  bk_changed := (if silent then bk_changed s1 else Suc (bk_changed s1))\<rparr>" and now = now]
      by simp
  qed
qed

lemma create_inv: "bk_inv s \<Longrightarrow> bk_inv (fst (create_backup cd now silent s))"
proof -
  assume inv: "bk_inv s"
  obtain s' r where e: "create_backup cd now silent s = (s', r)" by fastforce
  have n: "bk_next_id s' = Suc (bk_next_id s)" using e create_backup_fields(3) [of cd now silent s] by simp
  from create_backup_result [OF inv e] show ?thesis
  proof
    assume "\<not> bk_ipc s \<and> r = Inl NoIpc \<and> bk_backups s' = bk_backups s"
    with inv n e show ?thesis by (auto simp: bk_inv_def)
  next
    assume "bk_ipc s \<and> (\<exists>b. r = Inr b \<and> b_id b = bk_next_id s \<and> b_timestamp b = now \<and>
            bk_backups s' = (if bc_retention (bk_config s) \<le> 0 then bk_backups s @ [b]
                             else filter (\<lambda>x. cleanup_cutoff now (bk_config s) \<le> int (b_timestamp x)) (bk_backups s @ [b])))"
    then obtain b where b: "b_id b = bk_next_id s"
      and bs0: "bk_backups s' = (if bc_retention (bk_config s) \<le> 0 then bk_backups s @ [b]
                             else filter (\<lambda>x. cleanup_cutoff now (bk_config s) \<le> int (b_timestamp x)) (bk_backups s @ [b]))"
      by blast
    obtain P where bs: "bk_backups s' = filter P (bk_backups s @ [b])"
    proof (cases "bc_retention (bk_config s) \<le> 0")
      case True
      then show ?thesis using bs0 that [of "\<lambda>_. True"] by simp
    next
      case False
      then show ?thesis using bs0 that by simp
    qed
    from bk_inv_fresh [OF inv, of b] b have "distinct (map b_id (bk_backups s @ [b]))"
      "\<forall>x \<in> set (bk_backups s @ [b]). b_id x < Suc (bk_next_id s)" by simp_all
    then show ?thesis using bs n e by (auto simp: bk_inv_def distinct_map_filter)
  qed
qed

lemma bk_inv_upd [simp]:
  "bk_inv (s\<lparr>bk_timer := t\<rparr>) = bk_inv s" "bk_inv (s\<lparr>bk_config := c\<rparr>) = bk_inv s"
  "bk_inv (s\<lparr>bk_ws := w\<rparr>) = bk_inv s" "bk_inv (s\<lparr>bk_profiles := ps\<rparr>) = bk_inv s"
  "bk_inv (s\<lparr>bk_changed := n\<rparr>) = bk_inv s" "bk_inv (s\<lparr>bk_files := f\<rparr>) = bk_inv s"
  by (simp_all add: bk_inv_def)

lemma timer_inv_upd [simp]:
  "timer_inv (s\<lparr>bk_ws := w\<rparr>) = timer_inv s" "timer_inv (s\<lparr>bk_profiles := ps\<rparr>) = timer_inv s"
  "timer_inv (s\<lparr>bk_changed := n\<rparr>) = timer_inv s" "timer_inv (s\<lparr>bk_files := f\<rparr>) = timer_inv s"
  by (simp_all add: timer_inv_def)

lemma bk_start_inv: "bk_inv s \<Longrightarrow> bk_inv (start_automatic_backups cd now skip s)"
  by (simp add: start_automatic_backups_def stop_automatic_backups_def Let_def create_inv)

lemma start_timer_inv: "timer_inv (start_automatic_backups cd now skip s)"
  by (simp add: start_automatic_backups_def stop_automatic_backups_def Let_def timer_inv_def)

lemma start_fields [simp]:
  "bk_config (start_automatic_backups cd now skip s) = bk_config s"
  "store_ready (bk_ws (start_automatic_backups cd now skip s)) = store_ready (bk_ws s)"
  by (simp_all add: start_automatic_backups_def stop_automatic_backups_def Let_def)

lemma restore_body_fields:
  "bk_timer (fst (restore_body cd now b s)) = bk_timer s \<and> bk_config (fst (restore_body cd now b s)) = bk_config s"
  by (simp add: restore_body_def Let_def split: option.split)

lemma restore_body_inv: "bk_inv s \<Longrightarrow> bk_inv (fst (restore_body cd now b s))"
  by (simp add: restore_body_def Let_def create_inv split: option.split)

lemma restore_inv: "bk_inv s \<Longrightarrow> bk_inv (fst (restore_backup cd now i s))"
proof (cases "find (\<lambda>b. b_id b = i) (bk_backups s)")
  case (Some b)
  assume inv: "bk_inv s"
  let ?s1 = "if bc_enabled (bk_config s) then stop_automatic_backups s else s"
  obtain s2 r where e: "restore_body cd now b ?s1 = (s2, r)" by fastforce
  have "bk_inv ?s1" using inv by (simp add: stop_automatic_backups_def)
  then have "bk_inv s2" using restore_body_inv [of ?s1 cd now b] e by simp
  then show ?thesis using Some e by (simp add: restore_backup_def Let_def bk_start_inv)
qed (simp add: restore_backup_def)

lemma restore_timer_inv: "timer_inv s \<Longrightarrow> timer_inv (fst (restore_backup cd now i s))"
proof (cases "find (\<lambda>b. b_id b = i) (bk_backups s)")
  case None
  assume "timer_inv s"
  with None show ?thesis by (simp add: restore_backup_def)
next
  case (Some b)
  assume t: "timer_inv s"
  let ?s1 = "if bc_enabled (bk_config s) then stop_automatic_backups s else s"
  obtain s2 r where e: "restore_body cd now b ?s1 = (s2, r)" by fastforce
  have f: "bk_timer s2 = bk_timer ?s1" "bk_config s2 = bk_config s"
    using restore_body_fields [of cd now b ?s1] e by (simp_all add: stop_automatic_backups_def)
  show ?thesis
    using Some e f t start_timer_inv [of cd now True s2]
    by (auto simp: restore_backup_def Let_def stop_automatic_backups_def timer_inv_def)
qed

lemma bk_import_inv: "bk_inv s \<Longrightarrow> bk_inv (fst (import_backup cd now p s))"
  by (auto simp: import_backup_def Let_def bk_inv_def split: option.split)

lemma delete_inv_bk: "bk_inv s \<Longrightarrow> bk_inv (fst (delete_backup i s))"
  by (auto simp: bk_inv_def delete_backup_backups distinct_map_filter)

lemma delete_timer_inv: "timer_inv (fst (delete_backup i s)) = timer_inv s"
  by (simp add: timer_inv_def)

lemma create_timer_inv: "timer_inv (fst (create_backup cd now silent s)) = timer_inv s"
  by (simp add: timer_inv_def)

lemma import_timer_inv: "timer_inv (fst (import_backup cd now p s)) = timer_inv s"
  by (simp add: import_backup_def Let_def timer_inv_def split: option.split)

lemma config_ops_inv:
  "bk_inv s \<Longrightarrow> bk_inv (fst (enable_automatic_backups cd now ok s))"
  "bk_inv s \<Longrightarrow> bk_inv (fst (disable_automatic_backups ok s))"
  "bk_inv s \<Longrightarrow> bk_inv (fst (update_backup_config cd now ok p s))"
  by (simp_all add: enable_automatic_backups_def disable_automatic_backups_def update_backup_config_def
      Let_def stop_automatic_backups_def bk_start_inv split: sum.split)

lemma config_ops_timer_inv:
  "timer_inv (fst (enable_automatic_backups cd now True s))"
  "timer_inv (fst (disable_automatic_backups True s))"
  "timer_inv (fst (update_backup_config cd now True p s))"
  by (simp_all add: enable_automatic_backups_def disable_automatic_backups_def update_backup_config_def
      save_backup_config_def Let_def stop_automatic_backups_def start_timer_inv) (simp_all add: timer_inv_def)

lemma collect_ws_inv: "ws_inv (bk_ws s) \<Longrightarrow> ws_inv (bk_ws (fst (collect_backup_data now s)))"
  by (simp add: collect_backup_data_def Let_def get_workspaces_def ws_inv_ensure split: prod.split)

lemma create_ws_inv: "ws_inv (bk_ws s) \<Longrightarrow> ws_inv (bk_ws (fst (create_backup cd now silent s)))"
proof -
  assume w: "ws_inv (bk_ws s)"
  obtain s1 d where c: "collect_backup_data now (s\<lparr>bk_next_id := Suc (bk_next_id s)\<rparr>) = (s1, d)" by fastforce
  have "ws_inv (bk_ws s1)" using collect_ws_inv [of "s\<lparr>bk_next_id := Suc (bk_next_id s)\<rparr>" now] c w by simp
  moreover have "bk_ws (cleanup_old_backups now x) = bk_ws x" for x by simp
  ultimately show ?thesis using c by (simp add: create_backup_def Let_def)
qed

lemma foldl_delete_ws_inv: "ws_inv w \<Longrightarrow> ws_inv (foldl (\<lambda>st e. fst (delete_workspace (ws_id e) st)) w es)"
  by (induction es arbitrary: w) (simp_all add: delete_inv)

lemma foldl_save_ws_inv:
  "ws_inv w \<Longrightarrow> ws_inv (foldl (\<lambda>st x. fst (save_workspace now (ws_name x) (ws_description x) (ws_shared x) (ws_team x) st)) w xs)"
  by (induction xs arbitrary: w) (simp_all add: save_inv)

lemma restore_workspaces_inv: "ws_inv w \<Longrightarrow> ws_inv (restore_workspaces now wl w)"
  by (simp add: restore_workspaces_def Let_def get_workspaces_def ws_inv_ensure foldl_delete_ws_inv
      foldl_save_ws_inv split: prod.split)

lemma start_ws_inv: "ws_inv (bk_ws s) \<Longrightarrow> ws_inv (bk_ws (start_automatic_backups cd now skip s))"
  by (simp add: start_automatic_backups_def stop_automatic_backups_def Let_def create_ws_inv)

lemma restore_body_ws_inv: "ws_inv (bk_ws s) \<Longrightarrow> ws_inv (bk_ws (fst (restore_body cd now b s)))"
  by (simp add: restore_body_def Let_def create_ws_inv restore_workspaces_inv split: option.split)

lemma restore_ws_inv: "ws_inv (bk_ws s) \<Longrightarrow> ws_inv (bk_ws (fst (restore_backup cd now i s)))"
proof (cases "find (\<lambda>b. b_id b = i) (bk_backups s)")
  case (Some b)
  assume w: "ws_inv (bk_ws s)"
  let ?s1 = "if bc_enabled (bk_config s) then stop_automatic_backups s else s"
  obtain s2 r where e: "restore_body cd now b ?s1 = (s2, r)" by fastforce
  have "ws_inv (bk_ws ?s1)" using w by (simp add: stop_automatic_backups_def)
  then have "ws_inv (bk_ws s2)" using restore_body_ws_inv [of ?s1 cd now b] e by simp
  then show ?thesis using Some e by (simp add: restore_backup_def Let_def start_ws_inv)
qed (simp add: restore_backup_def)

lemma config_ops_ws_inv:
  "ws_inv (bk_ws s) \<Longrightarrow> ws_inv (bk_ws (fst (enable_automatic_backups cd now ok s)))"
  "ws_inv (bk_ws s) \<Longrightarrow> ws_inv (bk_ws (fst (disable_automatic_backups ok s)))"
  "ws_inv (bk_ws s) \<Longrightarrow> ws_inv (bk_ws (fst (update_backup_config cd now ok p s)))"
  by (simp_all add: enable_automatic_backups_def disable_automatic_backups_def update_backup_config_def
      Let_def stop_automatic_backups_def start_ws_inv split: sum.split)

lemma import_ws: "bk_ws (fst (import_backup cd now p s)) = bk_ws s"
  by (simp add: import_backup_def Let_def split: option.split)

lemma bk_step_inv:
  assumes "bk_inv s \<and> timer_inv s \<and> ws_inv (bk_ws s)" and "saves_ok op"
  shows "bk_inv (bk_step cd rc now op s) \<and> timer_inv (bk_step cd rc now op s) \<and> ws_inv (bk_ws (bk_step cd rc now op s))"
  using assms
proof (cases op)
  case BkTick
  then show ?thesis using assms
    by (simp add: backup_tick_def create_inv create_timer_inv create_ws_inv)
qed (simp_all add: create_inv create_timer_inv create_ws_inv restore_inv restore_timer_inv restore_ws_inv
      bk_import_inv import_timer_inv import_ws delete_inv_bk delete_timer_inv config_ops_inv config_ops_timer_inv
      config_ops_ws_inv ws_step_inv)

lemma ready_inv:
  "bk_inv s \<and> timer_inv s \<and> ws_inv (bk_ws s) \<Longrightarrow> bk_timer s = None \<Longrightarrow>
   bk_inv (backup_service_ready cd now st s) \<and> timer_inv (backup_service_ready cd now st s) \<and>
   ws_inv (bk_ws (backup_service_ready cd now st s))"
  by (simp add: backup_service_ready_def Let_def bk_start_inv start_timer_inv start_ws_inv) (simp add: timer_inv_def)

lemma bk_init_inv: "bk_inv (bk_init dev dir ipc) \<and> timer_inv (bk_init dev dir ipc) \<and> ws_inv (bk_ws (bk_init dev dir ipc))"
  by (simp add: bk_init_def bk_inv_def timer_inv_def default_backup_config_def ws_inv_def ws_init_def
      ensure_workspaces_config_def)

lemma bk_reachable_inv_lemma:
  "bk_reachable cd rc s \<Longrightarrow> bk_inv s \<and> timer_inv s \<and> ws_inv (bk_ws s)"
proof (induction rule: bk_reachable.induct)
  case (init now st dev dir ipc)
  show ?case by (rule ready_inv [OF bk_init_inv]) (simp add: bk_init_def)
next
  case (step s op now)
  from step.IH step.hyps(2) show ?case by (rule bk_step_inv)
qed

lemma create_backup_new:
  assumes "bk_inv s" and "bk_ipc s"
  shows "\<exists>b. snd (create_backup cd now silent s) = Inr b \<and> b \<in> set (bk_backups (fst (create_backup cd now silent s))) \<and>
           b_id b = bk_next_id s \<and> b_timestamp b = now \<and>
           (\<forall>x \<in> set (bk_backups s). x \<in> set (bk_backups (fst (create_backup cd now silent s))) \<longleftrightarrow>
              bc_retention (bk_config s) \<le> 0 \<or> cleanup_cutoff now (bk_config s) \<le> int (b_timestamp x)) \<and>
           (0 < bc_retention (bk_config s) \<longrightarrow>
              (\<forall>x \<in> set (bk_backups (fst (create_backup cd now silent s))). cleanup_cutoff now (bk_config s) \<le> int (b_timestamp x)))"
proof -
  obtain s' r where e: "create_backup cd now silent s = (s', r)" by fastforce
  have le: "0 < bc_retention (bk_config s) \<Longrightarrow> cleanup_cutoff now (bk_config s) \<le> int now"
    by (simp add: cleanup_cutoff_def day_ms_def)
  from create_backup_result [OF assms(1) e] assms(2) obtain b where
    r: "r = Inr b" "b_id b = bk_next_id s" "b_timestamp b = now" and
    bs: "bk_backups s' = (if bc_retention (bk_config s) \<le> 0 then bk_backups s @ [b]
                          else filter (\<lambda>x. cleanup_cutoff now (bk_config s) \<le> int (b_timestamp x)) (bk_backups s @ [b]))"
    by blast
  show ?thesis using e r bs le by auto
qed

lemma sorted_desc_hd_last:
  assumes "sorted_wrt (\<lambda>a b. f b \<le> (f a :: nat)) xs" and "xs \<noteq> []"
  shows "f (hd xs) = Max (f ` set xs) \<and> f (last xs) = Min (f ` set xs)"
proof -
  have "\<forall>x \<in> set xs. f x \<le> f (hd xs)" using assms by (cases xs) auto
  moreover have "\<forall>x \<in> set xs. f (last xs) \<le> f x"
    using assms by (induction xs) (auto simp: last_in_set)
  ultimately show ?thesis using assms
    by (auto intro!: Max_eqI [symmetric] Min_eqI [symmetric] simp: last_in_set)
qed

lemma restore_body_checked:
  assumes "bk_ipc s" and "bk_files s (b_path b) = Some d" and "cd_hash cd d = b_checksum b"
  shows "bk_backups (fst (restore_body cd now b s)) = bk_backups (fst (create_backup cd now True s))"
  using assms by (simp add: restore_body_def Let_def split: option.split)

lemma restore_backup_checked:
  assumes "find (\<lambda>x. b_id x = i) (bk_backups s) = Some b" and "bk_ipc s"
    and "bk_files s (b_path b) = Some d" and "cd_hash cd d = b_checksum b"
  shows "bk_backups (fst (restore_backup cd now i s)) =
           bk_backups (fst (create_backup cd now True (if bc_enabled (bk_config s) then stop_automatic_backups s else s)))"
proof -
  let ?s1 = "if bc_enabled (bk_config s) then stop_automatic_backups s else s"
  obtain s2 r where e: "restore_body cd now b ?s1 = (s2, r)" by fastforce
  have "bk_backups s2 = bk_backups (fst (create_backup cd now True ?s1))"
    using restore_body_checked [of ?s1 b d cd now] assms e by (simp add: stop_automatic_backups_def)
  then show ?thesis using assms(1) e
    by (simp add: restore_backup_def Let_def start_automatic_backups_def stop_automatic_backups_def)
qed

lemma ensure_stored_id: "stored s = Some l \<Longrightarrow> ensure_workspaces_config s = s"
  by (simp add: stored_def ensure_workspaces_config_def split: if_splits)

lemma foldl_delete_stored:
  "ws_inv w \<Longrightarrow> stored w = Some l \<Longrightarrow>
   stored (foldl (\<lambda>st e. fst (delete_workspace (ws_id e) st)) w es) =
     Some (filter (\<lambda>x. ws_id x \<notin> set (map ws_id es)) l) \<and>
   ws_inv (foldl (\<lambda>st e. fst (delete_workspace (ws_id e) st)) w es) \<and>
   app_tabs (foldl (\<lambda>st e. fst (delete_workspace (ws_id e) st)) w es) = app_tabs w"
proof (induction es arbitrary: w l)
  case Nil
  then show ?case by (simp add: filter_id_conv)
next
  case (Cons e es)
  have st: "stored (ensure_workspaces_config w) = Some l" using Cons.prems ensure_stored_id by simp
  let ?w1 = "(ensure_workspaces_config w)\<lparr>ws_list := Some (filter (\<lambda>x. ws_id x \<noteq> ws_id e) l)\<rparr>"
  have d: "fst (delete_workspace (ws_id e) w) = ?w1"
    using delete_workspace_stored [OF Cons.prems(1) st, of "ws_id e"] by simp
  have s1: "stored ?w1 = Some (filter (\<lambda>x. ws_id x \<noteq> ws_id e) l)"
    using Cons.prems(2) by (simp add: stored_def split: if_splits)
  have i1: "ws_inv ?w1" using delete_inv [OF Cons.prems(1), of "ws_id e"] d by simp
  show ?case using Cons.IH [OF i1 s1] d ensure_stored_id [OF Cons.prems(2)]
    by (simp add: filter_filter conj_commute)
qed

lemma foldl_save_stored:
  "stored w = Some l \<Longrightarrow>
   \<exists>ys. stored (foldl (\<lambda>st x. fst (save_workspace now (ws_name x) (ws_description x) (ws_shared x) (ws_team x) st)) w xs) = Some (l @ ys) \<and>
        map ws_name ys = map ws_name xs \<and> (\<forall>y \<in> set ys. ws_tabs y = capture_tokens (app_tabs w) \<and> ws_version y = 1) \<and>
        app_tabs (foldl (\<lambda>st x. fst (save_workspace now (ws_name x) (ws_description x) (ws_shared x) (ws_team x) st)) w xs) = app_tabs w"
proof (induction xs arbitrary: w l)
  case Nil
  then show ?case by simp
next
  case (Cons x xs)
  have st: "stored (ensure_workspaces_config w) = Some l" using Cons.prems ensure_stored_id by simp
  let ?w1 = "fst (save_workspace now (ws_name x) (ws_description x) (ws_shared x) (ws_team x) w)"
  let ?nw = "\<lparr>ws_id = next_uuid w, ws_name = ws_name x, ws_description = ws_description x,
                   ws_tabs = capture_tokens (app_tabs w), ws_folders = capture_folders (app_tabs w),
                   ws_profiles = capture_profiles (app_tabs w), ws_layout = capture_layout (app_tabs w),
                   ws_shared = ws_shared x, ws_team = ws_team x, ws_version = 1, ws_created = now,
                   ws_updated = now, ws_tags = [], ws_is_template = False\<rparr>"
  have e: "?w1 = w\<lparr>ws_list := Some (l @ [?nw]), next_uuid := Suc (next_uuid w)\<rparr>"
    using save_workspace_eq [OF st] ensure_stored_id [OF Cons.prems] by simp
  have s1: "stored ?w1 = Some (l @ [?nw])"
    using e Cons.prems by (simp add: stored_def split: if_splits)
  obtain ys where "stored (foldl (\<lambda>st x. fst (save_workspace now (ws_name x) (ws_description x) (ws_shared x) (ws_team x) st)) ?w1 xs)
        = Some ((l @ [?nw]) @ ys)" and "map ws_name ys = map ws_name xs"
    and "\<forall>y \<in> set ys. ws_tabs y = capture_tokens (app_tabs ?w1) \<and> ws_version y = 1"
    and "app_tabs (foldl (\<lambda>st x. fst (save_workspace now (ws_name x) (ws_description x) (ws_shared x) (ws_team x) st)) ?w1 xs) = app_tabs ?w1"
    using Cons.IH [OF s1] by blast
  then show ?case using e by (intro exI [of _ "?nw # ys"]) simp
qed

lemma demo_bk_facts:
  "bk_inv demo_bk" "bk_ipc demo_bk" "bc_retention (bk_config demo_bk) = 30" "bk_backups demo_bk = [demo_old_backup]"
  "bk_timer demo_bk = None" "store_ready (bk_ws demo_bk)" "bc_enabled (bk_config demo_bk) = False"
  "bk_files demo_bk ''/bk/imported-0-0.json'' = Some demo_old_data"
  by (simp_all add: demo_bk_def bk_init_def bk_inv_def demo_old_backup_def default_backup_config_def
      ensure_workspaces_config_def ws_init_def)

subsection \<open>Properties of the backup service\<close>



text \<open>
  C24. Create and retention (createBackup, cleanupOldBackups): with IPC and a positive retention, creating a backup succeeds, the new backup is in the index with the current time, every backup left in the index lies within the retention window, and an earlier backup stays exactly when it lies within the window.
\<close>

theorem create_backup_retention:
  assumes "bk_inv s" and "bk_ipc s" and "0 < bc_retention (bk_config s)"
  shows "\<exists>b. snd (create_backup cd now silent s) = Inr b \<and> b \<in> set (bk_backups (fst (create_backup cd now silent s))) \<and>
           b_timestamp b = now \<and>
           (\<forall>x \<in> set (bk_backups (fst (create_backup cd now silent s))). cleanup_cutoff now (bk_config s) \<le> int (b_timestamp x)) \<and>
           (\<forall>x \<in> set (bk_backups s). x \<in> set (bk_backups (fst (create_backup cd now silent s))) \<longleftrightarrow>
              cleanup_cutoff now (bk_config s) \<le> int (b_timestamp x))"
  using create_backup_new [OF assms(1,2), of cd now silent] assms(3) by (simp only: not_le) blast

theorem create_backup_retention_witness:
  "demo_old_backup \<notin> set (bk_backups (fst (create_backup demo_codec 2678400000 False demo_bk))) \<and>
   (\<exists>b \<in> set (bk_backups (fst (create_backup demo_codec 2678400000 False demo_bk))). b_timestamp b = 2678400000)"
proof -
  have r: "0 < bc_retention (bk_config demo_bk)" by (simp add: demo_bk_facts)
  have o: "\<not> cleanup_cutoff 2678400000 (bk_config demo_bk) \<le> int (b_timestamp demo_old_backup)"
    by (simp add: cleanup_cutoff_def day_ms_def demo_bk_facts demo_old_backup_def)
  show ?thesis
    using create_backup_retention [OF demo_bk_facts(1,2) r, of demo_codec 2678400000 False] o
    by (auto simp: demo_bk_facts)
qed

text \<open>
  C25. Restoring an old backup deletes it (restoreBackup, lines 800-907): restoring an intact backup older than the retention window removes it from the index, because the safety backup taken before the restore runs the retention cleanup.
\<close>

theorem restore_old_backup_removed:
  assumes "bk_inv s" and "find (\<lambda>x. b_id x = i) (bk_backups s) = Some b" and "bk_ipc s"
    and "bk_files s (b_path b) = Some d" and "cd_hash cd d = b_checksum b"
    and "0 < bc_retention (bk_config s)" and "int (b_timestamp b) < cleanup_cutoff now (bk_config s)"
  shows "b \<notin> set (bk_backups (fst (restore_backup cd now i s)))"
proof -
  let ?s1 = "if bc_enabled (bk_config s) then stop_automatic_backups s else s"
  have i1: "bk_inv ?s1" "bk_ipc ?s1" "bk_config ?s1 = bk_config s" "bk_backups ?s1 = bk_backups s"
    using assms(1,3) by (simp_all add: stop_automatic_backups_def)
  have "b \<in> set (bk_backups s)" using assms(2) by (metis find_Some_iff nth_mem)
  then show ?thesis
    using create_backup_new [OF i1(1,2), of cd now True] restore_backup_checked [OF assms(2-5), of now] i1 assms(6,7)
    by auto
qed

theorem restore_old_backup_removed_witness:
  "demo_old_backup \<notin> set (bk_backups (fst (restore_backup demo_codec 2678400000 0 demo_bk)))"
proof -
  have f: "find (\<lambda>x. b_id x = 0) (bk_backups demo_bk) = Some demo_old_backup"
    by (simp add: demo_bk_facts demo_old_backup_def)
  have p: "bk_files demo_bk (b_path demo_old_backup) = Some demo_old_data"
    by (simp add: demo_bk_facts demo_old_backup_def)
  have h: "cd_hash demo_codec demo_old_data = b_checksum demo_old_backup"
    by (simp add: demo_codec_def demo_old_data_def demo_old_backup_def)
  have r: "0 < bc_retention (bk_config demo_bk)" by (simp add: demo_bk_facts)
  have o: "int (b_timestamp demo_old_backup) < cleanup_cutoff 2678400000 (bk_config demo_bk)"
    by (simp add: cleanup_cutoff_def day_ms_def demo_bk_facts demo_old_backup_def)
  show ?thesis by (rule restore_old_backup_removed [OF demo_bk_facts(1) f demo_bk_facts(2) p h r o])
qed

text \<open>
  C26. Restored workspaces take the open tabs (lines 850-861): after a restore the store holds one workspace per backed-up workspace, with its name, but each with the recovery tokens of the tabs open now and version 1; the backed-up tabs are lost.
\<close>

theorem restore_workspaces_current_tabs:
  assumes "ws_inv w" and "store_ready w"
  shows "\<exists>ys. stored (restore_workspaces now wl w) = Some ys \<and> map ws_name ys = map ws_name wl \<and>
           (\<forall>y \<in> set ys. ws_tabs y = capture_tokens (app_tabs w) \<and> ws_version y = 1)"
proof -
  let ?l = "case ws_list w of None \<Rightarrow> [] | Some l \<Rightarrow> l"
  have g: "get_workspaces w = (ensure_workspaces_config w, ?l)" by (simp add: get_workspaces_eq assms(2))
  have st: "stored (ensure_workspaces_config w) = Some ?l" by (simp add: stored_ensure assms(2))
  have i: "ws_inv (ensure_workspaces_config w)" by (rule ws_inv_ensure [OF assms(1)])
  let ?w2 = "foldl (\<lambda>st e. fst (delete_workspace (ws_id e) st)) (ensure_workspaces_config w) ?l"
  from foldl_delete_stored [OF i st, of ?l]
  have "stored ?w2 = Some []" "app_tabs ?w2 = app_tabs w" by (auto simp: filter_empty_conv)
  moreover have "restore_workspaces now wl w =
      foldl (\<lambda>st x. fst (save_workspace now (ws_name x) (ws_description x) (ws_shared x) (ws_team x) st)) ?w2 wl"
    using g by (simp add: restore_workspaces_def Let_def)
  ultimately show ?thesis using foldl_save_stored [of ?w2 "[]" now wl] by auto
qed

theorem restore_workspaces_current_tabs_witness:
  "\<exists>ys. stored (restore_workspaces 9 [demo_w0\<lparr>ws_tabs := [''tok-old'']\<rparr>] demo_saved) = Some ys \<and>
        map ws_tabs ys = [[''tok-editor'']]"
proof -
  have i: "ws_inv demo_saved" by (rule demo_saved_inv)
  have r: "store_ready demo_saved" by (simp add: demo_saved_def demo_ws_def)
  obtain ys where y: "stored (restore_workspaces 9 [demo_w0\<lparr>ws_tabs := [''tok-old'']\<rparr>] demo_saved) = Some ys"
    "map ws_name ys = map ws_name [demo_w0\<lparr>ws_tabs := [''tok-old'']\<rparr>]"
    "\<forall>y \<in> set ys. ws_tabs y = capture_tokens (app_tabs demo_saved) \<and> ws_version y = 1"
    using restore_workspaces_current_tabs [OF i r, of 9 "[demo_w0\<lparr>ws_tabs := [''tok-old'']\<rparr>]"] by blast
  have t: "capture_tokens (app_tabs demo_saved) = [''tok-editor'']"
    by (simp add: demo_saved_def demo_ws_def demo_tabs_def capture_tokens_def map_filter_simps)
  from y(2) obtain y0 where "ys = [y0]" by (cases ys) auto
  with y t show ?thesis by auto
qed

text \<open>
  C27. Integrity check: restoring a backup whose file no longer matches its checksum fails with the corruption error and leaves the index, the workspaces, the profiles and the configuration as they were, with the schedule back in the state it had.
\<close>

theorem restore_corrupted:
  assumes "find (\<lambda>x. b_id x = i) (bk_backups s) = Some b" and "bk_ipc s"
    and "bk_files s (b_path b) = Some d" and "cd_hash cd d \<noteq> b_checksum b" and "timer_inv s"
  shows "snd (restore_backup cd now i s) = Inl Corrupted \<and>
         bk_backups (fst (restore_backup cd now i s)) = bk_backups s \<and>
         bk_ws (fst (restore_backup cd now i s)) = bk_ws s \<and>
         bk_profiles (fst (restore_backup cd now i s)) = bk_profiles s \<and>
         bk_config (fst (restore_backup cd now i s)) = bk_config s \<and>
         (bk_timer (fst (restore_backup cd now i s)) = None \<longleftrightarrow> bk_timer s = None)"
  using assms
  by (auto simp: restore_backup_def restore_body_def Let_def start_automatic_backups_def
      stop_automatic_backups_def timer_inv_def)

theorem restore_corrupted_witness:
  "snd (restore_backup demo_codec 5 0 (demo_bk\<lparr>bk_files := [''/bk/imported-0-0.json'' \<mapsto> demo_old_data\<lparr>bd_device := ''tampered''\<rparr>]\<rparr>)) =
     Inl Corrupted"
proof -
  let ?s = "demo_bk\<lparr>bk_files := [''/bk/imported-0-0.json'' \<mapsto> demo_old_data\<lparr>bd_device := ''tampered''\<rparr>]\<rparr>"
  have f: "find (\<lambda>x. b_id x = 0) (bk_backups ?s) = Some demo_old_backup"
    by (simp add: demo_bk_facts demo_old_backup_def)
  have i: "bk_ipc ?s" by (simp add: demo_bk_facts)
  have p: "bk_files ?s (b_path demo_old_backup) = Some (demo_old_data\<lparr>bd_device := ''tampered''\<rparr>)"
    by (simp add: demo_old_backup_def)
  have h: "cd_hash demo_codec (demo_old_data\<lparr>bd_device := ''tampered''\<rparr>) \<noteq> b_checksum demo_old_backup"
    by (simp add: demo_codec_def demo_old_backup_def)
  have t: "timer_inv ?s" by (simp add: timer_inv_def demo_bk_facts)
  show ?thesis using restore_corrupted [OF f i p h t] by simp
qed

text \<open>
  Listing and statistics (getBackups, getBackupStats): the listing is a permutation of the index ordered newest first, and the statistics report the number of backups and the newest and oldest timestamps as the maximum and minimum over the index.
\<close>

theorem get_backups_sorted:
  "mset (get_backups s) = mset (bk_backups s) \<and>
   sorted_wrt (\<lambda>a b. b_timestamp b \<le> b_timestamp a) (get_backups s) \<and>
   (bk_backups s \<noteq> [] \<longrightarrow>
      st_newest (get_backup_stats s) = Some (Max (b_timestamp ` set (bk_backups s))) \<and>
      st_oldest (get_backup_stats s) = Some (Min (b_timestamp ` set (bk_backups s))) \<and>
      st_total (get_backup_stats s) = length (bk_backups s))"
proof -
  have m: "mset (get_backups s) = mset (bk_backups s)" by (simp add: get_backups_def)
  have "sorted (map (\<lambda>b. - int (b_timestamp b)) (get_backups s))"
    by (simp add: get_backups_def del: sorted_map)
  then have so: "sorted_wrt (\<lambda>a b. b_timestamp b \<le> b_timestamp a) (get_backups s)"
    by (simp add: sorted_map)
  have st: "set (get_backups s) = set (bk_backups s)" using m by (metis set_mset_mset)
  have "bk_backups s \<noteq> [] \<Longrightarrow> get_backups s \<noteq> []" using st by auto
  then show ?thesis using m so sorted_desc_hd_last [OF so] st
    by (simp add: get_backup_stats_def Let_def)
qed

theorem get_backups_sorted_witness:
  "st_newest (get_backup_stats (demo_bk\<lparr>bk_backups := [demo_old_backup, demo_old_backup\<lparr>b_id := 1, b_timestamp := 7\<rparr>]\<rparr>)) = Some 7"
proof -
  let ?s = "demo_bk\<lparr>bk_backups := [demo_old_backup, demo_old_backup\<lparr>b_id := 1, b_timestamp := 7\<rparr>]\<rparr>"
  have "bk_backups ?s \<noteq> []" by simp
  then have "st_newest (get_backup_stats ?s) = Some (Max (b_timestamp ` set (bk_backups ?s)))"
    using get_backups_sorted [of ?s] by blast
  then show ?thesis by (simp add: demo_old_backup_def)
qed

text \<open>
  C29. Failed configuration save (enableAutomaticBackups): when config.save() fails, the service is left enabled in memory with no timer, so automatic backups silently stop although they are reported enabled.
\<close>

theorem enable_save_failure:
  assumes "store_ready (bk_ws s)" and "bk_timer s = None"
  shows "enable_automatic_backups cd now False s = (s\<lparr>bk_config := (bk_config s)\<lparr>bc_enabled := True\<rparr>\<rparr>, Inl SaveFailed) \<and>
         \<not> timer_inv (fst (enable_automatic_backups cd now False s))"
  using assms by (simp add: enable_automatic_backups_def save_backup_config_def store_ready_bk_def timer_inv_def)

theorem enable_save_failure_witness:
  "bc_enabled (bk_config (fst (enable_automatic_backups demo_codec 5 False demo_bk))) \<and>
   bk_timer (fst (enable_automatic_backups demo_codec 5 False demo_bk)) = None"
  using enable_save_failure [OF demo_bk_facts(6,5), of demo_codec 5] by (simp add: demo_bk_facts)

text \<open>
  C30. Settings change while enabled (updateBackupConfig): any configuration update that leaves automatic backups enabled restarts the schedule and so immediately creates a new backup stamped with the current time.
\<close>

theorem update_config_backs_up:
  assumes "bk_inv s" and "bk_ipc s" and "bc_enabled (apply_backup_patch (bk_config s) p)"
  shows "snd (update_backup_config cd now True p s) = Inr () \<and>
         (\<exists>b \<in> set (bk_backups (fst (update_backup_config cd now True p s))).
            b_id b = bk_next_id s \<and> b_timestamp b = now)"
proof -
  let ?s1 = "(s\<lparr>bk_config := apply_backup_patch (bk_config s) p\<rparr>)\<lparr>bk_timer := None\<rparr>"
  have i: "bk_inv ?s1" "bk_ipc ?s1" using assms(1,2) by simp_all
  obtain b where b: "b \<in> set (bk_backups (fst (create_backup cd now False ?s1)))" "b_id b = bk_next_id s" "b_timestamp b = now"
    using create_backup_new [OF i, of cd now False] by auto
  show ?thesis using assms(3) b
    by (auto simp: update_backup_config_def save_backup_config_def start_automatic_backups_def
        stop_automatic_backups_def Let_def)
qed

theorem update_config_backs_up_witness:
  "\<exists>b \<in> set (bk_backups (fst (update_backup_config demo_codec 5 True demo_enable_patch demo_bk))). b_timestamp b = 5"
proof -
  have e: "bc_enabled (apply_backup_patch (bk_config demo_bk) demo_enable_patch)"
    by (simp add: apply_backup_patch_def demo_enable_patch_def)
  show ?thesis using update_config_backs_up [OF demo_bk_facts(1,2) e, of demo_codec 5] by blast
qed

end
