(* ===== verification/SettingsTabs.thy ===== *)
theory SettingsTabs
  imports Backup
begin

text \<open>
  The two settings tabs that drive the workspace and backup services:
  \<open>WorkspaceSettingsTabComponent\<close> (\<open>tlink-settings/src/components/workspaceSettingsTab.component.ts\<close>)
  and \<open>BackupSettingsTabComponent\<close> (\<open>backupSettingsTab.component.ts\<close>). Each handler is a
  function of the tab's state and the service's state, calling the service operations of
  the theories \<open>Workspace\<close> and \<open>Backup\<close> exactly where the code awaits them.
  \<^item> \<open>translate.instant\<close> is the English catalogue: a message is its key with the
    parameters filled in; notifications are kept in order in the tab state.
  \<^item> A rejected service promise that the handler does not catch ends the handler there:
    the service state is the one the failed operation left, the tab state is unchanged.
  \<^item> The prompt and \<open>confirm\<close> dialogs are arguments: the text entered (\<open>None\<close> when the
    prompt is dismissed) and the user's answer. Date formatting and \<open>toFixed(2)\<close> are
    arguments as well.
\<close>

datatype notification = Notice string | NotifyError string

subsection \<open>The workspace settings tab\<close>

record ws_tab =
  wt_workspaces :: "workspace list"
  wt_selected :: "workspace option"
  wt_notes :: "notification list"
  wt_clipboard :: "ws_payload option"

definition wt_note :: "notification \<Rightarrow> ws_tab \<Rightarrow> ws_tab" where
  "wt_note n t = t\<lparr>wt_notes := wt_notes t @ [n]\<rparr>"

text \<open>\<open>loadWorkspaces\<close>\<close>

definition wt_load_workspaces :: "ws_tab \<Rightarrow> ws_state \<Rightarrow> ws_tab \<times> ws_state" where
  "wt_load_workspaces t s = (case get_workspaces s of (s', l) \<Rightarrow> (t\<lparr>wt_workspaces := l\<rparr>, s'))"

text \<open>
  \<open>saveCurrentWorkspace\<close>: a non-blank name from the prompt saves the open tabs under the
  trimmed name, with an empty description, not shared. A rejection of \<open>saveWorkspace\<close>
  lands in the same \<open>catch\<close> as a dismissed prompt and is dropped without a message.
\<close>

definition wt_save_current ::
  "nat \<Rightarrow> string option \<Rightarrow> ws_tab \<Rightarrow> ws_state \<Rightarrow> ws_tab \<times> ws_state" where
  "wt_save_current now input t s =
     (case input of
        None \<Rightarrow> (t, s)
      | Some v \<Rightarrow>
          if trim v = [] then (t, s)
          else (case save_workspace now (trim v) (Some []) False None s of
                  (s1, Inl _) \<Rightarrow> (t, s1)
                | (s1, Inr w) \<Rightarrow>
                    (case wt_load_workspaces (wt_note (Notice ''Workspace saved'') t) s1 of
                       (t2, s2) \<Rightarrow> (t2\<lparr>wt_selected := Some w\<rparr>, s2))))"

definition wt_load_workspace ::
  "(recovery_token \<Rightarrow> tab option) \<Rightarrow> workspace \<Rightarrow> ws_tab \<Rightarrow> ws_state \<Rightarrow> ws_tab \<times> ws_state" where
  "wt_load_workspace recover w t s =
     (case load_workspace recover (ws_id w) s of
        (s1, True) \<Rightarrow> (wt_note (Notice (''Workspace loaded: '' @ ws_name w)) t, s1)
      | (s1, False) \<Rightarrow> (wt_note (NotifyError ''Failed to load workspace'') t, s1))"

text \<open>\<open>deleteWorkspace\<close>: a rejection is not caught.\<close>

definition wt_delete_workspace :: "bool \<Rightarrow> workspace \<Rightarrow> ws_tab \<Rightarrow> ws_state \<Rightarrow> ws_tab \<times> ws_state" where
  "wt_delete_workspace confirmed w t s =
     (if \<not> confirmed then (t, s)
      else case delete_workspace (ws_id w) s of
        (s1, Inl _) \<Rightarrow> (t, s1)
      | (s1, Inr False) \<Rightarrow> (wt_note (NotifyError ''Failed to delete workspace'') t, s1)
      | (s1, Inr True) \<Rightarrow>
          (case wt_load_workspaces (wt_note (Notice ''Workspace deleted'') t) s1 of
             (t2, s2) \<Rightarrow>
               (if map_option ws_id (wt_selected t2) = Some (ws_id w) then t2\<lparr>wt_selected := None\<rparr> else t2, s2)))"

definition wt_export_workspace :: "workspace \<Rightarrow> ws_tab \<Rightarrow> ws_state \<Rightarrow> ws_tab \<times> ws_state" where
  "wt_export_workspace w t s =
     (case export_workspace (ws_id w) s of
        (s1, Some p) \<Rightarrow> (wt_note (Notice ''Workspace exported to clipboard'') (t\<lparr>wt_clipboard := Some p\<rparr>), s1)
      | (s1, None) \<Rightarrow> (wt_note (NotifyError ''Failed to export workspace'') t, s1))"

subsection \<open>The backup settings tab\<close>

record backup_tab =
  bt_backups :: "backup list"
  bt_config :: backup_config
  bt_selected :: "backup option"
  bt_creating :: bool
  bt_restoring :: bool
  bt_notes :: "notification list"

definition bt_note :: "notification \<Rightarrow> backup_tab \<Rightarrow> backup_tab" where
  "bt_note n t = t\<lparr>bt_notes := bt_notes t @ [n]\<rparr>"

definition bt_init :: backup_tab where
  "bt_init = \<lparr>bt_backups = [], bt_config = \<lparr>bc_enabled = False, bc_interval = 60, bc_retention = 30,
     bc_include_workspaces = True, bc_include_config = True, bc_include_profiles = True\<rparr>,
     bt_selected = None, bt_creating = False, bt_restoring = False, bt_notes = []\<rparr>"

text \<open>\<open>loadBackupConfig\<close> (\<open>getBackupConfig\<close> returns a copy) and \<open>loadBackups\<close>.\<close>

definition bt_load_config :: "backup_tab \<Rightarrow> backup_state \<Rightarrow> backup_tab" where
  "bt_load_config t s = t\<lparr>bt_config := bk_config s\<rparr>"

definition bt_load_backups :: "backup_tab \<Rightarrow> backup_state \<Rightarrow> backup_tab" where
  "bt_load_backups t s = t\<lparr>bt_backups := get_backups s\<rparr>"

definition bt_on_init :: "backup_tab \<Rightarrow> backup_state \<Rightarrow> backup_tab" where
  "bt_on_init t s = bt_load_backups (bt_load_config t s) s"

text \<open>
  \<open>toggleAutomaticBackups\<close>: by the tab's copy of the configuration; a rejected save is
  not caught, so neither the notice nor the reload of the configuration happens.
\<close>

definition bt_toggle_automatic ::
  "codec \<Rightarrow> nat \<Rightarrow> bool \<Rightarrow> backup_tab \<Rightarrow> backup_state \<Rightarrow> backup_tab \<times> backup_state" where
  "bt_toggle_automatic cd now ok t s =
     (if bc_enabled (bt_config t) then
        (case disable_automatic_backups ok s of
           (s1, Inl _) \<Rightarrow> (t, s1)
         | (s1, Inr _) \<Rightarrow> (bt_load_config (bt_note (Notice ''Automatic backups disabled'') t) s1, s1))
      else
        (case enable_automatic_backups cd now ok s of
           (s1, Inl _) \<Rightarrow> (t, s1)
         | (s1, Inr _) \<Rightarrow> (bt_load_config (bt_note (Notice ''Automatic backups enabled'') t) s1, s1)))"

definition empty_backup_patch :: backup_config_patch where
  "empty_backup_patch = \<lparr>bp_enabled = None, bp_interval = None, bp_retention = None,
     bp_include_workspaces = None, bp_include_config = None, bp_include_profiles = None\<rparr>"

text \<open>
  The interval and retention fields: the value bound to the input, raised to 1 when below,
  sent as a one-key patch.
\<close>

definition bt_update_interval ::
  "codec \<Rightarrow> nat \<Rightarrow> bool \<Rightarrow> nat \<Rightarrow> backup_tab \<Rightarrow> backup_state \<Rightarrow> backup_tab \<times> backup_state" where
  "bt_update_interval cd now ok v t s =
     (let v' = (if v < 1 then 1 else v); t1 = t\<lparr>bt_config := (bt_config t)\<lparr>bc_interval := v'\<rparr>\<rparr> in
      case update_backup_config cd now ok (empty_backup_patch\<lparr>bp_interval := Some v'\<rparr>) s of
        (s1, Inl _) \<Rightarrow> (t1, s1)
      | (s1, Inr _) \<Rightarrow> (bt_note (Notice ''Backup interval updated'') t1, s1))"

definition bt_update_retention ::
  "codec \<Rightarrow> nat \<Rightarrow> bool \<Rightarrow> int \<Rightarrow> backup_tab \<Rightarrow> backup_state \<Rightarrow> backup_tab \<times> backup_state" where
  "bt_update_retention cd now ok v t s =
     (let v' = (if v < 1 then 1 else v); t1 = t\<lparr>bt_config := (bt_config t)\<lparr>bc_retention := v'\<rparr>\<rparr> in
      case update_backup_config cd now ok (empty_backup_patch\<lparr>bp_retention := Some v'\<rparr>) s of
        (s1, Inl _) \<Rightarrow> (t1, s1)
      | (s1, Inr _) \<Rightarrow> (bt_note (Notice ''Backup retention updated'') t1, s1))"

text \<open>
  The three item checkboxes (\<open>toggleIncludeWorkspaces\<close>, \<open>toggleIncludeConfig\<close>,
  \<open>toggleIncludeProfiles\<close>): the value bound to the checkbox is sent as a one-key patch.
\<close>

datatype backup_item = ItemWorkspaces | ItemConfig | ItemProfiles

fun item_patch :: "backup_item \<Rightarrow> bool \<Rightarrow> backup_config_patch" where
  "item_patch ItemWorkspaces b = empty_backup_patch\<lparr>bp_include_workspaces := Some b\<rparr>"
| "item_patch ItemConfig b = empty_backup_patch\<lparr>bp_include_config := Some b\<rparr>"
| "item_patch ItemProfiles b = empty_backup_patch\<lparr>bp_include_profiles := Some b\<rparr>"

fun set_item :: "backup_item \<Rightarrow> bool \<Rightarrow> backup_config \<Rightarrow> backup_config" where
  "set_item ItemWorkspaces b c = c\<lparr>bc_include_workspaces := b\<rparr>"
| "set_item ItemConfig b c = c\<lparr>bc_include_config := b\<rparr>"
| "set_item ItemProfiles b c = c\<lparr>bc_include_profiles := b\<rparr>"

definition bt_toggle_include ::
  "codec \<Rightarrow> nat \<Rightarrow> bool \<Rightarrow> backup_item \<Rightarrow> bool \<Rightarrow> backup_tab \<Rightarrow> backup_state \<Rightarrow> backup_tab \<times> backup_state" where
  "bt_toggle_include cd now ok it b t s =
     (let t1 = t\<lparr>bt_config := set_item it b (bt_config t)\<rparr> in
      case update_backup_config cd now ok (item_patch it b) s of
        (s1, Inl _) \<Rightarrow> (t1, s1)
      | (s1, Inr _) \<Rightarrow> (bt_note (Notice ''Backup configuration updated'') t1, s1))"

text \<open>\<open>createManualBackup\<close>: the notice names the first 8 characters of the id.\<close>

definition bt_create_manual :: "codec \<Rightarrow> nat \<Rightarrow> backup_tab \<Rightarrow> backup_state \<Rightarrow> backup_tab \<times> backup_state" where
  "bt_create_manual cd now t s =
     (case create_backup cd now False s of
        (s1, Inr b) \<Rightarrow>
          (bt_load_backups ((bt_note (Notice (''Backup created: '' @ take 8 (nat_to_string (b_id b)))) t)\<lparr>bt_selected := Some b\<rparr>) s1
             \<lparr>bt_creating := False\<rparr>, s1)
      | (s1, Inl e) \<Rightarrow> (bt_note (NotifyError ''Failed to create backup'') t\<lparr>bt_creating := False\<rparr>, s1))"

text \<open>\<open>restoreBackup\<close> after the \<open>confirm\<close> dialog.\<close>

definition bt_restore :: "codec \<Rightarrow> nat \<Rightarrow> bool \<Rightarrow> backup \<Rightarrow> backup_tab \<Rightarrow> backup_state \<Rightarrow> backup_tab \<times> backup_state" where
  "bt_restore cd now confirmed b t s =
     (if \<not> confirmed then (t, s)
      else case restore_backup cd now (b_id b) s of
        (s1, Inr _) \<Rightarrow>
          (bt_note (Notice ''Backup restored successfully. Please restart the app for changes to take effect.'')
             (bt_load_backups t s1)\<lparr>bt_restoring := False\<rparr>, s1)
      | (s1, Inl _) \<Rightarrow> (bt_note (NotifyError ''Failed to restore backup'') t\<lparr>bt_restoring := False\<rparr>, s1))"

definition bt_delete :: "bool \<Rightarrow> backup \<Rightarrow> backup_tab \<Rightarrow> backup_state \<Rightarrow> backup_tab \<times> backup_state" where
  "bt_delete confirmed b t s =
     (if \<not> confirmed then (t, s)
      else case delete_backup (b_id b) s of
        (s1, Inr _) \<Rightarrow>
          (let t1 = bt_load_backups (bt_note (Notice ''Backup deleted'') t) s1 in
           (if map_option b_id (bt_selected t1) = Some (b_id b) then t1\<lparr>bt_selected := None\<rparr> else t1, s1))
      | (s1, Inl _) \<Rightarrow> (bt_note (NotifyError ''Failed to delete backup'') t, s1))"

text \<open>
  \<open>importBackup\<close>: without the renderer's IPC an error; a cancelled file dialog (\<open>None\<close>)
  does nothing.
\<close>

definition bt_import ::
  "codec \<Rightarrow> nat \<Rightarrow> bool \<Rightarrow> string option \<Rightarrow> backup_tab \<Rightarrow> backup_state \<Rightarrow> backup_tab \<times> backup_state" where
  "bt_import cd now ipc picked t s =
     (if \<not> ipc then (bt_note (NotifyError ''IPC not available'') t, s)
      else case picked of
        None \<Rightarrow> (t, s)
      | Some path \<Rightarrow>
          (case import_backup cd now path s of
             (s1, Inr b) \<Rightarrow>
               (bt_load_backups ((bt_note (Notice (''Backup imported: '' @ take 8 (nat_to_string (b_id b)))) t)
                  \<lparr>bt_selected := Some b\<rparr>) s1, s1)
           | (s1, Inl _) \<Rightarrow> (bt_note (NotifyError ''Failed to import backup'') t, s1)))"

definition format_size :: "(nat \<Rightarrow> nat \<Rightarrow> string) \<Rightarrow> nat \<Rightarrow> string" where
  "format_size to_fixed2 bytes =
     (if bytes < 1024 then nat_to_string bytes @ '' B''
      else if bytes < 1024 * 1024 then to_fixed2 bytes 1024 @ '' KB''
      else to_fixed2 bytes (1024 * 1024) @ '' MB'')"

subsection \<open>The backup tab with its subscription\<close>

text \<open>
  The tab's handlers as actions, each followed by the \<open>backupsChanged\<close> subscription of
  \<open>ngOnInit\<close>, which reloads the list when the service emitted during the handler
  (\<open>bk_changed\<close> counts the emissions).
\<close>

datatype bt_action = BtToggle bool | BtInterval bool nat | BtRetention bool int | BtInclude bool backup_item bool
  | BtCreate | BtRestore bool backup | BtDelete bool backup | BtImport bool "string option"

fun bt_handle :: "codec \<Rightarrow> nat \<Rightarrow> bt_action \<Rightarrow> backup_tab \<Rightarrow> backup_state \<Rightarrow> backup_tab \<times> backup_state" where
  "bt_handle cd now (BtToggle ok) t s = bt_toggle_automatic cd now ok t s"
| "bt_handle cd now (BtInterval ok v) t s = bt_update_interval cd now ok v t s"
| "bt_handle cd now (BtRetention ok v) t s = bt_update_retention cd now ok v t s"
| "bt_handle cd now (BtInclude ok it b) t s = bt_toggle_include cd now ok it b t s"
| "bt_handle cd now BtCreate t s = bt_create_manual cd now t s"
| "bt_handle cd now (BtRestore c b) t s = bt_restore cd now c b t s"
| "bt_handle cd now (BtDelete c b) t s = bt_delete c b t s"
| "bt_handle cd now (BtImport ipc p) t s = bt_import cd now ipc p t s"

definition bt_sync :: "backup_state \<Rightarrow> backup_tab \<Rightarrow> backup_state \<Rightarrow> backup_tab" where
  "bt_sync s t s' = (if bk_changed s' \<noteq> bk_changed s then bt_load_backups t s' else t)"

definition bt_run :: "codec \<Rightarrow> nat \<Rightarrow> bt_action \<Rightarrow> backup_tab \<Rightarrow> backup_state \<Rightarrow> backup_tab \<times> backup_state" where
  "bt_run cd now a t s = (case bt_handle cd now a t s of (t', s') \<Rightarrow> (bt_sync s t' s', s'))"

text \<open>
  \<open>announced s s'\<close>: going from \<open>s\<close> to \<open>s'\<close> the service either left the index as it
  was or emitted \<open>backupsChanged\<close>; \<open>bt_view_ok\<close>: a handler's result is announced and
  the tab's list is either untouched or freshly loaded.
\<close>

definition announced :: "backup_state \<Rightarrow> backup_state \<Rightarrow> bool" where
  "announced s s' \<longleftrightarrow> bk_changed s \<le> bk_changed s' \<and> (bk_backups s' = bk_backups s \<or> bk_changed s < bk_changed s')"

definition bt_view_ok :: "backup_state \<Rightarrow> backup_tab \<Rightarrow> backup_tab \<times> backup_state \<Rightarrow> bool" where
  "bt_view_ok s t r \<longleftrightarrow> announced s (snd r) \<and> (bt_backups (fst r) = bt_backups t \<or> bt_backups (fst r) = get_backups (snd r))"

subsection \<open>Lemmas\<close>

lemma announced_refl [simp]: "announced s s"
  by (simp add: announced_def)

lemma announced_same: "bk_backups s' = bk_backups s \<Longrightarrow> bk_changed s' = bk_changed s \<Longrightarrow> announced s s'"
  by (simp add: announced_def)

lemma announced_trans: "announced s1 s2 \<Longrightarrow> announced s2 s3 \<Longrightarrow> announced s1 s3"
  by (auto simp: announced_def)

lemma announced_changed: "bk_changed s < bk_changed s' \<Longrightarrow> announced s s'"
  by (simp add: announced_def)

lemma delete_announced: "announced s (fst (delete_backup i s))"
  by (simp add: delete_backup_def announced_def split: option.split)

lemma foldl_delete_announced: "announced s (foldl (\<lambda>st b. fst (delete_backup (b_id b) st)) s old)"
proof (induction old arbitrary: s)
  case (Cons b bs)
  then show ?case using delete_announced announced_trans by (simp, blast)
qed simp

lemma cleanup_announced: "announced s (cleanup_old_backups now s)"
  by (simp add: cleanup_old_backups_def Let_def foldl_delete_announced)

lemma collect_changed [simp]: "bk_changed (fst (collect_backup_data now s)) = bk_changed s"
  by (simp add: collect_backup_data_def Let_def split: prod.split)

lemma create_announced_gen:
  "announced s (fst (create_backup cd now silent s)) \<or>
   (silent \<and> bk_changed s \<le> bk_changed (fst (create_backup cd now silent s)))"
proof -
  obtain s1 d where c: "collect_backup_data now (s\<lparr>bk_next_id := Suc (bk_next_id s)\<rparr>) = (s1, d)" by fastforce
  have f: "bk_backups s1 = bk_backups s" "bk_changed s1 = bk_changed s" "bk_ipc s1 = bk_ipc s"
    using collect_fields [of now "s\<lparr>bk_next_id := Suc (bk_next_id s)\<rparr>"]
          collect_changed [of now "s\<lparr>bk_next_id := Suc (bk_next_id s)\<rparr>"] c by simp_all
  show ?thesis
  proof (cases "bk_ipc s")
    case False
    then show ?thesis using c f by (simp add: create_backup_def Let_def announced_def)
  next
    case True
    let ?s2 = "s1\<lparr>bk_files := (bk_files s1)(backup_path (bk_dir s) ''backup'' now (bk_next_id s) \<mapsto> d),
       bk_backups := bk_backups s1 @ [\<lparr>b_id = bk_next_id s, b_timestamp = now, b_size = cd_size cd d,
         b_path = backup_path (bk_dir s) ''backup'' now (bk_next_id s), b_checksum = cd_hash cd d, b_version = ''1.0'',
         b_device = bk_device s, b_items = backup_items d, b_app_version = Some (bk_app_version s)\<rparr>],
       bk_changed := (if silent then bk_changed s1 else Suc (bk_changed s1))\<rparr>"
    have e: "fst (create_backup cd now silent s) = cleanup_old_backups now ?s2"
      using True c f by (simp add: create_backup_def Let_def)
    have cl: "announced ?s2 (cleanup_old_backups now ?s2)" by (rule cleanup_announced)
    show ?thesis
    proof (cases silent)
      case True
      have "bk_changed s \<le> bk_changed (cleanup_old_backups now ?s2)" using cl f True by (simp add: announced_def)
      then show ?thesis using True unfolding e by blast
    next
      case False
      then have "announced s ?s2" using f by (simp add: announced_def)
      then have "announced s (cleanup_old_backups now ?s2)" using cl by (rule announced_trans)
      then show ?thesis unfolding e by blast
    qed
  qed
qed

lemma create_announced: "\<not> silent \<Longrightarrow> announced s (fst (create_backup cd now silent s))"
  using create_announced_gen by blast

lemma create_mono: "bk_changed s \<le> bk_changed (fst (create_backup cd now silent s))"
  using create_announced_gen [of s cd now silent] by (auto simp: announced_def)

lemma start_announced: "announced s (start_automatic_backups cd now skip s)"
  using create_announced [of False "s\<lparr>bk_timer := None\<rparr>" cd now]
  by (auto simp: start_automatic_backups_def stop_automatic_backups_def Let_def announced_def)

lemma enable_announced: "announced s (fst (enable_automatic_backups cd now ok s))"
  using start_announced [of "s\<lparr>bk_config := (bk_config s)\<lparr>bc_enabled := True\<rparr>\<rparr>" cd now False]
  by (auto simp: enable_automatic_backups_def Let_def announced_def split: sum.split)

lemma disable_announced: "announced s (fst (disable_automatic_backups ok s))"
  by (simp add: disable_automatic_backups_def stop_automatic_backups_def Let_def announced_def split: sum.split)

lemma update_announced: "announced s (fst (update_backup_config cd now ok p s))"
  using start_announced [of "s\<lparr>bk_config := apply_backup_patch (bk_config s) p\<rparr>" cd now False]
  by (auto simp: update_backup_config_def stop_automatic_backups_def Let_def announced_def split: sum.split)

lemma import_announced: "announced s (fst (import_backup cd now path s))"
  by (simp add: import_backup_def Let_def announced_def split: option.split)

lemma restore_body_announced:
  assumes "store_ready_bk s"
  shows "announced s (fst (restore_body cd now b s))"
proof -
  let ?s1 = "fst (create_backup cd now True s)"
  have r1: "store_ready_bk ?s1" using assms by (simp add: store_ready_bk_def)
  have m: "bk_changed s \<le> bk_changed ?s1" by (rule create_mono)
  show ?thesis
    using r1 m by (auto simp: restore_body_def Let_def announced_def split: option.split)
qed

lemma restore_announced:
  assumes "store_ready_bk s"
  shows "announced s (fst (restore_backup cd now i s))"
proof (cases "find (\<lambda>b. b_id b = i) (bk_backups s)")
  case (Some b)
  let ?s1 = "if bc_enabled (bk_config s) then stop_automatic_backups s else s"
  have a1: "announced s ?s1" "store_ready_bk ?s1"
    using assms by (simp_all add: stop_automatic_backups_def store_ready_bk_def announced_def)
  have a2: "announced ?s1 (fst (restore_body cd now b ?s1))" using a1(2) by (rule restore_body_announced)
  have a3: "announced t (if c then start_automatic_backups cd now True t else t)" for t c
    using start_announced by simp
  show ?thesis using Some announced_trans [OF announced_trans [OF a1(1) a2] a3]
    by (simp add: restore_backup_def Let_def split_def)
qed (simp add: restore_backup_def)

lemma update_announced_pair: "update_backup_config cd now ok p s = (s1, r) \<Longrightarrow> announced s s1"
  using update_announced [of s cd now ok p] by simp

lemma import_announced_pair: "import_backup cd now path s = (s1, r) \<Longrightarrow> announced s s1"
  using import_announced [of s cd now path] by simp

lemma announced_pair: "announced s (fst p) \<Longrightarrow> p = (s1, r) \<Longrightarrow> announced s s1"
  by simp

lemma bt_fields [simp]:
  "bt_backups (bt_note n t) = bt_backups t" "bt_backups (bt_load_config t s) = bt_backups t"
  "bt_backups (bt_load_backups t s) = get_backups s"
  by (simp_all add: bt_note_def bt_load_config_def bt_load_backups_def)

lemma bt_handle_view:
  assumes "store_ready_bk s"
  shows "bt_view_ok s t (bt_handle cd now a t s)"
proof (cases a)
  case (BtToggle ok)
  then show ?thesis
    using enable_announced [of s cd now ok] disable_announced [of s ok]
    by (auto simp: bt_view_ok_def bt_toggle_automatic_def split: prod.split sum.split)
next
  case (BtInterval ok v)
  then show ?thesis
    by (auto simp: bt_view_ok_def bt_update_interval_def Let_def split: prod.split sum.split
        dest: update_announced_pair)
next
  case (BtRetention ok v)
  then show ?thesis
    by (auto simp: bt_view_ok_def bt_update_retention_def Let_def split: prod.split sum.split
        dest: update_announced_pair)
next
  case (BtInclude ok it b)
  then show ?thesis
    by (auto simp: bt_view_ok_def bt_toggle_include_def Let_def split: prod.split sum.split
        dest: update_announced_pair)
next
  case BtCreate
  then show ?thesis using create_announced [of False s cd now]
    by (auto simp: bt_view_ok_def bt_create_manual_def split: prod.split sum.split)
next
  case (BtRestore c b)
  then show ?thesis using restore_announced [OF assms, of cd now "b_id b"]
    by (auto simp: bt_view_ok_def bt_restore_def split: prod.split sum.split)
next
  case (BtDelete c b)
  then show ?thesis using delete_announced [of s "b_id b"]
    by (auto simp: bt_view_ok_def bt_delete_def Let_def split: prod.split sum.split)
next
  case (BtImport ipc p)
  then show ?thesis
    by (auto simp: bt_view_ok_def bt_import_def split: prod.split sum.split option.split
        dest: import_announced_pair)
qed

subsection \<open>Properties\<close>

text \<open>C36. The backup settings tab never shows a stale list: after any of its handlers, together with the \<open>backupsChanged\<close> subscription, the backups it lists are exactly those \<open>getBackups\<close> returns, provided they were before and the configuration store is loaded. Backups created by enabling the schedule or changing its settings, or removed by the retention cleanup, reach the tab through the subscription.\<close>

theorem backup_tab_in_sync:
  assumes ready: "store_ready_bk s" and sync: "bt_backups t = get_backups s"
  shows "bt_backups (fst (bt_run cd now a t s)) = get_backups (snd (bt_run cd now a t s))"
proof -
  obtain t' s' where h: "bt_handle cd now a t s = (t', s')" by fastforce
  have v: "bt_view_ok s t (t', s')" using bt_handle_view [OF ready, of t cd now a] h by simp
  show ?thesis
  proof (cases "bk_changed s' = bk_changed s")
    case True
    then have "bk_backups s' = bk_backups s" using v by (simp add: bt_view_ok_def announced_def)
    then have "get_backups s' = get_backups s" by (simp add: get_backups_def)
    then show ?thesis using v True sync h by (auto simp: bt_run_def bt_sync_def bt_view_ok_def)
  next
    case False
    then show ?thesis using h by (simp add: bt_run_def bt_sync_def)
  qed
qed

lemma demo_bk_ready: "store_ready_bk demo_bk"
  by (simp add: demo_bk_def bk_init_def store_ready_bk_def ws_init_def ensure_workspaces_config_def)

theorem backup_tab_in_sync_witness:
  "bt_backups (fst (bt_run demo_codec 5 BtCreate (bt_on_init bt_init demo_bk) demo_bk)) =
     get_backups (snd (bt_run demo_codec 5 BtCreate (bt_on_init bt_init demo_bk) demo_bk))"
  using backup_tab_in_sync [OF demo_bk_ready, of "bt_on_init bt_init demo_bk" demo_codec 5 BtCreate]
  by (simp add: bt_on_init_def)

lemma wt_save_store_not_ready:
  "stored (ensure_workspaces_config s) = None \<Longrightarrow> trim v \<noteq> [] \<Longrightarrow>
     wt_save_current now (Some v) t s = (t, ensure_workspaces_config s)"
  by (simp add: wt_save_current_def save_workspace_def)

text \<open>
  A failed save while switching the schedule on: the service is left enabled without a
  timer, and the tab, whose handler stopped at the rejection, still shows it disabled.
\<close>

lemma bt_toggle_enable_save_fails:
  "\<not> bc_enabled (bt_config t) \<Longrightarrow> store_ready_bk s \<Longrightarrow>
     bt_toggle_automatic cd now False t s = (t, s\<lparr>bk_config := (bk_config s)\<lparr>bc_enabled := True\<rparr>\<rparr>)"
  by (simp add: bt_toggle_automatic_def enable_automatic_backups_def save_backup_config_def store_ready_bk_def)

end
