(* ===== verification/CommandHistory.thy ===== *)
theory CommandHistory
  imports Prelude "HOL-Library.Multiset"
begin

text \<open>
  The command history of the VS Code agent plugin: \<open>CommandHistoryManagerService\<close>
  (\<open>src/unnamed/part_005\<close>) and the history modal and running-commands dialog that
  present it (\<open>CommandHistoryModalComponent\<close> and \<open>RunningCommandsDialogComponent\<close> in
  \<open>src/builtin-plugins/tabby-vscode-agent/src/components/runningCommandsDialog.component.ts\<close>).
  \<^item> State: \<open>hist_state\<close> holds the history (newest first) and the \<open>localStorage\<close> item
    \<open>mcp_command_history\<close>; the stored JSON text is modelled by the entries it encodes.
  \<^item> Entry ids come from \<open>generateEntryId\<close> (time and a random suffix) and are an
    argument of \<open>add_command\<close>.
  \<^item> Library formatting the exports call is an argument: \<open>Date.toISOString\<close> and
    \<open>toLocaleString\<close> (\<open>fmt_date\<close>) and \<open>Number.toFixed(1)\<close> on seconds (\<open>to_fixed1\<close>).
  \<^item> Exit codes are integers or \<open>null\<close> (\<open>None\<close>); optional fields are options.
\<close>

record history_entry =
  he_id :: string
  he_command :: string
  he_output :: string
  he_prompt_shell :: "string option"
  he_exit_code :: "int option"
  he_timestamp :: nat
  he_aborted :: bool
  he_tab_id :: string
  he_tab_title :: "string option"
  he_duration :: "nat option"

record hist_state =
  hs_history :: "history_entry list"
  hs_storage :: "history_entry list option"

datatype history_filter = FilterAll | FilterSuccess | FilterFailed | FilterAborted

definition max_history_entries :: nat where
  "max_history_entries = 1000"

subsection \<open>The service\<close>

text \<open>\<open>saveHistoryToStorage\<close>\<close>

definition save_history :: "hist_state \<Rightarrow> hist_state" where
  "save_history s = s\<lparr>hs_storage := Some (hs_history s)\<rparr>"

text \<open>\<open>addCommand\<close>: the new entry first, the list cut to the most recent 1000.\<close>

definition add_command :: "string \<Rightarrow> history_entry \<Rightarrow> hist_state \<Rightarrow> hist_state \<times> string" where
  "add_command i e s =
     (let updated = e\<lparr>he_id := i\<rparr> # hs_history s
      in (save_history (s\<lparr>hs_history := take max_history_entries updated\<rparr>), i))"

definition get_command :: "string \<Rightarrow> hist_state \<Rightarrow> history_entry option" where
  "get_command i s = find (\<lambda>e. he_id e = i) (hs_history s)"

definition remove_command :: "string \<Rightarrow> hist_state \<Rightarrow> hist_state \<times> bool" where
  "remove_command i s =
     (let updated = filter (\<lambda>e. he_id e \<noteq> i) (hs_history s)
      in if length updated \<noteq> length (hs_history s)
         then (save_history (s\<lparr>hs_history := updated\<rparr>), True) else (s, False))"

definition clear_history :: "hist_state \<Rightarrow> hist_state" where
  "clear_history s = save_history (s\<lparr>hs_history := []\<rparr>)"

text \<open>\<open>searchHistory\<close>: case-insensitive substring match on command, output and tab title.\<close>

definition matches_search :: "string \<Rightarrow> history_entry \<Rightarrow> bool" where
  "matches_search term e =
     (let t = to_lower term in
      str_includes (to_lower (he_command e)) t \<or> str_includes (to_lower (he_output e)) t \<or>
      (case he_tab_title e of None \<Rightarrow> False | Some tt \<Rightarrow> tt \<noteq> [] \<and> str_includes (to_lower tt) t))"

definition search_history :: "string \<Rightarrow> hist_state \<Rightarrow> history_entry list" where
  "search_history term s =
     (if trim term = [] then hs_history s else filter (matches_search term) (hs_history s))"

text \<open>The status tests of \<open>getFilteredHistory\<close>: \<open>exitCode === 0\<close> and \<open>exitCode !== 0\<close>.\<close>

fun matches_filter :: "history_filter \<Rightarrow> history_entry \<Rightarrow> bool" where
  "matches_filter FilterSuccess e = (\<not> he_aborted e \<and> he_exit_code e = Some 0)"
| "matches_filter FilterFailed e = (\<not> he_aborted e \<and> he_exit_code e \<noteq> Some 0)"
| "matches_filter FilterAborted e = he_aborted e"
| "matches_filter FilterAll e = True"

definition get_filtered_history :: "history_filter \<Rightarrow> hist_state \<Rightarrow> history_entry list" where
  "get_filtered_history f s = filter (matches_filter f) (hs_history s)"

definition entry_status :: "history_entry \<Rightarrow> string" where
  "entry_status e =
     (if he_aborted e then ''ABORTED'' else if he_exit_code e = Some 0 then ''SUCCESS'' else ''FAILED'')"

subsection \<open>Exports\<close>

definition newline :: char where
  "newline = CHR 0x0A"

text \<open>\<open>exportCommandsOnly\<close>\<close>

definition export_commands_only :: "history_entry list \<Rightarrow> string" where
  "export_commands_only es = (if es = [] then [] else join_with [newline] (map he_command es))"

text \<open>\<open>formatDuration\<close> of the service (and, identically, of the history modal).\<close>

definition format_duration :: "(nat \<Rightarrow> string) \<Rightarrow> nat \<Rightarrow> string" where
  "format_duration to_fixed1 d =
     (if d < 1000 then nat_to_string d @ ''ms''
      else if d < 60000 then to_fixed1 d @ ''s''
      else nat_to_string (d div 60000) @ ''m '' @ nat_to_string ((d mod 60000) div 1000) @ ''s'')"

text \<open>\<open>exportCommandsWithOutput\<close>: one block of lines per entry, numbered from 1.\<close>

definition with_output_lines ::
  "(nat \<Rightarrow> string) \<Rightarrow> (nat \<Rightarrow> string) \<Rightarrow> nat \<Rightarrow> history_entry \<Rightarrow> string list" where
  "with_output_lines fmt_date to_fixed1 k e =
     [''# Entry '' @ nat_to_string (Suc k) @ '' - '' @ fmt_date (he_timestamp e) @ '' - '' @ entry_status e @
        (case he_duration e of Some d \<Rightarrow> if d \<noteq> 0 then '' ('' @ format_duration to_fixed1 d @ '')'' else [] | None \<Rightarrow> [])] @
     (case he_tab_title e of Some t \<Rightarrow> if t \<noteq> [] then [''# Terminal: '' @ t] else [] | None \<Rightarrow> []) @
     [''$ '' @ he_command e] @
     (if trim (he_output e) \<noteq> [] then [trim (he_output e)] else []) @
     (case he_exit_code e of Some c \<Rightarrow> [''# Exit Code: '' @ int_to_string c] | None \<Rightarrow> []) @
     [[]]"

definition export_with_output :: "(nat \<Rightarrow> string) \<Rightarrow> (nat \<Rightarrow> string) \<Rightarrow> history_entry list \<Rightarrow> string" where
  "export_with_output fmt_date to_fixed1 es =
     (if es = [] then []
      else join_with [newline] (concat (map (\<lambda>(k, e). with_output_lines fmt_date to_fixed1 k e) (enumerate 0 es))))"

text \<open>\<open>escapeCsvField\<close>: a field with a comma, quote, LF or CR is quoted, its quotes doubled.\<close>

definition csv_special :: "char \<Rightarrow> bool" where
  "csv_special c \<longleftrightarrow> c = CHR '','' \<or> c = CHR 0x22 \<or> c = CHR 0x0A \<or> c = CHR 0x0D"

definition escape_csv_field :: "string \<Rightarrow> string" where
  "escape_csv_field f =
     (if f = [] then []
      else if \<exists>c \<in> set f. csv_special c
      then CHR 0x22 # concat (map (\<lambda>c. if c = CHR 0x22 then [CHR 0x22, CHR 0x22] else [c]) f) @ [CHR 0x22]
      else f)"

definition csv_header :: string where
  "csv_header = ''Date,Command,Status,Exit Code,Duration (ms),Terminal,Output''"

definition csv_line :: "(nat \<Rightarrow> string) \<Rightarrow> history_entry \<Rightarrow> string" where
  "csv_line to_iso e =
     join_with '','' [to_iso (he_timestamp e), escape_csv_field (he_command e), entry_status e,
       (case he_exit_code e of Some c \<Rightarrow> int_to_string c | None \<Rightarrow> []),
       (case he_duration e of Some d \<Rightarrow> if d \<noteq> 0 then nat_to_string d else [] | None \<Rightarrow> []),
       escape_csv_field (case he_tab_title e of Some t \<Rightarrow> t | None \<Rightarrow> []),
       escape_csv_field (he_output e)]"

definition export_as_csv :: "(nat \<Rightarrow> string) \<Rightarrow> history_entry list \<Rightarrow> string" where
  "export_as_csv to_iso es = (if es = [] then [] else join_with [newline] (csv_header # map (csv_line to_iso) es))"

text \<open>
  \<open>exportAsJSON\<close>: the export object; the \<open>undefined\<close> optional fields of an entry are
  absent from the text, a \<open>null\<close> exit code is kept. \<open>None\<close> is the empty string the
  method returns for an empty list.
\<close>

definition json_entry :: "(nat \<Rightarrow> string) \<Rightarrow> history_entry \<Rightarrow> json" where
  "json_entry to_iso e =
     JObj ([(''id'', JStr (he_id e)), (''command'', JStr (he_command e)), (''output'', JStr (he_output e)),
            (''exitCode'', case he_exit_code e of None \<Rightarrow> JNull | Some c \<Rightarrow> JNum c),
            (''timestamp'', JNum (int (he_timestamp e))), (''date'', JStr (to_iso (he_timestamp e))),
            (''aborted'', JBool (he_aborted e)), (''tabId'', JStr (he_tab_id e))] @
           json_opt_field ''tabTitle'' JStr (he_tab_title e) @
           json_opt_field ''duration'' (\<lambda>d. JNum (int d)) (he_duration e) @
           [(''status'', JStr (entry_status e))])"

definition export_as_json :: "(nat \<Rightarrow> string) \<Rightarrow> nat \<Rightarrow> history_entry list \<Rightarrow> json option" where
  "export_as_json to_iso now es =
     (if es = [] then None
      else Some (JObj [(''exportDate'', JStr (to_iso now)), (''totalCommands'', JNum (int (length es))),
                       (''commands'', JArr (map (json_entry to_iso) es))]))"

text \<open>
  RFC 4180 reading of one CSV line, the reference the escaping is checked against: a field
  that starts with a quote runs to the closing quote, a doubled quote inside standing for
  one quote; fields are separated by commas.
\<close>

fun csv_parse :: "bool \<Rightarrow> string \<Rightarrow> string \<Rightarrow> string list" where
  "csv_parse q cur [] = [rev cur]"
| "csv_parse False cur (c # cs) =
     (if c = CHR '','' then rev cur # csv_parse False [] cs
      else if c = CHR 0x22 \<and> cur = [] then csv_parse True [] cs
      else csv_parse False (c # cur) cs)"
| "csv_parse True cur (c # cs) =
     (if c = CHR 0x22
      then (case cs of d # ds \<Rightarrow> if d = CHR 0x22 then csv_parse True (CHR 0x22 # cur) ds else csv_parse False cur cs
            | [] \<Rightarrow> csv_parse False cur cs)
      else csv_parse True (c # cur) cs)"

text \<open>
  \<open>exportAsMarkdown\<close>. The status marks are the UTF-8 bytes of the emoji the code
  writes (U+26A0 U+FE0F, U+2705, U+274C).
\<close>

definition md_status :: "history_entry \<Rightarrow> string" where
  "md_status e =
     (if he_aborted e then [CHR 0xE2, CHR 0x9A, CHR 0xA0, CHR 0xEF, CHR 0xB8, CHR 0x8F] @ '' ABORTED''
      else if he_exit_code e = Some 0 then [CHR 0xE2, CHR 0x9C, CHR 0x85] @ '' SUCCESS''
      else [CHR 0xE2, CHR 0x9D, CHR 0x8C] @ '' FAILED'')"

definition markdown_lines ::
  "(nat \<Rightarrow> string) \<Rightarrow> (nat \<Rightarrow> string) \<Rightarrow> nat \<Rightarrow> history_entry \<Rightarrow> string list" where
  "markdown_lines fmt_date to_fixed1 k e =
     [''## Command '' @ nat_to_string (Suc k), ''**Date:** '' @ fmt_date (he_timestamp e),
      ''**Status:** '' @ md_status e @
        (case he_duration e of Some d \<Rightarrow> if d \<noteq> 0 then '' ('' @ format_duration to_fixed1 d @ '')'' else [] | None \<Rightarrow> [])] @
     (case he_tab_title e of Some t \<Rightarrow> if t \<noteq> [] then [''**Terminal:** '' @ t] else [] | None \<Rightarrow> []) @
     [''**Exit Code:** '' @ (case he_exit_code e of Some c \<Rightarrow> int_to_string c | None \<Rightarrow> ''N/A''),
      [], ''### Command'', ''```bash'', he_command e, ''```'', []] @
     (if trim (he_output e) \<noteq> [] then [''### Output'', ''```'', trim (he_output e), ''```'', []] else []) @
     [''---'', []]"

definition export_as_markdown ::
  "(nat \<Rightarrow> string) \<Rightarrow> (nat \<Rightarrow> string) \<Rightarrow> nat \<Rightarrow> history_entry list \<Rightarrow> string" where
  "export_as_markdown fmt_date to_fixed1 now es =
     (if es = [] then []
      else join_with [newline]
        ([''# Command History Export'', ''**Export Date:** '' @ fmt_date now,
          ''**Total Commands:** '' @ nat_to_string (length es), [], ''---'', []] @
         concat (map (\<lambda>(k, e). markdown_lines fmt_date to_fixed1 k e) (enumerate 0 es))))"

subsection \<open>Persistence\<close>

text \<open>\<open>loadHistoryFromStorage\<close>: entries with an empty id or command or a zero timestamp are dropped.\<close>

definition valid_entry :: "history_entry \<Rightarrow> bool" where
  "valid_entry e \<longleftrightarrow> he_id e \<noteq> [] \<and> he_command e \<noteq> [] \<and> he_timestamp e \<noteq> 0"

definition load_history :: "hist_state \<Rightarrow> hist_state" where
  "load_history s =
     s\<lparr>hs_history := (case hs_storage s of None \<Rightarrow> [] | Some h \<Rightarrow> filter valid_entry h)\<rparr>"

subsection \<open>The service as a state machine\<close>

text \<open>
  The operations that change the history, and a restart of the plugin, which builds a
  new service whose constructor loads the history back from \<open>localStorage\<close>. The first
  start finds no stored history.
\<close>

datatype hist_op = HAdd string history_entry | HRemove string | HClear | HRestart

fun hist_step :: "hist_op \<Rightarrow> hist_state \<Rightarrow> hist_state" where
  "hist_step (HAdd i e) s = fst (add_command i e s)"
| "hist_step (HRemove i) s = fst (remove_command i s)"
| "hist_step HClear s = clear_history s"
| "hist_step HRestart s = load_history s"

definition hist_init :: hist_state where
  "hist_init = load_history \<lparr>hs_history = [], hs_storage = None\<rparr>"

inductive hist_reachable :: "hist_state \<Rightarrow> bool" where
  init: "hist_reachable hist_init"
| step: "hist_reachable s \<Longrightarrow> hist_reachable (hist_step op s)"

subsection \<open>The history modal\<close>

record modal_state =
  md_search :: string
  md_filter :: history_filter
  md_expanded :: "string set"

text \<open>
  \<open>updateFilteredHistory\<close>: the status filter of the service; when the search term is
  not blank, the search results instead, filtered again by status unless the filter is
  \<open>all\<close>.
\<close>

definition update_filtered_history :: "modal_state \<Rightarrow> hist_state \<Rightarrow> history_entry list" where
  "update_filtered_history m s =
     (let h = get_filtered_history (md_filter m) s in
      if trim (md_search m) \<noteq> []
      then (let r = search_history (md_search m) s in
            if md_filter m \<noteq> FilterAll then filter (matches_filter (md_filter m)) r else r)
      else h)"

text \<open>\<open>clearSearch\<close>, \<open>removeEntry\<close> and \<open>clearAllHistory\<close> (after the \<open>confirm\<close> dialog).\<close>

definition clear_search :: "modal_state \<Rightarrow> modal_state" where
  "clear_search m = m\<lparr>md_search := []\<rparr>"

definition modal_remove_entry :: "string \<Rightarrow> hist_state \<Rightarrow> hist_state" where
  "modal_remove_entry i s = fst (remove_command i s)"

definition modal_clear_all :: "bool \<Rightarrow> hist_state \<Rightarrow> hist_state" where
  "modal_clear_all confirmed s = (if confirmed then clear_history s else s)"

definition toggle_output_expanded :: "string \<Rightarrow> modal_state \<Rightarrow> modal_state" where
  "toggle_output_expanded i m =
     (if i \<in> md_expanded m then m\<lparr>md_expanded := md_expanded m - {i}\<rparr>
      else m\<lparr>md_expanded := insert i (md_expanded m)\<rparr>)"

text \<open>\<open>getDisplayOutput\<close>: collapsed output is cut to 200 characters and marked.\<close>

definition display_output :: "modal_state \<Rightarrow> history_entry \<Rightarrow> string" where
  "display_output m e =
     (if he_output e = [] then []
      else if he_id e \<in> md_expanded m then he_output e
      else if length (he_output e) > 200 then take 200 (he_output e) @ ''...'' else he_output e)"

definition status_badge_class :: "history_entry \<Rightarrow> string" where
  "status_badge_class e =
     (if he_aborted e then ''bg-warning'' else if he_exit_code e = Some 0 then ''bg-success'' else ''bg-danger'')"

definition status_icon :: "history_entry \<Rightarrow> string" where
  "status_icon e = (if he_aborted e then ''fa-ban'' else if he_exit_code e = Some 0 then ''fa-check'' else ''fa-times'')"

definition status_text :: "history_entry \<Rightarrow> string" where
  "status_text e = (if he_aborted e then ''Aborted'' else if he_exit_code e = Some 0 then ''Success'' else ''Failed'')"

definition relative_time :: "nat \<Rightarrow> nat \<Rightarrow> string" where
  "relative_time now ts =
     (let diff = now - ts; minutes = diff div 60000; hours = diff div 3600000; days = diff div 86400000 in
      if minutes < 1 then ''Just now''
      else if minutes < 60 then nat_to_string minutes @ ''m ago''
      else if hours < 24 then nat_to_string hours @ ''h ago''
      else nat_to_string days @ ''d ago'')"

text \<open>
  The modal's export and copy buttons: all entries or the filtered ones; an empty export
  raises an alert, otherwise the content is downloaded under a generated name or copied.
  \<open>ts\<close> is the ISO time with \<open>:\<close> and \<open>.\<close> replaced and the milliseconds cut.
\<close>

datatype export_format = CommandsOnly | WithOutput | AsJson | AsCsv | AsMarkdown

datatype export_result = AlertNothing | Download string string | Clipboard string

fun export_filename :: "export_format \<Rightarrow> bool \<Rightarrow> string \<Rightarrow> string" where
  "export_filename CommandsOnly all ts = ''command-history-commands-'' @ (if all then ''all'' else ''filtered'') @ ''-'' @ ts @ ''.json''"
| "export_filename WithOutput all ts = ''command-history-full-'' @ (if all then ''all'' else ''filtered'') @ ''-'' @ ts @ ''.txt''"
| "export_filename AsJson all ts = ''command-history-commands-'' @ (if all then ''all'' else ''filtered'') @ ''-'' @ ts @ ''.json''"
| "export_filename AsCsv all ts = ''command-history-commands-'' @ (if all then ''all'' else ''filtered'') @ ''-'' @ ts @ ''.csv''"
| "export_filename AsMarkdown all ts = ''command-history-commands-'' @ (if all then ''all'' else ''filtered'') @ ''-'' @ ts @ ''.md''"

definition modal_export ::
  "(history_entry list \<Rightarrow> string) \<Rightarrow> export_format \<Rightarrow> bool \<Rightarrow> string \<Rightarrow> modal_state \<Rightarrow> hist_state \<Rightarrow> export_result" where
  "modal_export content fmt all ts m s =
     (let es = (if all then hs_history s else update_filtered_history m s); c = content es in
      if c = [] then AlertNothing else Download (export_filename fmt all ts) c)"

definition modal_copy :: "(history_entry list \<Rightarrow> string) \<Rightarrow> modal_state \<Rightarrow> hist_state \<Rightarrow> export_result" where
  "modal_copy content m s =
     (let c = content (update_filtered_history m s) in if c = [] then AlertNothing else Clipboard c)"

subsection \<open>The running-commands manager\<close>

text \<open>
  \<open>RunningCommandsManagerService\<close> (\<open>services/runningCommandsManager.service.ts\<close>):
  a \<open>Map\<close> from terminal tab id to the command running there, in insertion order.
  \<open>startCommand\<close> on a tab that already runs a command replaces it in place.
\<close>

record running_command =
  rc_tab_id :: string
  rc_command :: string
  rc_start :: nat

type_synonym running_map = "(string, running_command) jsmap"

definition rcm_start_command :: "nat \<Rightarrow> string \<Rightarrow> string \<Rightarrow> running_map \<Rightarrow> running_map" where
  "rcm_start_command now tab cmd m = jsmap_set tab \<lparr>rc_tab_id = tab, rc_command = cmd, rc_start = now\<rparr> m"

definition rcm_end_command :: "string \<Rightarrow> running_map \<Rightarrow> running_map" where
  "rcm_end_command tab m = jsmap_delete tab m"

definition rcm_get_all :: "running_map \<Rightarrow> running_command list" where
  "rcm_get_all m = map snd m"

definition rcm_is_running :: "string \<Rightarrow> running_map \<Rightarrow> bool" where
  "rcm_is_running tab m \<longleftrightarrow> map_of m tab \<noteq> None"

definition rcm_clear_all :: "running_map \<Rightarrow> running_map" where
  "rcm_clear_all m = []"

datatype rcm_op = RcStart nat string string | RcEnd string | RcClear

fun rcm_step :: "rcm_op \<Rightarrow> running_map \<Rightarrow> running_map" where
  "rcm_step (RcStart now tab cmd) m = rcm_start_command now tab cmd m"
| "rcm_step (RcEnd tab) m = rcm_end_command tab m"
| "rcm_step RcClear m = rcm_clear_all m"

inductive rcm_reachable :: "running_map \<Rightarrow> bool" where
  init: "rcm_reachable []"
| step: "rcm_reachable m \<Longrightarrow> rcm_reachable (rcm_step op m)"

subsection \<open>The running-commands dialog\<close>

text \<open>\<open>formatDuration\<close> of the dialog: hours, minutes and seconds.\<close>

definition format_hms :: "nat \<Rightarrow> string" where
  "format_hms ms =
     (let seconds = ms div 1000; minutes = seconds div 60; hours = minutes div 60 in
      if hours > 0 then nat_to_string hours @ ''h '' @ nat_to_string (minutes mod 60) @ ''m '' @ nat_to_string (seconds mod 60) @ ''s''
      else if minutes > 0 then nat_to_string minutes @ ''m '' @ nat_to_string (seconds mod 60) @ ''s''
      else nat_to_string seconds @ ''s'')"

definition command_preview :: "string \<Rightarrow> string" where
  "command_preview c = (if length c \<le> 50 then c else take 47 c @ ''...'')"

text \<open>\<open>refreshRunningCommands\<close>: newest start first, each with its running time.\<close>

definition refresh_running :: "nat \<Rightarrow> running_command list \<Rightarrow> (running_command \<times> string) list" where
  "refresh_running now cs =
     map (\<lambda>c. (c, format_hms (now - rc_start c))) (sort_key (\<lambda>c. - int (rc_start c)) cs)"

subsection \<open>Reference definitions and invariant\<close>

text \<open>
  \<open>csv_quote_body\<close> is the body of a quoted field (\<open>field.replace(/"/g, '""')\<close>);
  \<open>csv_plain\<close> holds of a field the escaping leaves as it is; \<open>csv_fields\<close> are the
  seven values \<open>exportAsCSV\<close> writes for an entry, before escaping.
\<close>

definition csv_quote_body :: "string \<Rightarrow> string" where
  "csv_quote_body f = concat (map (\<lambda>c. if c = CHR 0x22 then [CHR 0x22, CHR 0x22] else [c]) f)"

definition csv_plain :: "string \<Rightarrow> bool" where
  "csv_plain f \<longleftrightarrow> (\<forall>c \<in> set f. \<not> csv_special c)"

definition csv_fields :: "(nat \<Rightarrow> string) \<Rightarrow> history_entry \<Rightarrow> string list" where
  "csv_fields to_iso e =
     [to_iso (he_timestamp e), he_command e, entry_status e,
      (case he_exit_code e of Some c \<Rightarrow> int_to_string c | None \<Rightarrow> []),
      (case he_duration e of Some d \<Rightarrow> if d \<noteq> 0 then nat_to_string d else [] | None \<Rightarrow> []),
      (case he_tab_title e of Some t \<Rightarrow> t | None \<Rightarrow> []), he_output e]"

text \<open>
  The invariant of the service: at most 1000 entries in memory and in storage, and the
  stored list agrees with the in-memory one on the entries a reload keeps.
\<close>

definition hist_inv :: "hist_state \<Rightarrow> bool" where
  "hist_inv s \<longleftrightarrow> length (hs_history s) \<le> max_history_entries \<and>
     (case hs_storage s of None \<Rightarrow> hs_history s = []
      | Some h \<Rightarrow> length h \<le> max_history_entries \<and> filter valid_entry h = filter valid_entry (hs_history s))"

text \<open>The manager's map is keyed by the tab id each command records.\<close>

definition rcm_inv :: "running_map \<Rightarrow> bool" where
  "rcm_inv m \<longleftrightarrow> distinct (jsmap_keys m) \<and> map rc_tab_id (map snd m) = jsmap_keys m"

text \<open>An entry for the concrete checks.\<close>

definition demo_entry :: history_entry where
  "demo_entry = \<lparr>he_id = ''hist_1'', he_command = ''echo \"a,b\"'', he_output = ''a,b'',
     he_prompt_shell = None, he_exit_code = Some 0, he_timestamp = 1700000000000, he_aborted = False,
     he_tab_id = ''1'', he_tab_title = Some ''bash'', he_duration = Some 1500\<rparr>"

subsection \<open>CSV escaping\<close>

lemma csv_parse_plain:
  "\<forall>c \<in> set f. c \<noteq> CHR '','' \<and> c \<noteq> CHR 0x22 \<Longrightarrow> csv_parse False cur (f @ r) = csv_parse False (rev f @ cur) r"
  by (induction f arbitrary: cur) auto

lemma csv_parse_quoted:
  "(r = [] \<or> hd r \<noteq> CHR 0x22) \<Longrightarrow>
   csv_parse True cur (csv_quote_body f @ CHR 0x22 # r) = csv_parse False (rev f @ cur) r"
proof (induction f arbitrary: cur)
  case Nil
  then show ?case by (cases r) (auto simp: csv_quote_body_def)
next
  case (Cons c f)
  then show ?case by (auto simp: csv_quote_body_def)
qed

lemma csv_parse_escape:
  "csv_parse False [] (escape_csv_field f @ CHR '','' # r) = f # csv_parse False [] r \<and>
   csv_parse False [] (escape_csv_field f) = [f]"
proof (cases "f = []")
  case True
  then show ?thesis by (simp add: escape_csv_field_def)
next
  case False
  show ?thesis
  proof (cases "\<exists>c \<in> set f. csv_special c")
    case True
    have e: "escape_csv_field f = CHR 0x22 # csv_quote_body f @ [CHR 0x22]"
      using True False by (simp add: escape_csv_field_def csv_quote_body_def)
    show ?thesis
      using csv_parse_quoted [of "CHR '','' # r" "[]" f] csv_parse_quoted [of "[]" "[]" f] by (simp add: e)
  next
    case nt: False
    then have p: "\<forall>c \<in> set f. c \<noteq> CHR '','' \<and> c \<noteq> CHR 0x22" by (auto simp: csv_special_def)
    have e: "escape_csv_field f = f" using nt False by (simp add: escape_csv_field_def)
    show ?thesis using csv_parse_plain [OF p, of "[]" "CHR '','' # r"] csv_parse_plain [OF p, of "[]" "[]"]
      by (simp add: e)
  qed
qed

lemma csv_parse_join_escape:
  "fs \<noteq> [] \<Longrightarrow> csv_parse False [] (join_with '','' (map escape_csv_field fs)) = fs"
proof (induction fs rule: induct_list012)
  case (2 x)
  then show ?case using csv_parse_escape [of x "[]"] by simp
next
  case (3 x y zs)
  then show ?case using csv_parse_escape [of x "join_with '','' (map escape_csv_field (y # zs))"] by simp
qed simp

lemma escape_csv_plain: "csv_plain f \<Longrightarrow> escape_csv_field f = f"
  by (auto simp: escape_csv_field_def csv_plain_def)

lemma escape_csv_field_Nil [simp]: "escape_csv_field [] = []"
  by (simp add: escape_csv_field_def)

lemma csv_plain_nat_to_string: "csv_plain (nat_to_string n)"
proof -
  have "\<not> csv_special c" if "c \<in> set (nat_to_string n)" for c
    using nat_to_string_digits [OF that] by (auto simp: csv_special_def)
  then show ?thesis by (simp add: csv_plain_def)
qed

lemma csv_plain_int_to_string: "csv_plain (int_to_string i)"
  using csv_plain_nat_to_string by (simp add: int_to_string_def csv_plain_def csv_special_def)

lemma csv_plain_entry_status: "csv_plain (entry_status e)"
  by (simp add: entry_status_def csv_plain_def csv_special_def)

subsection \<open>The service\<close>

lemma hist_inv_init: "hist_inv hist_init"
  by (simp add: hist_inv_def hist_init_def load_history_def)

lemma hist_inv_step: "hist_inv s \<Longrightarrow> hist_inv (hist_step op s)"
proof (cases op)
  case (HRestart)
  assume inv: "hist_inv s"
  show ?thesis
  proof (cases "hs_storage s")
    case (Some h)
    then have "length (filter valid_entry h) \<le> max_history_entries"
      using inv length_filter_le [of valid_entry h] by (simp add: hist_inv_def)
    then show ?thesis using HRestart Some inv by (simp add: hist_inv_def load_history_def)
  qed (simp add: HRestart hist_inv_def load_history_def)
qed (auto simp: hist_inv_def add_command_def remove_command_def clear_history_def save_history_def Let_def
          split: option.splits intro: le_trans [OF length_filter_le])

lemma hist_reachable_hist_inv: "hist_reachable s \<Longrightarrow> hist_inv s"
  by (induction rule: hist_reachable.induct) (auto intro: hist_inv_init hist_inv_step)

lemma hist_inv_reload: "hist_inv s \<Longrightarrow> hs_history (load_history s) = filter valid_entry (hs_history s)"
  by (auto simp: hist_inv_def load_history_def split: option.splits)

subsection \<open>The running-commands manager\<close>

lemma rcm_inv_step: "rcm_inv m \<Longrightarrow> rcm_inv (rcm_step op m)"
proof (cases op)
  case (RcStart now tab cmd)
  assume "rcm_inv m"
  moreover have "map rc_tab_id (map snd (jsmap_set tab v m)) = jsmap_keys (jsmap_set tab v m)"
    if "map rc_tab_id (map snd m) = jsmap_keys m" "rc_tab_id v = tab" for v
    using that by (induction tab v m rule: jsmap_set.induct) (auto simp: jsmap_keys_def)
  ultimately show ?thesis using RcStart
    by (simp add: rcm_inv_def rcm_start_command_def distinct_jsmap_set)
next
  case (RcEnd tab)
  assume "rcm_inv m"
  moreover have "map rc_tab_id (map snd (jsmap_delete tab m)) = jsmap_keys (jsmap_delete tab m)"
    if "map rc_tab_id (map snd m) = jsmap_keys m" 
    using that by (induction m) (auto simp: jsmap_keys_def jsmap_delete_def)
  ultimately show ?thesis using RcEnd
    by (simp add: rcm_inv_def rcm_end_command_def distinct_jsmap_delete)
qed (simp add: rcm_inv_def rcm_clear_all_def jsmap_keys_def)

lemma rcm_reachable_inv: "rcm_reachable m \<Longrightarrow> rcm_inv m"
proof (induction rule: rcm_reachable.induct)
  case init
  then show ?case by (simp add: rcm_inv_def jsmap_keys_def)
next
  case (step m op)
  from step.IH show ?case by (rule rcm_inv_step)
qed

lemma rcm_is_running_keys: "rcm_is_running tab m \<longleftrightarrow> tab \<in> set (jsmap_keys m)"
  by (simp add: rcm_is_running_def jsmap_keys_def map_of_eq_None_iff)

subsection \<open>Properties\<close>





text \<open>C33. The success, failed and aborted filters of \<open>getFilteredHistory\<close> partition the history: every entry is in exactly one of them, counting duplicates; \<open>all\<close> is the whole history. An entry whose exit code is \<open>null\<close> and that was not aborted falls under failed.\<close>

theorem filtered_history_partition:
  "mset (get_filtered_history FilterSuccess s) + mset (get_filtered_history FilterFailed s) +
     mset (get_filtered_history FilterAborted s) = mset (hs_history s) \<and>
   get_filtered_history FilterAll s = hs_history s"
proof -
  have "mset (filter (matches_filter FilterSuccess) xs) + mset (filter (matches_filter FilterFailed) xs) +
      mset (filter (matches_filter FilterAborted) xs) = mset xs" for xs
    by (induction xs) auto
  then show ?thesis by (simp add: get_filtered_history_def)
qed

text \<open>C34. The modal's two-stage filtering (\<open>updateFilteredHistory\<close>: status filter, or search results filtered again by status) selects exactly the entries that match the status filter and, when the search term is not blank, the search.\<close>

theorem update_filtered_history_spec:
  "update_filtered_history m s =
     filter (\<lambda>e. matches_filter (md_filter m) e \<and> (trim (md_search m) = [] \<or> matches_search (md_search m) e)) (hs_history s)"
  by (cases "md_filter m")
     (auto simp: update_filtered_history_def get_filtered_history_def search_history_def Let_def
        intro!: filter_cong)



text \<open>The history modal gives two export formats the same file name exactly when they are the commands-only export and the JSON export: the plain-text commands-only export is saved as \<open>.json\<close>, under the JSON export's name.\<close>

theorem export_filenames_collide:
  "export_filename f1 all ts = export_filename f2 all ts \<longleftrightarrow> f1 = f2 \<or> {f1, f2} = {CommandsOnly, AsJson}"
  by (cases f1; cases f2) auto

text \<open>C37. Whatever sequence of \<open>startCommand\<close>, \<open>endCommand\<close> and \<open>clearAll\<close> calls the running-commands manager has seen, the running-commands dialog lists every tab that runs a command exactly once, newest start first, each with the formatted time it has been running.\<close>

theorem dialog_lists_running:
  "rcm_reachable m \<Longrightarrow>
     distinct (map (rc_tab_id \<circ> fst) (refresh_running now (rcm_get_all m))) \<and>
     set (map (rc_tab_id \<circ> fst) (refresh_running now (rcm_get_all m))) = {tab. rcm_is_running tab m} \<and>
     sorted_wrt (\<lambda>a b. rc_start b \<le> rc_start a) (map fst (refresh_running now (rcm_get_all m))) \<and>
     map snd (refresh_running now (rcm_get_all m)) =
       map (\<lambda>c. format_hms (now - rc_start c)) (map fst (refresh_running now (rcm_get_all m)))"
proof -
  assume "rcm_reachable m"
  then have inv: "rcm_inv m" by (rule rcm_reachable_inv)
  let ?cs = "sort_key (\<lambda>c. - int (rc_start c)) (rcm_get_all m)"
  have ms: "mset (map rc_tab_id ?cs) = mset (jsmap_keys m)"
  proof -
    have "mset (map rc_tab_id ?cs) = image_mset rc_tab_id (mset (rcm_get_all m))" by simp
    also have "\<dots> = mset (map rc_tab_id (map snd m))" by (simp only: rcm_get_all_def mset_map)
    also have "map rc_tab_id (map snd m) = jsmap_keys m" using inv rcm_inv_def by blast
    finally show ?thesis .
  qed
  have "sorted (map (\<lambda>c. - int (rc_start c)) ?cs)" by (rule sorted_sort_key)
  then have so: "sorted_wrt (\<lambda>a b. rc_start b \<le> rc_start a) ?cs" by (simp add: sorted_wrt_map)
  have "distinct (map rc_tab_id ?cs)"
    using inv ms by (metis distinct_count_atmost_1 rcm_inv_def mset_eq_setD count_mset)
  moreover have "set (map rc_tab_id ?cs) = set (jsmap_keys m)" using ms by (metis set_mset_mset)
  ultimately show ?thesis using so
    by (simp add: refresh_running_def comp_def rcm_is_running_keys)
qed

theorem dialog_lists_running_witness:
  "distinct (map (rc_tab_id \<circ> fst) (refresh_running 9000 (rcm_get_all
     (rcm_step (RcStart 7000 ''2'' ''npm test'') (rcm_step (RcStart 5000 ''1'' ''make'') [])))))"
  using dialog_lists_running [OF rcm_reachable.step [OF rcm_reachable.step [OF rcm_reachable.init]]] by blast

text \<open>A collapsed output in the history modal shows at most 203 characters, beginning with the first 200 of the output, and a command preview in the running-commands dialog at most 50, beginning with the first 47 of the command.\<close>

theorem preview_bounded:
  "he_id e \<notin> md_expanded m \<Longrightarrow>
     length (display_output m e) \<le> 203 \<and> take 200 (display_output m e) = take 200 (he_output e) \<and>
     length (command_preview c) \<le> 50 \<and> take 47 (command_preview c) = take 47 c"
  by (auto simp: display_output_def command_preview_def)

theorem preview_bounded_witness:
  "length (display_output \<lparr>md_search = [], md_filter = FilterAll, md_expanded = {}\<rparr> demo_entry) \<le> 203 \<and>
   length (command_preview (he_command demo_entry)) \<le> 50"
  using preview_bounded [of demo_entry "\<lparr>md_search = [], md_filter = FilterAll, md_expanded = {}\<rparr>" "he_command demo_entry"]
  by simp

end
