(* ===== verification/Dialogs.thy ===== *)
theory Dialogs
  imports Prelude
begin

text \<open>
  The dialogs of the VS Code agent plugin: \<open>DialogManagerService\<close>
  (\<open>services/dialogManager.service.ts\<close>), which shows one dialog at a time and queues the
  rest, \<open>MinimizedDialogManagerService\<close> (\<open>src/unnamed/part_006\<close>), the list of minimized
  dialogs, the confirm-command dialog's buttons (\<open>components/confirmCommandDialog.component.ts\<close>)
  and the restore path of \<open>MinimizedDialogsModalComponent\<close>
  (\<open>components/minimizedModal.component.ts\<close>).
  \<^item> A request is the promise \<open>openDialog\<close> returns; it is named by a number from a counter,
    and its settlement (\<open>resolve\<close> or \<open>reject\<close>) is recorded in \<open>dm_settled\<close> in order.
    A promise settles once: the first record of a request is its outcome.
  \<^item> A displayed modal is named by its component's \<open>dialogId\<close> (\<open>generateDialogId\<close>, a
    counter here); it holds the request whose promise its result settles: the request it
    was opened for, or for a restored dialog the stored \<open>promiseResolver\<close>.
  \<^item> \<open>setTimeout(() => showDialog(next), 100)\<close> is a list of pending timers fired by the
    event \<open>DTimer\<close>, so that other events can happen in the 100 ms before it fires.
  \<^item> \<open>ngbModal.open\<close> is assumed not to throw, and no dialog is dismissed other than
    by minimizing (the confirm dialog is static and ignores Escape).
\<close>

subsection \<open>Minimized dialogs\<close>

record minimized_dialog =
  mn_id :: nat
  mn_title :: string
  mn_command :: string
  mn_timestamp :: nat
  mn_resolver :: "nat option"

text \<open>\<open>minimizeDialog\<close>: an entry with the same id is replaced in place, a new one appended.\<close>

definition minimize_dialog :: "minimized_dialog \<Rightarrow> minimized_dialog list \<Rightarrow> minimized_dialog list" where
  "minimize_dialog d ds =
     (case find_idx (\<lambda>x. mn_id x = mn_id d) ds of Some k \<Rightarrow> ds[k := d] | None \<Rightarrow> ds @ [d])"

definition restore_dialog :: "nat \<Rightarrow> minimized_dialog list \<Rightarrow> minimized_dialog list \<times> minimized_dialog option" where
  "restore_dialog i ds =
     (case find (\<lambda>x. mn_id x = i) ds of
        Some d \<Rightarrow> (filter (\<lambda>x. mn_id x \<noteq> i) ds, Some d)
      | None \<Rightarrow> (ds, None))"

definition close_minimized_dialog :: "nat \<Rightarrow> minimized_dialog list \<Rightarrow> minimized_dialog list" where
  "close_minimized_dialog i ds = filter (\<lambda>x. mn_id x \<noteq> i) ds"

definition is_dialog_minimized :: "nat \<Rightarrow> minimized_dialog list \<Rightarrow> bool" where
  "is_dialog_minimized i ds = list_ex (\<lambda>x. mn_id x = i) ds"

text \<open>
  The most recently minimized dialog as \<open>storePromiseResolverForMinimizedDialog\<close> finds
  it: \<open>reduce\<close> keeping the first of the entries with the greatest timestamp.
\<close>

fun most_recent :: "minimized_dialog list \<Rightarrow> minimized_dialog option" where
  "most_recent [] = None"
| "most_recent (d # ds) = Some (foldl (\<lambda>l c. if mn_timestamp l < mn_timestamp c then c else l) d ds)"

subsection \<open>The dialog manager\<close>

record modal =
  mo_dialog :: nat
  mo_command :: string
  mo_req :: "nat option"
  mo_managed :: bool

text \<open>
  Results of the confirm-command dialog: \<open>confirm()\<close>, \<open>cancel()\<close>, \<open>reject()\<close> with its
  message, and \<open>closeActiveDialog()\<close>, which closes with \<open>undefined\<close>.
\<close>

datatype dialog_result = Confirmed | Cancelled | RejectedMsg string | Closed

datatype settlement = Resolved dialog_result | Rejected string

record dm_state =
  dm_active :: "nat option"
  dm_queue :: "(nat \<times> string) list"
  dm_timers :: "(nat \<times> string) list"
  dm_shown :: "modal list"
  dm_min :: "minimized_dialog list"
  dm_settled :: "(nat \<times> settlement) list"
  dm_trap :: bool
  dm_next_req :: nat
  dm_next_dialog :: nat

text \<open>\<open>showDialog\<close>: open the modal, make it the active dialog, install the Tab trap.\<close>

definition show_dialog :: "nat \<times> string \<Rightarrow> dm_state \<Rightarrow> dm_state" where
  "show_dialog rq s =
     (let i = dm_next_dialog s in
      s\<lparr>dm_active := Some i,
        dm_shown := dm_shown s @ [\<lparr>mo_dialog = i, mo_command = snd rq, mo_req = Some (fst rq), mo_managed = True\<rparr>],
        dm_trap := True, dm_next_dialog := Suc i\<rparr>)"

text \<open>\<open>openDialog\<close>: shown at once when no dialog is active, queued otherwise.\<close>

definition open_dialog :: "string \<Rightarrow> dm_state \<Rightarrow> dm_state \<times> nat" where
  "open_dialog cmd s =
     (let r = dm_next_req s; s1 = s\<lparr>dm_next_req := Suc r\<rparr> in
      (if dm_active s = None then show_dialog (r, cmd) s1 else s1\<lparr>dm_queue := dm_queue s @ [(r, cmd)]\<rparr>, r))"

text \<open>\<open>handleDialogClosed\<close>: no active dialog; the head of the queue is scheduled.\<close>

definition handle_dialog_closed :: "dm_state \<Rightarrow> dm_state" where
  "handle_dialog_closed s =
     (case dm_queue s of
        [] \<Rightarrow> s\<lparr>dm_trap := False, dm_active := None\<rparr>
      | q # qs \<Rightarrow> s\<lparr>dm_trap := False, dm_active := None, dm_queue := qs, dm_timers := dm_timers s @ [q]\<rparr>)"

definition settle :: "nat option \<Rightarrow> settlement \<Rightarrow> dm_state \<Rightarrow> dm_state" where
  "settle r v s = (case r of None \<Rightarrow> s | Some q \<Rightarrow> s\<lparr>dm_settled := dm_settled s @ [(q, v)]\<rparr>)"

text \<open>\<open>clearQueue\<close>: every queued request is rejected.\<close>

definition clear_queue :: "dm_state \<Rightarrow> dm_state" where
  "clear_queue s =
     s\<lparr>dm_queue := [], dm_settled := dm_settled s @ map (\<lambda>(r, _). (r, Rejected ''Dialog queue cleared'')) (dm_queue s)\<rparr>"

definition fire_timer :: "dm_state \<Rightarrow> dm_state" where
  "fire_timer s = (case dm_timers s of [] \<Rightarrow> s | t # ts \<Rightarrow> show_dialog t (s\<lparr>dm_timers := ts\<rparr>))"

definition find_modal :: "nat \<Rightarrow> dm_state \<Rightarrow> modal option" where
  "find_modal i s = find (\<lambda>m. mo_dialog m = i) (dm_shown s)"

definition remove_modal :: "nat \<Rightarrow> dm_state \<Rightarrow> dm_state" where
  "remove_modal i s = s\<lparr>dm_shown := filter (\<lambda>m. mo_dialog m \<noteq> i) (dm_shown s)\<rparr>"

text \<open>
  A modal closes with a result: a managed one runs \<open>handleDialogClosed\<close> and then resolves
  its request, a restored one resolves the stored resolver, if it has one.
\<close>

definition close_modal :: "nat \<Rightarrow> dialog_result \<Rightarrow> dm_state \<Rightarrow> dm_state" where
  "close_modal i v s =
     (case find_modal i s of
        None \<Rightarrow> s
      | Some m \<Rightarrow>
          (let s1 = remove_modal i s in
           if mo_managed m then settle (mo_req m) (Resolved v) (handle_dialog_closed s1)
           else settle (mo_req m) (Resolved v) s1))"

text \<open>
  \<open>storePromiseResolverForMinimizedDialog\<close>, called with \<open>this.activeDialog\<close> after
  \<open>handleDialogClosed\<close> has set it to \<open>null\<close>: the fallback branch, which attaches the
  resolver to the most recently minimized dialog.
\<close>

definition store_promise_resolver :: "nat \<Rightarrow> dm_state \<Rightarrow> dm_state" where
  "store_promise_resolver r s =
     (case most_recent (dm_min s) of
        None \<Rightarrow> s
      | Some d \<Rightarrow>
          (case find (\<lambda>x. mn_id x = mn_id d) (dm_min s) of
             None \<Rightarrow> s
           | Some d' \<Rightarrow> s\<lparr>dm_min := minimize_dialog (d'\<lparr>mn_resolver := Some r\<rparr>) (dm_min s)\<rparr>))"

definition minimize_title :: "string \<Rightarrow> string" where
  "minimize_title cmd = ''Command: '' @ (if length cmd > 40 then take 40 cmd @ ''...'' else cmd)"

text \<open>
  \<open>ConfirmCommandDialogComponent.minimize\<close>: the dialog is added to the minimized list and
  dismissed with \<open>'minimized'\<close>. For a managed dialog the manager then runs
  \<open>handleDialogClosed\<close> and stores the resolver; for a restored one the restore handler
  of \<open>MinimizedDialogsModalComponent\<close> gives its resolver to the first minimized dialog
  with the same command.
\<close>

definition minimize_modal :: "nat \<Rightarrow> nat \<Rightarrow> dm_state \<Rightarrow> dm_state" where
  "minimize_modal i now s =
     (case find_modal i s of
        None \<Rightarrow> s
      | Some m \<Rightarrow>
          (let md = \<lparr>mn_id = i, mn_title = minimize_title (mo_command m), mn_command = mo_command m,
                     mn_timestamp = now, mn_resolver = None\<rparr>;
               s1 = remove_modal i (s\<lparr>dm_min := minimize_dialog md (dm_min s)\<rparr>) in
           if mo_managed m then
             (case mo_req m of
                None \<Rightarrow> handle_dialog_closed s1
              | Some r \<Rightarrow> store_promise_resolver r (handle_dialog_closed s1))
           else
             (case mo_req m of
                None \<Rightarrow> s1
              | Some r \<Rightarrow>
                  (case find (\<lambda>d. mn_command d = mo_command m) (dm_min s1) of
                     None \<Rightarrow> s1
                   | Some d \<Rightarrow> s1\<lparr>dm_min := minimize_dialog (d\<lparr>mn_resolver := Some r\<rparr>) (dm_min s1)\<rparr>))))"

text \<open>
  \<open>MinimizedDialogsModalComponent.restoreDialog\<close>: the entry leaves the list and its
  dialog is opened again directly with \<open>NgbModal.open\<close>, outside the manager's queue,
  under a new \<open>dialogId\<close>.
\<close>

definition restore_modal :: "nat \<Rightarrow> dm_state \<Rightarrow> dm_state" where
  "restore_modal i s =
     (case restore_dialog i (dm_min s) of
        (_, None) \<Rightarrow> s
      | (ds, Some d) \<Rightarrow>
          s\<lparr>dm_min := ds,
            dm_shown := dm_shown s @ [\<lparr>mo_dialog = dm_next_dialog s, mo_command = mn_command d,
                                       mo_req = mn_resolver d, mo_managed = False\<rparr>],
            dm_next_dialog := Suc (dm_next_dialog s)\<rparr>)"

definition close_active_dialog :: "dm_state \<Rightarrow> dm_state" where
  "close_active_dialog s = (case dm_active s of None \<Rightarrow> s | Some i \<Rightarrow> close_modal i Closed s)"

text \<open>
  \<open>getDisplayTitle\<close> and \<open>getRelativeTime\<close> of the minimized-dialogs modal: the
  command cut to 60 characters, and the time since minimizing.
\<close>

definition display_title :: "minimized_dialog \<Rightarrow> string" where
  "display_title d =
     (if mn_command d \<noteq> [] then (if length (mn_command d) > 60 then take 60 (mn_command d) @ ''...'' else mn_command d)
      else mn_title d)"

definition minimized_relative_time :: "nat \<Rightarrow> nat \<Rightarrow> string" where
  "minimized_relative_time now ts =
     (let diff = now - ts in
      if diff < 60000 then ''just now''
      else if diff < 3600000 then nat_to_string (diff div 60000) @ ''m ago''
      else if diff < 86400000 then nat_to_string (diff div 3600000) @ ''h ago''
      else nat_to_string (diff div 86400000) @ ''d ago'')"

subsection \<open>The dialogs as a state machine\<close>

datatype dm_event = DOpen string | DTimer | DClose nat dialog_result | DMinimize nat nat
  | DRestore nat | DCloseMin nat | DClearMin | DClearQueue | DCloseActive

fun dm_step :: "dm_event \<Rightarrow> dm_state \<Rightarrow> dm_state" where
  "dm_step (DOpen c) s = fst (open_dialog c s)"
| "dm_step DTimer s = fire_timer s"
| "dm_step (DClose i v) s = close_modal i v s"
| "dm_step (DMinimize i now) s = minimize_modal i now s"
| "dm_step (DRestore i) s = restore_modal i s"
| "dm_step (DCloseMin i) s = s\<lparr>dm_min := close_minimized_dialog i (dm_min s)\<rparr>"
| "dm_step DClearMin s = s\<lparr>dm_min := []\<rparr>"
| "dm_step DClearQueue s = clear_queue s"
| "dm_step DCloseActive s = close_active_dialog s"

definition dm_run :: "dm_event list \<Rightarrow> dm_state \<Rightarrow> dm_state" where
  "dm_run evs s = foldl (\<lambda>s e. dm_step e s) s evs"

definition dm_init :: dm_state where
  "dm_init = \<lparr>dm_active = None, dm_queue = [], dm_timers = [], dm_shown = [], dm_min = [],
     dm_settled = [], dm_trap = False, dm_next_req = 0, dm_next_dialog = 0\<rparr>"

inductive dm_reachable :: "dm_state \<Rightarrow> bool" where
  init: "dm_reachable dm_init"
| step: "dm_reachable s \<Longrightarrow> dm_reachable (dm_step e s)"

text \<open>The outcome of a request's promise: its first settlement.\<close>

definition dm_outcome :: "nat \<Rightarrow> dm_state \<Rightarrow> settlement option" where
  "dm_outcome r s = map_of (dm_settled s) r"

text \<open>
  The places that hold a request's resolver: the queue, the pending timers, the
  displayed modals and the minimized dialogs.
\<close>

definition dm_holders :: "dm_state \<Rightarrow> nat list" where
  "dm_holders s =
     map fst (dm_queue s) @ map fst (dm_timers s) @ List.map_filter mo_req (dm_shown s) @
     List.map_filter mn_resolver (dm_min s)"

definition dm_inv :: "dm_state \<Rightarrow> bool" where
  "dm_inv s \<longleftrightarrow>
     distinct (dm_holders s @ map fst (dm_settled s)) \<and>
     distinct (map mo_dialog (dm_shown s) @ map mn_id (dm_min s)) \<and>
     (\<forall>i \<in> set (map mo_dialog (dm_shown s) @ map mn_id (dm_min s)). i < dm_next_dialog s) \<and>
     (\<forall>r \<in> set (dm_holders s @ map fst (dm_settled s)). r < dm_next_req s)"

subsection \<open>Bookkeeping for the proofs\<close>

text \<open>
  The requests and dialog ids of a state as multisets: the places holding a resolver
  together with the settled requests, and the ids of displayed and minimized dialogs.
\<close>

definition opt_ms :: "'a option \<Rightarrow> 'a multiset" where
  "opt_ms x = (case x of None \<Rightarrow> {#} | Some a \<Rightarrow> {#a#})"

definition req_ms :: "dm_state \<Rightarrow> nat multiset" where
  "req_ms s = mset (dm_holders s @ map fst (dm_settled s))"

definition id_ms :: "dm_state \<Rightarrow> nat multiset" where
  "id_ms s = mset (map mo_dialog (dm_shown s) @ map mn_id (dm_min s))"

subsection \<open>Lemmas\<close>

lemma mf_append: "List.map_filter f (xs @ ys) = List.map_filter f xs @ List.map_filter f ys"
  by (induction xs) (auto simp: map_filter_simps split: option.split)

lemma mf_update_sub:
  "mset (List.map_filter f (xs[k := x])) \<subseteq># mset (List.map_filter f xs) + opt_ms (f x)"
proof (induction xs arbitrary: k)
  case (Cons y ys)
  then show ?case
    by (cases k) (auto simp: map_filter_simps opt_ms_def split: option.split intro: subset_mset.add_increasing2
        mset_subset_eq_mono_add_left_cancel[THEN iffD2])
qed simp

lemma mf_remove_found:
  "distinct (map g xs) \<Longrightarrow> find (\<lambda>m. g m = i) xs = Some m \<Longrightarrow>
     mset (List.map_filter f (filter (\<lambda>m. g m \<noteq> i) xs)) + opt_ms (f m) = mset (List.map_filter f xs) \<and>
     mset (map g (filter (\<lambda>m. g m \<noteq> i) xs)) + {#i#} = mset (map g xs)"
proof (induction xs)
  case (Cons y ys)
  show ?case
  proof (cases "g y = i")
    case True
    have "g y \<notin> g ` set ys" using Cons.prems(1) by simp
    then have "\<forall>z \<in> set ys. g z \<noteq> i" using True by (metis rev_image_eqI)
    moreover have "m = y" using Cons.prems(2) True by simp
    ultimately have "m = y" "\<forall>z \<in> set ys. g z \<noteq> i" by blast+
    then have "filter (\<lambda>m. g m \<noteq> i) ys = ys" by (simp add: filter_id_conv)
    with True \<open>m = y\<close> show ?thesis by (simp add: map_filter_simps opt_ms_def split: option.split)
  next
    case False
    with Cons show ?thesis by (auto simp: map_filter_simps add_ac split: option.split)
  qed
qed simp

lemma add_mset_superset: "A \<subseteq># B \<Longrightarrow> A \<subseteq># add_mset z (B::'a multiset)"
  by (metis add_mset_add_single mset_subset_eq_add_left subset_mset.trans)

lemma mset_filter_sub: "mset (List.map_filter f (filter P xs)) \<subseteq># mset (List.map_filter f xs)"
proof (induction xs)
  case (Cons y ys)
  show ?case
  proof (cases "f y")
    case None
    then show ?thesis using Cons by (simp add: map_filter_simps)
  next
    case (Some z)
    then show ?thesis using Cons
      by (auto simp: map_filter_simps intro: add_mset_superset)
  qed
qed simp

lemma distinct_fresh_extend:
  assumes "distinct xs" "\<forall>x\<in>set xs. x < a" "mset ys \<subseteq># mset xs + mset [a..<b]" "a \<le> b"
  shows "distinct ys \<and> (\<forall>y\<in>set ys. y < b)"
proof -
  have d: "distinct (xs @ [a..<b])" using assms(1,2) by auto
  have sub: "mset ys \<subseteq># mset (xs @ [a..<b])" using assms(3) by simp
  obtain C where "mset (xs @ [a..<b]) = mset ys + C" using sub by (auto simp: mset_subset_eq_exists_conv)
  moreover obtain ws where "C = mset ws" by (metis ex_mset)
  ultimately have "mset (xs @ [a..<b]) = mset (ys @ ws)" by simp
  then have "distinct (ys @ ws)" using d by (metis mset_eq_imp_distinct_iff)
  then have "distinct ys" by simp
  moreover have "set ys \<subseteq> set (xs @ [a..<b])" using set_mset_mono [OF sub] by simp
  ultimately show ?thesis using assms(2,4) by fastforce
qed

lemmas dm_ms_defs = req_ms_def id_ms_def dm_holders_def mf_append

lemma show_ms:
  "req_ms (show_dialog rq s) = add_mset (fst rq) (req_ms s) \<and>
   id_ms (show_dialog rq s) = add_mset (dm_next_dialog s) (id_ms s) \<and>
   dm_next_dialog (show_dialog rq s) = Suc (dm_next_dialog s) \<and> dm_next_req (show_dialog rq s) = dm_next_req s"
  by (simp add: show_dialog_def dm_ms_defs Let_def)

lemma handle_ms:
  "req_ms (handle_dialog_closed s) = req_ms s \<and> id_ms (handle_dialog_closed s) = id_ms s \<and>
   dm_next_dialog (handle_dialog_closed s) = dm_next_dialog s \<and> dm_next_req (handle_dialog_closed s) = dm_next_req s \<and>
   dm_shown (handle_dialog_closed s) = dm_shown s \<and> dm_min (handle_dialog_closed s) = dm_min s"
  by (simp add: handle_dialog_closed_def dm_ms_defs add_ac split: list.split)

lemma settle_ms:
  "req_ms (settle r v s) = req_ms s + opt_ms r \<and> id_ms (settle r v s) = id_ms s \<and>
   dm_next_dialog (settle r v s) = dm_next_dialog s \<and> dm_next_req (settle r v s) = dm_next_req s"
  by (simp add: settle_def dm_ms_defs opt_ms_def split: option.split)

lemma remove_ms:
  assumes "distinct (map mo_dialog (dm_shown s))" "find_modal i s = Some m"
  shows "req_ms (remove_modal i s) + opt_ms (mo_req m) = req_ms s \<and> id_ms (remove_modal i s) + {#i#} = id_ms s \<and>
     dm_next_dialog (remove_modal i s) = dm_next_dialog s \<and> dm_next_req (remove_modal i s) = dm_next_req s \<and>
     dm_min (remove_modal i s) = dm_min s"
proof -
  note assms(1)
  moreover have "find (\<lambda>m. mo_dialog m = i) (dm_shown s) = Some m" using assms(2) by (simp add: find_modal_def)
  ultimately have "mset (List.map_filter mo_req (filter (\<lambda>m. mo_dialog m \<noteq> i) (dm_shown s))) + opt_ms (mo_req m) =
          mset (List.map_filter mo_req (dm_shown s)) \<and>
       mset (map mo_dialog (filter (\<lambda>m. mo_dialog m \<noteq> i) (dm_shown s))) + {#i#} = mset (map mo_dialog (dm_shown s))"
    using mf_remove_found [of mo_dialog "dm_shown s" i m mo_req] by blast
  then show ?thesis by (simp add: remove_modal_def dm_ms_defs add_ac)
qed

lemma minimize_dialog_found:
  "mn_id d \<in> set (map mn_id ds) \<Longrightarrow> map mn_id (minimize_dialog d ds) = map mn_id ds"
proof -
  assume "mn_id d \<in> set (map mn_id ds)"
  then obtain k where k: "find_idx (\<lambda>x. mn_id x = mn_id d) ds = Some k"
    by (cases "find_idx (\<lambda>x. mn_id x = mn_id d) ds") (auto simp: find_idx_None)
  from find_idx_Some [OF k] have "k < length ds" "mn_id (ds ! k) = mn_id d" by auto
  then have "(map mn_id ds)[k := mn_id d] = map mn_id ds" by (metis list_update_id nth_map)
  then show ?thesis using k by (simp add: minimize_dialog_def map_update)
qed

lemma minimize_dialog_new:
  assumes "mn_id d \<notin> set (map mn_id ds)"
  shows "minimize_dialog d ds = ds @ [d]"
proof (cases "find_idx (\<lambda>x. mn_id x = mn_id d) ds")
  case (Some k)
  then have "k < length ds" "mn_id (ds ! k) = mn_id d" using find_idx_Some by blast+
  then have "mn_id d \<in> set (map mn_id ds)" by (metis length_map nth_map nth_mem)
  with assms show ?thesis by simp
qed (simp add: minimize_dialog_def)

lemma minimize_dialog_res:
  "mset (List.map_filter mn_resolver (minimize_dialog d ds)) \<subseteq># mset (List.map_filter mn_resolver ds) + opt_ms (mn_resolver d)"
proof (cases "find_idx (\<lambda>x. mn_id x = mn_id d) ds")
  case None
  then show ?thesis by (simp add: minimize_dialog_def mf_append opt_ms_def split: option.split)
next
  case (Some k)
  then show ?thesis using mf_update_sub [of mn_resolver ds k d] by (simp add: minimize_dialog_def)
qed

lemma store_ms:
  "req_ms (store_promise_resolver r s) \<subseteq># add_mset r (req_ms s) \<and> id_ms (store_promise_resolver r s) = id_ms s \<and>
   dm_next_dialog (store_promise_resolver r s) = dm_next_dialog s \<and> dm_next_req (store_promise_resolver r s) = dm_next_req s"
proof (cases "most_recent (dm_min s)")
  case (Some d)
  show ?thesis
  proof (cases "find (\<lambda>x. mn_id x = mn_id d) (dm_min s)")
    case (Some d')
    then have "d' \<in> set (dm_min s)" "mn_id d' = mn_id d" by (auto simp: find_Some_iff)
    then have ids: "map mn_id (minimize_dialog (d'\<lparr>mn_resolver := Some r\<rparr>) (dm_min s)) = map mn_id (dm_min s)"
      by (intro minimize_dialog_found) (simp, metis rev_image_eqI)
    have res: "mset (List.map_filter mn_resolver (minimize_dialog (d'\<lparr>mn_resolver := Some r\<rparr>) (dm_min s))) \<subseteq>#
        add_mset r (mset (List.map_filter mn_resolver (dm_min s)))"
      using minimize_dialog_res [of "d'\<lparr>mn_resolver := Some r\<rparr>" "dm_min s"] by (simp add: opt_ms_def)
    show ?thesis using \<open>most_recent (dm_min s) = Some d\<close> Some ids res
      by (simp add: store_promise_resolver_def dm_ms_defs add_ac)
  qed (simp add: store_promise_resolver_def Some)
qed (simp add: store_promise_resolver_def)

lemma set_resolver_ms:
  assumes "d \<in> set (dm_min s)"
  shows "req_ms (s\<lparr>dm_min := minimize_dialog (d\<lparr>mn_resolver := Some r\<rparr>) (dm_min s)\<rparr>) \<subseteq># add_mset r (req_ms s) \<and>
    id_ms (s\<lparr>dm_min := minimize_dialog (d\<lparr>mn_resolver := Some r\<rparr>) (dm_min s)\<rparr>) = id_ms s"
proof -
  have ids: "map mn_id (minimize_dialog (d\<lparr>mn_resolver := Some r\<rparr>) (dm_min s)) = map mn_id (dm_min s)"
    using assms by (intro minimize_dialog_found) simp
  have res: "mset (List.map_filter mn_resolver (minimize_dialog (d\<lparr>mn_resolver := Some r\<rparr>) (dm_min s))) \<subseteq>#
      add_mset r (mset (List.map_filter mn_resolver (dm_min s)))"
    using minimize_dialog_res [of "d\<lparr>mn_resolver := Some r\<rparr>" "dm_min s"] by (simp add: opt_ms_def)
  show ?thesis using ids res by (simp add: dm_ms_defs add_ac)
qed

lemma mset_map_filter_sub: "mset (map g (filter P xs)) \<subseteq># mset (map g xs)"
  by (induction xs) (auto intro: add_mset_superset)

lemma close_ms:
  assumes "dm_inv s"
  shows "req_ms (close_modal i v s) = req_ms s \<and> id_ms (close_modal i v s) \<subseteq># id_ms s \<and>
    dm_next_dialog (close_modal i v s) = dm_next_dialog s \<and> dm_next_req (close_modal i v s) = dm_next_req s"
proof (cases "find_modal i s")
  case (Some m)
  have d: "distinct (map mo_dialog (dm_shown s))" using assms by (simp add: dm_inv_def)
  from remove_ms [OF d Some] show ?thesis using Some
    by (auto simp: close_modal_def Let_def settle_ms handle_ms simp del: mset_map
        intro: subset_mset.trans [OF _ mset_subset_eq_add_left] elim: subst)
qed (simp add: close_modal_def)

lemma minimize_ms:
  assumes inv: "dm_inv s"
  shows "req_ms (minimize_modal i now s) \<subseteq># req_ms s \<and> id_ms (minimize_modal i now s) = id_ms s \<and>
    dm_next_dialog (minimize_modal i now s) = dm_next_dialog s \<and> dm_next_req (minimize_modal i now s) = dm_next_req s"
proof (cases "find_modal i s")
  case (Some m)
  let ?md = "\<lparr>mn_id = i, mn_title = minimize_title (mo_command m), mn_command = mo_command m,
                     mn_timestamp = now, mn_resolver = None\<rparr>"
  let ?s0 = "s\<lparr>dm_min := minimize_dialog ?md (dm_min s)\<rparr>"
  let ?s1 = "remove_modal i ?s0"
  have m: "m \<in> set (dm_shown s)" "mo_dialog m = i" using Some by (auto simp: find_modal_def find_Some_iff)
  have dist: "distinct (map mo_dialog (dm_shown s) @ map mn_id (dm_min s))" using inv by (simp add: dm_inv_def)
  then have "i \<notin> set (map mn_id (dm_min s))" using m by auto
  then have "dm_min ?s0 = dm_min s @ [?md]" by (simp add: minimize_dialog_new)
  then have s0: "req_ms ?s0 = req_ms s" "id_ms ?s0 = add_mset i (id_ms s)" "dm_shown ?s0 = dm_shown s"
    by (simp_all add:  dm_ms_defs  map_filter_simps)
  have f0: "find_modal i ?s0 = Some m" using Some by (simp add: find_modal_def )
  have d0: "distinct (map mo_dialog (dm_shown ?s0))" using dist s0(3) by simp
  from remove_ms [OF d0 f0] s0
  have s1: "req_ms ?s1 + opt_ms (mo_req m) = req_ms s" "id_ms ?s1 = id_ms s"
    "dm_next_dialog ?s1 = dm_next_dialog s" "dm_next_req ?s1 = dm_next_req s"
    by simp_all
  have eq: "minimize_modal i now s =
    (if mo_managed m then (case mo_req m of None \<Rightarrow> handle_dialog_closed ?s1
                                          | Some r \<Rightarrow> store_promise_resolver r (handle_dialog_closed ?s1))
     else (case mo_req m of None \<Rightarrow> ?s1
           | Some r \<Rightarrow> (case find (\<lambda>d. mn_command d = mo_command m) (dm_min ?s1) of None \<Rightarrow> ?s1
               | Some d \<Rightarrow> ?s1\<lparr>dm_min := minimize_dialog (d\<lparr>mn_resolver := Some r\<rparr>) (dm_min ?s1)\<rparr>)))"
    using Some by (simp add: minimize_modal_def Let_def)
  show ?thesis
  proof (cases "mo_req m")
    case None
    then show ?thesis using s1 by (simp add: eq handle_ms opt_ms_def)
  next
    case (Some r)
    have r: "req_ms s = add_mset r (req_ms ?s1)" using s1(1) Some by (simp add: opt_ms_def)
    show ?thesis
    proof (cases "mo_managed m")
      case True
      then show ?thesis using s1 r Some store_ms [of r "handle_dialog_closed ?s1"] handle_ms [of ?s1] by (simp add: eq)
    next
      case False
      show ?thesis
      proof (cases "find (\<lambda>d. mn_command d = mo_command m) (dm_min ?s1)")
        case (Some d)
        then have "d \<in> set (dm_min ?s1)" by (auto simp: find_Some_iff)
        from set_resolver_ms [OF this, of r] show ?thesis using False Some \<open>mo_req m = Some r\<close> s1 r
          by (simp add: eq)
      qed (use False Some s1 r in \<open>simp add: eq\<close>)
    qed
  qed
qed (simp add: minimize_modal_def)

lemma restore_ms:
  assumes inv: "dm_inv s"
  shows "req_ms (restore_modal i s) = req_ms s \<and>
    id_ms (restore_modal i s) \<subseteq># id_ms s + mset [dm_next_dialog s..<dm_next_dialog (restore_modal i s)] \<and>
    dm_next_dialog s \<le> dm_next_dialog (restore_modal i s) \<and> dm_next_req (restore_modal i s) = dm_next_req s"
proof (cases "find (\<lambda>x. mn_id x = i) (dm_min s)")
  case (Some d)
  have "distinct (map mn_id (dm_min s))" using inv by (simp add: dm_inv_def)
  from mf_remove_found [OF this Some, of mn_resolver]
  have "mset (List.map_filter mn_resolver (filter (\<lambda>x. mn_id x \<noteq> i) (dm_min s))) + opt_ms (mn_resolver d) =
          mset (List.map_filter mn_resolver (dm_min s))"
       "mset (map mn_id (filter (\<lambda>x. mn_id x \<noteq> i) (dm_min s))) + {#i#} = mset (map mn_id (dm_min s))"
    by blast+
  then show ?thesis using Some
    by (auto simp: restore_modal_def restore_dialog_def dm_ms_defs opt_ms_def add_ac mset_map_filter_sub
        simp del: mset_map split: option.split)
qed (simp add: restore_modal_def restore_dialog_def)

lemma filter_min_ms:
  "req_ms (s\<lparr>dm_min := filter P (dm_min s)\<rparr>) \<subseteq># req_ms s \<and> id_ms (s\<lparr>dm_min := filter P (dm_min s)\<rparr>) \<subseteq># id_ms s"
  using mset_filter_sub [of mn_resolver P "dm_min s"] mset_map_filter_sub [of mn_id P "dm_min s"]
  by (simp add: dm_ms_defs del: mset_map)

lemma dm_step_ms:
  assumes inv: "dm_inv s"
  shows "req_ms (dm_step e s) \<subseteq># req_ms s + mset [dm_next_req s..<dm_next_req (dm_step e s)] \<and>
    dm_next_req s \<le> dm_next_req (dm_step e s) \<and>
    id_ms (dm_step e s) \<subseteq># id_ms s + mset [dm_next_dialog s..<dm_next_dialog (dm_step e s)] \<and>
    dm_next_dialog s \<le> dm_next_dialog (dm_step e s)"
proof (cases e)
  case (DOpen c)
  have "req_ms (s\<lparr>dm_next_req := Suc (dm_next_req s)\<rparr>) = req_ms s"
       "id_ms (s\<lparr>dm_next_req := Suc (dm_next_req s)\<rparr>) = id_ms s" by (simp_all add: dm_ms_defs)
  then show ?thesis using DOpen
    by (simp add: open_dialog_def Let_def show_ms) (simp add: dm_ms_defs)
next
  case DTimer
  show ?thesis
  proof (cases "dm_timers s")
    case (Cons t ts)
    have "req_ms (s\<lparr>dm_timers := ts\<rparr>) + {#fst t#} = req_ms s" "id_ms (s\<lparr>dm_timers := ts\<rparr>) = id_ms s"
      using Cons by (simp_all add: dm_ms_defs add_ac)
    then show ?thesis using DTimer Cons by (simp add: fire_timer_def show_ms)
  qed (simp add: DTimer fire_timer_def)
next
  case (DClose i v)
  then show ?thesis using close_ms [OF inv, of i v] by (auto intro: subset_mset.trans [OF _ mset_subset_eq_add_left])
next
  case (DMinimize i now)
  then show ?thesis using minimize_ms [OF inv, of i now] by (auto intro: subset_mset.trans [OF _ mset_subset_eq_add_left])
next
  case (DRestore i)
  then show ?thesis using restore_ms [OF inv, of i] by simp
next
  case (DCloseMin i)
  then show ?thesis using filter_min_ms [of "\<lambda>x. mn_id x \<noteq> i" s]
    by (auto simp: close_minimized_dialog_def intro: subset_mset.trans [OF _ mset_subset_eq_add_left])
next
  case DClearMin
  then show ?thesis using filter_min_ms [of "\<lambda>x. False" s]
    by (auto intro: subset_mset.trans [OF _ mset_subset_eq_add_left])
next
  case DClearQueue
  then show ?thesis by (simp add: clear_queue_def dm_ms_defs comp_def case_prod_beta)
next
  case DCloseActive
  then show ?thesis using close_ms [OF inv]
    by (auto simp: close_active_dialog_def split: option.split intro: subset_mset.trans [OF _ mset_subset_eq_add_left])
qed

lemma dm_inv_step:
  assumes inv: "dm_inv s"
  shows "dm_inv (dm_step e s)"
proof -
  note st = dm_step_ms [OF inv, of e]
  have "distinct (dm_holders (dm_step e s) @ map fst (dm_settled (dm_step e s))) \<and>
      (\<forall>r \<in> set (dm_holders (dm_step e s) @ map fst (dm_settled (dm_step e s))). r < dm_next_req (dm_step e s))"
    using distinct_fresh_extend [of "dm_holders s @ map fst (dm_settled s)" "dm_next_req s"
        "dm_holders (dm_step e s) @ map fst (dm_settled (dm_step e s))" "dm_next_req (dm_step e s)"] inv st
    unfolding dm_inv_def req_ms_def by blast
  moreover have "distinct (map mo_dialog (dm_shown (dm_step e s)) @ map mn_id (dm_min (dm_step e s))) \<and>
      (\<forall>i \<in> set (map mo_dialog (dm_shown (dm_step e s)) @ map mn_id (dm_min (dm_step e s))). i < dm_next_dialog (dm_step e s))"
    using distinct_fresh_extend [of "map mo_dialog (dm_shown s) @ map mn_id (dm_min s)" "dm_next_dialog s"
        "map mo_dialog (dm_shown (dm_step e s)) @ map mn_id (dm_min (dm_step e s))" "dm_next_dialog (dm_step e s)"] inv st
    unfolding dm_inv_def id_ms_def by blast
  ultimately show ?thesis by (simp add: dm_inv_def)
qed

lemma dm_reachable_dm_inv: "dm_reachable s \<Longrightarrow> dm_inv s"
proof (induction rule: dm_reachable.induct)
  case init
  then show ?case by (simp add: dm_inv_def dm_init_def dm_holders_def)
next
  case (step s e)
  from step.IH show ?case by (rule dm_inv_step)
qed

lemma dm_lost_step:
  assumes inv: "dm_inv s" and lost: "r \<notin># req_ms s" "r < dm_next_req s"
  shows "r \<notin># req_ms (dm_step e s) \<and> r < dm_next_req (dm_step e s)"
proof -
  note st = dm_step_ms [OF inv, of e]
  then have "r \<notin># req_ms s + mset [dm_next_req s..<dm_next_req (dm_step e s)]" using lost by simp
  then show ?thesis using st lost by (meson mset_subset_eqD order_less_le_trans)
qed

lemma dm_lost_run:
  "dm_reachable s \<Longrightarrow> r \<notin># req_ms s \<Longrightarrow> r < dm_next_req s \<Longrightarrow>
     r \<notin># req_ms (dm_run evs s) \<and> r < dm_next_req (dm_run evs s)"
proof (induction evs arbitrary: s)
  case (Cons e evs)
  have "dm_reachable (dm_step e s)" using Cons.prems(1) by (rule dm_reachable.step)
  moreover have "r \<notin># req_ms (dm_step e s) \<and> r < dm_next_req (dm_step e s)"
    using dm_lost_step [OF dm_reachable_dm_inv [OF Cons.prems(1)] Cons.prems(2,3)] .
  ultimately show ?case using Cons.IH by (simp add: dm_run_def)
qed (simp add: dm_run_def)

lemma distinct_count_le: "distinct xs \<Longrightarrow> count (mset xs) x \<le> 1"
  by (simp add: distinct_count_atmost_1)

lemma find_distinct_member:
  "distinct (map g xs) \<Longrightarrow> x \<in> set xs \<Longrightarrow> find (\<lambda>y. g y = g x) xs = Some x"
  by (induction xs) (auto simp: rev_image_eqI)

subsection \<open>Properties\<close>

text \<open>C40. Closing a minimized dialog (\<open>closeMinimizedDialog\<close>) discards the stored promise resolver without settling it: whatever happens afterwards, the promise of the request it held is never resolved or rejected, so the tool call that opened the dialog waits forever.\<close>

theorem closed_minimized_never_settles:
  assumes reach: "dm_reachable s" and d: "d \<in> set (dm_min s)" "mn_resolver d = Some r"
  shows "dm_outcome r (dm_run evs (dm_step (DCloseMin (mn_id d)) s)) = None"
proof -
  have inv: "dm_inv s" using reach by (rule dm_reachable_dm_inv)
  let ?s' = "dm_step (DCloseMin (mn_id d)) s"
  have "find (\<lambda>y. mn_id y = mn_id d) (dm_min s) = Some d"
    using inv d(1) by (intro find_distinct_member) (simp_all add: dm_inv_def)
  moreover have "distinct (map mn_id (dm_min s))" using inv by (simp add: dm_inv_def)
  ultimately have split: "mset (List.map_filter mn_resolver (filter (\<lambda>x. mn_id x \<noteq> mn_id d) (dm_min s))) + {#r#} =
      mset (List.map_filter mn_resolver (dm_min s))"
    using mf_remove_found [of mn_id "dm_min s" "mn_id d" d mn_resolver] d(2) by (simp add: opt_ms_def)
  have dist: "distinct (dm_holders s @ map fst (dm_settled s))" and bound: "r < dm_next_req s"
    using inv split by (auto simp: dm_inv_def dm_holders_def mf_append dest: union_single_eq_member)
  have eq_s: "req_ms s = add_mset r (req_ms ?s')"
    by (simp add: req_ms_def dm_holders_def mf_append close_minimized_dialog_def flip: split)
  have "count (req_ms s) r \<le> 1" using dist unfolding req_ms_def by (rule distinct_count_le)
  then have "r \<notin># req_ms ?s'" using eq_s by (simp add: not_in_iff)
  moreover have "r < dm_next_req ?s'" using bound by simp
  ultimately have "r \<notin># req_ms (dm_run evs ?s')"
    using dm_lost_run [OF dm_reachable.step [OF reach]] by blast
  then show ?thesis by (simp add: dm_outcome_def req_ms_def map_of_eq_None_iff)
qed

lemma dm_reachable_run: "dm_reachable s \<Longrightarrow> dm_reachable (dm_run evs s)"
  by (induction evs arbitrary: s) (simp_all add: dm_run_def dm_reachable.step)

lemmas dm_eval_defs = dm_run_def dm_init_def open_dialog_def show_dialog_def handle_dialog_closed_def
  settle_def clear_queue_def fire_timer_def find_modal_def remove_modal_def close_modal_def
  store_promise_resolver_def minimize_title_def minimize_modal_def restore_modal_def restore_dialog_def
  close_active_dialog_def close_minimized_dialog_def minimize_dialog_def Let_def

text \<open>C38. In every state the dialogs reach, each request of \<open>openDialog\<close> has its resolver in at most one place (the queue, a pending timer, a displayed dialog or a minimized dialog), and its promise is settled at most once and never while a place still holds it.\<close>

theorem dm_reachable_single_holder:
  "dm_reachable s \<Longrightarrow> distinct (dm_holders s @ map fst (dm_settled s))"
  using dm_reachable_dm_inv by (simp add: dm_inv_def)

theorem dm_reachable_single_holder_witness:
  "distinct (dm_holders (dm_run [DOpen ''rm -rf build'', DOpen ''npm publish'', DClose 0 Confirmed] dm_init) @
     map fst (dm_settled (dm_run [DOpen ''rm -rf build'', DOpen ''npm publish'', DClose 0 Confirmed] dm_init)))"
  using dm_reachable_single_holder [OF dm_reachable_run [OF dm_reachable.init]] by blast

text \<open>C39. The one-dialog-at-a-time guarantee fails: when the active dialog closes while another request is queued, \<open>handleDialogClosed\<close> clears \<open>activeDialog\<close> and defers the queued dialog by 100 ms; a request arriving in that window is shown at once, and when the timer fires the queued dialog is shown beside it.\<close>

theorem dialog_race_two_shown:
  "find_modal i s = Some m \<Longrightarrow> mo_managed m \<Longrightarrow> dm_queue s = q # qs \<Longrightarrow> dm_timers s = [] \<Longrightarrow>
   map mo_req (dm_shown (dm_run [DClose i v, DOpen c, DTimer] s)) =
     map mo_req (filter (\<lambda>m. mo_dialog m \<noteq> i) (dm_shown s)) @ [Some (dm_next_req s), Some (fst q)]"
  by (simp add: dm_run_def close_modal_def remove_modal_def handle_dialog_closed_def settle_def
      open_dialog_def show_dialog_def fire_timer_def Let_def find_modal_def split: option.split)

theorem dialog_race_two_shown_witness:
  "map mo_req (dm_shown (dm_run [DClose 0 Confirmed, DOpen ''ls'', DTimer]
      (dm_run [DOpen ''rm -rf build'', DOpen ''npm publish''] dm_init))) = [Some 2, Some 1]"
proof -
  let ?s = "dm_run [DOpen ''rm -rf build'', DOpen ''npm publish''] dm_init"
  have "find_modal 0 ?s = Some \<lparr>mo_dialog = 0, mo_command = ''rm -rf build'', mo_req = Some 0, mo_managed = True\<rparr>"
       "dm_queue ?s = [(1, ''npm publish'')]" "dm_timers ?s = []" "dm_next_req ?s = 2" "dm_shown ?s =
          [\<lparr>mo_dialog = 0, mo_command = ''rm -rf build'', mo_req = Some 0, mo_managed = True\<rparr>]"
    by (simp_all add: dm_eval_defs)
  then show ?thesis using dialog_race_two_shown [of 0 ?s _ "(1, ''npm publish'')" "[]" Confirmed "''ls''"] by simp
qed

theorem closed_minimized_never_settles_witness:
  "dm_outcome 0 (dm_run [DOpen ''ls'', DCloseActive]
     (dm_step (DCloseMin 0) (dm_run [DOpen ''rm -rf build'', DMinimize 0 1000] dm_init))) = None"
proof -
  let ?s = "dm_run [DOpen ''rm -rf build'', DMinimize 0 1000] dm_init"
  have r: "dm_reachable ?s" by (rule dm_reachable_run [OF dm_reachable.init])
  have "dm_min ?s = [\<lparr>mn_id = 0, mn_title = ''Command: rm -rf build'', mn_command = ''rm -rf build'',
      mn_timestamp = 1000, mn_resolver = Some 0\<rparr>]"
    by (simp add: dm_eval_defs)
  then show ?thesis
    using closed_minimized_never_settles [OF r, of "hd (dm_min ?s)" 0 "[DOpen ''ls'', DCloseActive]"] by simp
qed

end
