(* ===== verification/DialogForms.thy ===== *)
theory DialogForms
  imports Dialogs
begin

text \<open>
  The forms inside the two dialogs of the VS Code agent plugin, as state machines over
  user events: the confirm-command dialog (\<open>components/confirmCommandDialog.component.ts\<close>),
  whose results are the \<open>dialog_result\<close> values of theory \<open>Dialogs\<close>, and the
  command-result dialog (\<open>components/commandResultDialog.component.ts\<close>), where the user
  accepts the result with a message or rejects it with a reason.
  \<^item> A key event is handled by the document listeners only when the focus is not in a
    text field (\<open>in_text\<close>); the Escape handler first moves the focus to the dialog when it
    is elsewhere (\<open>focused\<close>).
  \<^item> \<open>alert\<close> is an outcome of its own; focus moves, hotkey pausing and textarea sizing are
    not modelled.
\<close>

datatype 'r form_outcome = Stay | Alert | CloseWith 'r

subsection \<open>The confirm-command dialog\<close>

record confirm_form =
  cf_show_reject :: bool
  cf_reject_message :: string

definition cf_init :: confirm_form where
  "cf_init = \<lparr>cf_show_reject = False, cf_reject_message = []\<rparr>"

text \<open>\<open>confirm()\<close>, \<open>cancel()\<close>, \<open>showRejectForm()\<close> and \<open>reject()\<close>, which needs a reason.\<close>

definition cf_confirm :: "confirm_form \<Rightarrow> confirm_form \<times> dialog_result form_outcome" where
  "cf_confirm f = (f, CloseWith Confirmed)"

definition cf_cancel :: "confirm_form \<Rightarrow> confirm_form \<times> dialog_result form_outcome" where
  "cf_cancel f = (f, CloseWith Cancelled)"

definition cf_show_reject_form :: "confirm_form \<Rightarrow> confirm_form" where
  "cf_show_reject_form f = f\<lparr>cf_show_reject := True\<rparr>"

definition cf_reject :: "confirm_form \<Rightarrow> confirm_form \<times> dialog_result form_outcome" where
  "cf_reject f =
     (if trim (cf_reject_message f) = [] then (f, Alert) else (f, CloseWith (RejectedMsg (cf_reject_message f))))"

datatype confirm_event = CfEnter bool | CfRKey bool | CfEscape bool | CfTextareaEnter bool | CfType string
  | CfConfirmButton | CfRejectButton | CfCancelButton

text \<open>
  The handlers: \<open>onEnterPressed\<close> (\<open>CfEnter in_text\<close>), \<open>onRKeyPressed\<close>,
  \<open>onEscapePressed\<close> (\<open>CfEscape focused\<close>), \<open>onTextareaKeyDown\<close> (\<open>CfTextareaEnter shift\<close>),
  typing into the reason field, and the buttons.
\<close>

fun cf_event :: "confirm_event \<Rightarrow> confirm_form \<Rightarrow> confirm_form \<times> dialog_result form_outcome" where
  "cf_event (CfEnter in_text) f =
     (if in_text then (f, Stay)
      else if cf_show_reject f then (if trim (cf_reject_message f) \<noteq> [] then cf_reject f else (f, Stay))
      else cf_confirm f)"
| "cf_event (CfRKey in_text) f =
     (if \<not> in_text \<and> \<not> cf_show_reject f then (cf_show_reject_form f, Stay) else (f, Stay))"
| "cf_event (CfEscape focused) f = (if \<not> focused then (f, Stay) else cf_cancel f)"
| "cf_event (CfTextareaEnter shift) f = (if shift then (f, Stay) else cf_reject f)"
| "cf_event (CfType s) f = (f\<lparr>cf_reject_message := s\<rparr>, Stay)"
| "cf_event CfConfirmButton f = cf_confirm f"
| "cf_event CfRejectButton f = cf_reject f"
| "cf_event CfCancelButton f = cf_cancel f"

subsection \<open>The command-result dialog\<close>

record result_form =
  rf_reject_mode :: bool
  rf_user_message :: string
  rf_rejection_message :: string

definition rf_init :: result_form where
  "rf_init = \<lparr>rf_reject_mode = False, rf_user_message = [], rf_rejection_message = []\<rparr>"

text \<open>The values the dialog closes with: \<open>{accepted, userMessage}\<close>, \<open>{accepted: false,
  rejectionMessage}\<close>, and \<open>undefined\<close> from \<open>cancel()\<close>.\<close>

datatype result_reply = Accepted string | RejectedWith string | NoReply

text \<open>\<open>toggleRejectMode\<close>: entering moves the message to the rejection message, leaving moves it back.\<close>

definition rf_toggle :: "result_form \<Rightarrow> result_form" where
  "rf_toggle f =
     (if \<not> rf_reject_mode f
      then f\<lparr>rf_reject_mode := True, rf_rejection_message := rf_user_message f, rf_user_message := []\<rparr>
      else f\<lparr>rf_reject_mode := False, rf_user_message := rf_rejection_message f, rf_rejection_message := []\<rparr>)"

definition rf_accept :: "result_form \<Rightarrow> result_form \<times> result_reply form_outcome" where
  "rf_accept f = (if rf_reject_mode f then (rf_toggle f, Stay) else (f, CloseWith (Accepted (rf_user_message f))))"

definition rf_reject :: "result_form \<Rightarrow> result_form \<times> result_reply form_outcome" where
  "rf_reject f =
     (if \<not> rf_reject_mode f then (rf_toggle f, Stay)
      else if trim (rf_user_message f) = [] then (f, Alert)
      else (f, CloseWith (RejectedWith (rf_user_message f))))"

definition rf_cancel :: "result_form \<Rightarrow> result_form \<times> result_reply form_outcome" where
  "rf_cancel f = (f, CloseWith NoReply)"

datatype result_event = RfEscape bool | RfRKey bool | RfEnter bool | RfTextareaEnter bool | RfType string
  | RfAcceptButton | RfRejectButton | RfCancelButton | RfToggleButton

fun rf_event :: "result_event \<Rightarrow> result_form \<Rightarrow> result_form \<times> result_reply form_outcome" where
  "rf_event (RfEscape focused) f =
     (if \<not> focused then (f, Stay) else if rf_reject_mode f then (rf_toggle f, Stay) else rf_cancel f)"
| "rf_event (RfRKey in_text) f = (if in_text then (f, Stay) else rf_reject f)"
| "rf_event (RfEnter in_text) f = (if in_text then (f, Stay) else rf_accept f)"
| "rf_event (RfTextareaEnter shift) f =
     (if shift then (f, Stay) else if rf_reject_mode f then rf_reject f else rf_accept f)"
| "rf_event (RfType s) f = (f\<lparr>rf_user_message := s\<rparr>, Stay)"
| "rf_event RfAcceptButton f = rf_accept f"
| "rf_event RfRejectButton f = rf_reject f"
| "rf_event RfCancelButton f = rf_cancel f"
| "rf_event RfToggleButton f = (rf_toggle f, Stay)"

text \<open>
  A session of the form: events are handled until one closes the dialog; the result is
  the reply it closed with, or \<open>None\<close> while the dialog is still open.
\<close>

fun rf_session :: "result_event list \<Rightarrow> result_form \<Rightarrow> result_reply option" where
  "rf_session [] f = None"
| "rf_session (e # es) f = (case rf_event e f of (f', CloseWith r) \<Rightarrow> Some r | (f', _) \<Rightarrow> rf_session es f')"

fun cf_session :: "confirm_event list \<Rightarrow> confirm_form \<Rightarrow> dialog_result option" where
  "cf_session [] f = None"
| "cf_session (e # es) f = (case cf_event e f of (f', CloseWith r) \<Rightarrow> Some r | (f', _) \<Rightarrow> cf_session es f')"

subsection \<open>The dialog service\<close>

text \<open>
  \<open>DialogService\<close> opens both dialogs through the dialog manager; the modal of the manager
  keeps the command only, the other inputs are passed to the component unchanged.
\<close>

definition show_confirm_command_dialog :: "string \<Rightarrow> nat \<Rightarrow> string \<Rightarrow> string option \<Rightarrow> dm_state \<Rightarrow> dm_state \<times> nat" where
  "show_confirm_command_dialog cmd tab_id tab_title explanation s = open_dialog cmd s"

definition show_command_result_dialog :: "string \<Rightarrow> string \<Rightarrow> int option \<Rightarrow> bool \<Rightarrow> string \<Rightarrow> dm_state \<Rightarrow> dm_state \<times> nat" where
  "show_command_result_dialog cmd output exit_code aborted instruction s = open_dialog cmd s"

text \<open>\<open>CommandResultDialogComponent.minimize\<close>: the title of the minimized result dialog.\<close>

definition result_minimize_title :: "string \<Rightarrow> string" where
  "result_minimize_title cmd = ''Result: '' @ (if length cmd > 40 then take 40 cmd @ ''...'' else cmd)"

subsection \<open>Properties of the forms\<close>

lemma rf_toggle_twice:
  "rf_user_message (rf_toggle (rf_toggle f)) = (if rf_reject_mode f then [] else rf_user_message f) \<and>
   rf_reject_mode (rf_toggle (rf_toggle f)) = rf_reject_mode f"
  by (simp add: rf_toggle_def)

lemma rf_event_rejects_nonblank:
  "rf_event e f = (f', CloseWith (RejectedWith m)) \<Longrightarrow> rf_reject_mode f \<and> m = rf_user_message f \<and> trim m \<noteq> []"
  by (cases e) (auto simp: rf_accept_def rf_reject_def rf_cancel_def split: if_splits)

lemma rf_session_rejects_nonblank:
  "rf_session es f = Some (RejectedWith m) \<Longrightarrow> trim m \<noteq> []"
proof (induction es arbitrary: f)
  case Nil
  then show ?case by simp
next
  case (Cons e es)
  obtain f' out where ev: "rf_event e f = (f', out)" by fastforce
  show ?case
  proof (cases out)
    case (CloseWith r)
    then show ?thesis using Cons.prems ev rf_event_rejects_nonblank [of e f f' m] by force
  qed (use Cons ev in simp_all)
qed

lemma cf_event_rejects_nonblank:
  "cf_event e f = (f', CloseWith (RejectedMsg m)) \<Longrightarrow> m = cf_reject_message f \<and> trim m \<noteq> []"
  by (cases e) (auto simp: cf_confirm_def cf_reject_def cf_cancel_def split: if_splits)

lemma cf_session_rejects_nonblank:
  "cf_session es f = Some (RejectedMsg m) \<Longrightarrow> trim m \<noteq> []"
proof (induction es arbitrary: f)
  case Nil
  then show ?case by simp
next
  case (Cons e es)
  obtain f' out where ev: "cf_event e f = (f', out)" by fastforce
  show ?case
  proof (cases out)
    case (CloseWith r)
    then show ?thesis using Cons.prems ev cf_event_rejects_nonblank [of e f f' m] by force
  qed (use Cons ev in simp_all)
qed

lemma rf_session_reject_flow:
  "rf_session [RfType ''looks fine'', RfRKey False, RfRKey False, RfType ''wrong directory'', RfRKey False] rf_init =
     Some (RejectedWith ''wrong directory'')"
  by (simp add: rf_init_def rf_toggle_def rf_accept_def rf_reject_def js_simps is_ws_def)

lemma rf_enter_drops_reason:
  "rf_session [RfType ''looks fine'', RfRKey False, RfType ''wrong directory'', RfEnter False, RfEnter False] rf_init =
     Some (Accepted ''looks fine'')"
  by (simp add: rf_init_def rf_toggle_def rf_accept_def rf_reject_def js_simps is_ws_def)

lemma rf_session_accept_restores:
  "rf_session [RfType ''looks fine'', RfRKey False, RfEscape True, RfEnter False] rf_init = Some (Accepted ''looks fine'')"
  by (simp add: rf_init_def rf_toggle_def rf_accept_def rf_reject_def rf_cancel_def)

end
