(* ===== verification/OutputStorage.thy ===== *)
theory OutputStorage
  imports Prelude
begin

text \<open>
  \<open>CommandOutputStorageService\<close> of the VS Code agent plugin (\<open>src/unnamed/part_004\<close>):
  command outputs kept in memory in a \<open>Map\<close> from id to output, at most 100 of them, and
  read back whole or a page of lines at a time.
  \<^item> The \<open>Map\<close> is the insertion-ordered association list \<open>jsmap\<close> of the prelude.
  \<^item> The id (\<open>cmd_<Date.now()>_<random>\<close>) is an argument of \<open>store_output\<close>; the timestamp is
    the caller's, part of the stored data.
  \<^item> \<open>Math.ceil(a / b)\<close> is \<open>js_ceil_div\<close>: for \<open>b = 0\<close> the division is not finite
    (\<open>Infinity\<close> or \<open>NaN\<close>), which is \<open>None\<close>.
\<close>

record stored_output =
  so_id :: string
  so_command :: string
  so_output :: string
  so_prompt_shell :: "string option"
  so_exit_code :: "int option"
  so_timestamp :: nat
  so_aborted :: bool
  so_tab_id :: int

type_synonym output_map = "(string, stored_output) jsmap"

definition max_outputs :: nat where
  "max_outputs = 100"

text \<open>
  \<open>storeOutput\<close>: set the entry; above 100 entries, the keys sorted by timestamp (a stable
  sort of the keys in insertion order) lose their first \<open>size - 100\<close>.
\<close>

definition store_output :: "string \<Rightarrow> stored_output \<Rightarrow> output_map \<Rightarrow> output_map \<times> string" where
  "store_output i d m =
     (let m1 = jsmap_set i (d\<lparr>so_id := i\<rparr>) m in
      if length m1 > max_outputs then
        (let oldest = take (length m1 - max_outputs)
                        (sort_key (\<lambda>k. case map_of m1 k of Some out \<Rightarrow> so_timestamp out | None \<Rightarrow> 0) (jsmap_keys m1))
         in (foldl (\<lambda>acc k. jsmap_delete k acc) m1 oldest, i))
      else (m1, i))"

definition get_output :: "string \<Rightarrow> output_map \<Rightarrow> stored_output option" where
  "get_output i m = map_of m i"

definition js_ceil_div :: "int \<Rightarrow> nat \<Rightarrow> int option" where
  "js_ceil_div a b = (if b = 0 then None else Some (- ((- a) div int b)))"

record output_page =
  pg_lines :: "string list"
  pg_total_lines :: nat
  pg_part :: "int option"
  pg_total_parts :: "int option"
  pg_command :: string
  pg_exit_code :: "int option"
  pg_prompt_shell :: "string option"
  pg_aborted :: bool

text \<open>
  \<open>getPaginatedOutput\<close>: the lines from \<open>startLine\<close> (1-based, clamped at the first) up
  to \<open>maxLines\<close> of them.
\<close>

definition get_paginated_output :: "string \<Rightarrow> int \<Rightarrow> nat \<Rightarrow> output_map \<Rightarrow> output_page option" where
  "get_paginated_output i start_line max_lines m =
     (case get_output i m of
        None \<Rightarrow> None
      | Some out \<Rightarrow>
          (let ls = split_on (CHR 0x0A) (so_output out);
               total = length ls;
               start_idx = nat (max 0 (start_line - 1));
               end_idx = min (start_idx + max_lines) total
           in Some \<lparr>pg_lines = take (end_idx - start_idx) (drop start_idx ls), pg_total_lines = total,
                    pg_part = js_ceil_div start_line max_lines,
                    pg_total_parts = js_ceil_div (int total) max_lines,
                    pg_command = so_command out, pg_exit_code = so_exit_code out,
                    pg_prompt_shell = so_prompt_shell out, pg_aborted = so_aborted out\<rparr>))"

subsection \<open>Lemmas\<close>

lemma take_min_drop: "take (min (a + n) (length xs) - a) (drop a xs) = take n (drop a xs)"
  by (simp add: min_def take_all)

lemma pages_concat_gen:
  "length xs \<le> c * n \<Longrightarrow> concat (map (\<lambda>k. take n (drop (k * n) xs)) [0..<c]) = xs"
proof (induction c arbitrary: xs)
  case (Suc c)
  have "length (drop n xs) \<le> c * n" using Suc.prems by simp
  then have ih: "concat (map (\<lambda>k. take n (drop (k * n) (drop n xs))) [0..<c]) = drop n xs" by (rule Suc.IH)
  have "map (\<lambda>k. take n (drop (k * n) xs)) [0..<Suc c] =
      take n xs # map (\<lambda>k. take n (drop (k * n) (drop n xs))) [0..<c]"
    by (simp only: upt_conv_Cons [of 0 "Suc c"] zero_less_Suc map_Suc_upt [symmetric] list.map map_map)
       (simp add: comp_def add.commute)
  then show ?case using ih by simp
qed simp

lemma ceil_div_cover: "0 < n \<Longrightarrow> (a::nat) \<le> (a + n - 1) div n * n"
proof -
  assume n: "0 < n"
  have "(a + n - 1) div n * n + (a + n - 1) mod n = a + n - 1" by (rule div_mult_mod_eq)
  moreover have "(a + n - 1) mod n < n" using n by simp
  ultimately show ?thesis by linarith
qed

lemma pages_concat:
  "0 < n \<Longrightarrow> concat (map (\<lambda>k. take n (drop (k * n) xs)) [0..<(length xs + n - 1) div n]) = xs"
  by (rule pages_concat_gen) (rule ceil_div_cover)


theorem paginated_output_roundtrip:
  assumes o: "get_output i m = Some out" and n: "0 < n"
  shows "concat (map (\<lambda>k. pg_lines (the (get_paginated_output i (int (k * n) + 1) n m)))
            [0..<(length (split_on (CHR 0x0A) (so_output out)) + n - 1) div n]) =
         split_on (CHR 0x0A) (so_output out)"
proof -
  let ?ls = "split_on (CHR 0x0A) (so_output out)"
  have eq: "pg_lines (the (get_paginated_output i (int (k * n) + 1) n m)) = take n (drop (k * n) ?ls)" for k
    using o by (simp add: get_paginated_output_def Let_def take_min_drop flip: of_nat_mult)
  show ?thesis unfolding eq by (rule pages_concat [OF n])
qed

lemma jsmap_keys_foldl_delete:
  "jsmap_keys (foldl (\<lambda>acc k. jsmap_delete k acc) m ks) = filter (\<lambda>k. k \<notin> set ks) (jsmap_keys m)"
  by (induction ks arbitrary: m) (auto simp: jsmap_keys_delete filter_filter intro: filter_cong)

lemma length_filter_not_in:
  assumes "distinct xs" "distinct ks" "set ks \<subseteq> set xs"
  shows "length (filter (\<lambda>k. k \<notin> set ks) xs) = length xs - length ks"
proof -
  have "set (filter (\<lambda>k. k \<notin> set ks) xs) = set xs - set ks" by auto
  then have "length (filter (\<lambda>k. k \<notin> set ks) xs) = card (set xs - set ks)"
    using assms(1) by (metis distinct_card distinct_filter)
  also have "\<dots> = card (set xs) - card (set ks)" using assms(3) by (simp add: card_Diff_subset)
  finally show ?thesis using assms(1,2) by (simp add: distinct_card)
qed

lemma store_output_bounded:
  assumes d: "distinct (jsmap_keys m)" and l: "length m \<le> max_outputs"
  shows "length (fst (store_output i x m)) \<le> max_outputs \<and> distinct (jsmap_keys (fst (store_output i x m)))"
proof -
  let ?m1 = "jsmap_set i (x\<lparr>so_id := i\<rparr>) m"
  have d1: "distinct (jsmap_keys ?m1)" using d by (rule distinct_jsmap_set)
  have len: "length (jsmap_keys ?m1) = length ?m1" by (simp add: jsmap_keys_def)
  show ?thesis
  proof (cases "length ?m1 > max_outputs")
    case True
    let ?ks = "take (length ?m1 - max_outputs)
                (sort_key (\<lambda>k. case map_of ?m1 k of Some out \<Rightarrow> so_timestamp out | None \<Rightarrow> 0) (jsmap_keys ?m1))"
    have ks: "distinct ?ks" "set ?ks \<subseteq> set (jsmap_keys ?m1)" "length ?ks = length ?m1 - max_outputs"
      using d1 len by (auto dest: in_set_takeD simp: min_def)
    have "length (foldl (\<lambda>acc k. jsmap_delete k acc) ?m1 ?ks) =
        length (jsmap_keys (foldl (\<lambda>acc k. jsmap_delete k acc) ?m1 ?ks))" by (simp add: jsmap_keys_def)
    also have "\<dots> = length (filter (\<lambda>k. k \<notin> set ?ks) (jsmap_keys ?m1))" by (simp only: jsmap_keys_foldl_delete)
    also have "\<dots> = length ?m1 - (length ?m1 - max_outputs)"
      using length_filter_not_in [OF d1 ks(1,2)] ks(3) len by simp
    finally have "length (foldl (\<lambda>acc k. jsmap_delete k acc) ?m1 ?ks) = length ?m1 - (length ?m1 - max_outputs)" .
    moreover have "distinct (jsmap_keys (foldl (\<lambda>acc k. jsmap_delete k acc) ?m1 ?ks))"
      using d1 by (simp add: jsmap_keys_foldl_delete)
    ultimately show ?thesis using True by (simp add: store_output_def Let_def)
  next
    case False
    then show ?thesis using d1 by (simp add: store_output_def Let_def)
  qed
qed


lemma jsmap_set_fresh: "k \<notin> set (jsmap_keys m) \<Longrightarrow> jsmap_set k v m = m @ [(k, v)]"
  by (induction k v m rule: jsmap_set.induct) (auto simp: jsmap_keys_def)

lemma sort_key_unique_min:
  assumes "x \<in> set xs" "\<forall>y \<in> set xs. y \<noteq> x \<longrightarrow> f x < f y"
  shows "take 1 (sort_key f xs) = [x]"
proof -
  have "sort_key f xs \<noteq> []" using assms(1) by (metis empty_iff list.set(1) set_sort)
  then obtain a r where ar: "sort_key f xs = a # r" by (meson neq_Nil_conv)
  have "sorted (map f (a # r))" using ar by (metis sorted_sort_key)
  then have le: "f a \<le> f y" if "y \<in> set (a # r)" for y using that by auto
  have "x \<in> set (a # r)" "a \<in> set xs" using assms(1) ar by (metis set_sort list.set_intros(1))+
  then have "a = x" using le assms(2) by (meson not_le)
  then show ?thesis using ar by simp
qed

lemma store_output_evicts_older:
  assumes d: "distinct (jsmap_keys m)" and full: "length m = max_outputs"
    and fresh: "i \<notin> set (jsmap_keys m)" and older: "\<forall>p \<in> set m. so_timestamp x < so_timestamp (snd p)"
  shows "get_output i (fst (store_output i x m)) = None"
proof -
  let ?x = "x\<lparr>so_id := i\<rparr>"
  let ?m1 = "m @ [(i, ?x)]"
  let ?f = "\<lambda>k. case map_of ?m1 k of Some out \<Rightarrow> so_timestamp out | None \<Rightarrow> 0"
  have m1: "jsmap_set i ?x m = ?m1" using fresh by (rule jsmap_set_fresh)
  have "map_of m i = None" using fresh by (simp add: map_of_eq_None_iff jsmap_keys_def)
  then have fi: "?f i = so_timestamp x" by (simp add: map_add_def)
  have "?f i < ?f k" if "k \<in> set (jsmap_keys ?m1)" "k \<noteq> i" for k
  proof -
    from that obtain v where "(k, v) \<in> set m" by (auto simp: jsmap_keys_def)
    then have "map_of m k = Some v"
      using d by (simp add: jsmap_keys_def)
    then show ?thesis using older \<open>(k, v) \<in> set m\<close> fi by (auto simp: map_of_append)
  qed
  then have "take 1 (sort_key ?f (jsmap_keys ?m1)) = [i]"
    by (intro sort_key_unique_min) (auto simp: jsmap_keys_def)
  moreover have "length ?m1 - max_outputs = 1" using full by simp
  ultimately show ?thesis using full m1
    by (simp add: store_output_def Let_def get_output_def map_of_jsmap_delete max_outputs_def)
qed

end
