(* ===== verification/TerminalMenus.thy ===== *)
theory TerminalMenus
  imports Relay
begin

text \<open>
  The terminal plugin's session-sharing decorator and its tab context menus
  (\<open>src/unnamed/part_010\<close>).
  \<^item> \<open>SessionSharingDecorator\<close> keeps a \<open>Map\<close> from terminals to shared-session ids and,
    for an attached terminal, subscriptions that broadcast the terminal's output and stop
    sharing when the session closes. \<open>SessionSharingService\<close> and the terminal API belong
    to \<open>tlink-core\<close>, outside the sources: what the decorator asks of them is a
    \<open>sharing_view\<close> argument of each step. The base class \<open>TerminalDecorator\<close> drops a
    terminal's subscriptions on \<open>detach\<close>.
  \<^item> The context-menu providers build item lists from what the tab reports (\<open>tab_info\<close>);
    the click handlers with logic (sharing, session-log directory, save as profile) are
    functions from the results of the services they await to the profile they change and
    the list of effects they issue. Labels are the translation keys.
\<close>

subsection \<open>The session-sharing decorator\<close>

type_synonym terminal = nat

record shared_info =
  si_id :: string
  si_mode :: share_mode
  si_viewers :: nat
  si_expires_at :: "int option"

text \<open>What the decorator asks \<open>SessionSharingService\<close> and the terminal.\<close>

record sharing_view =
  sv_is_shared :: "terminal \<Rightarrow> bool"
  sv_get_shared :: "terminal \<Rightarrow> shared_info option"
  sv_has_session :: "terminal \<Rightarrow> bool"

datatype sub_kind = SubOutput string | SubClosed | SubDestroyed

record decorator =
  dc_shared :: "(terminal, string) jsmap"
  dc_subs :: "(terminal \<times> sub_kind) list"

definition dc_init :: decorator where
  "dc_init = \<lparr>dc_shared = [], dc_subs = []\<rparr>"

text \<open>\<open>attachToSharedSession\<close>: once per terminal, three subscriptions.\<close>

definition attach_to_shared_session :: "sharing_view \<Rightarrow> terminal \<Rightarrow> decorator \<Rightarrow> decorator" where
  "attach_to_shared_session sv t d =
     (case sv_get_shared sv t of
        None \<Rightarrow> d
      | Some ss \<Rightarrow>
          (if \<not> sv_has_session sv t then d
           else if t \<in> set (jsmap_keys (dc_shared d)) then d
           else d\<lparr>dc_shared := jsmap_set t (si_id ss) (dc_shared d),
                  dc_subs := dc_subs d @ [(t, SubOutput (si_id ss)), (t, SubClosed), (t, SubDestroyed)]\<rparr>))"

definition dc_attach :: "sharing_view \<Rightarrow> terminal \<Rightarrow> decorator \<Rightarrow> decorator" where
  "dc_attach sv t d = (if sv_is_shared sv t then attach_to_shared_session sv t d else d)"

definition detach_from_shared_session :: "terminal \<Rightarrow> decorator \<Rightarrow> decorator" where
  "detach_from_shared_session t d =
     (if t \<notin> set (jsmap_keys (dc_shared d)) then d else d\<lparr>dc_shared := jsmap_delete t (dc_shared d)\<rparr>)"

text \<open>\<open>detach\<close>: the decorator's own map, then \<open>super.detach\<close>, which unsubscribes.\<close>

definition dc_detach :: "terminal \<Rightarrow> decorator \<Rightarrow> decorator" where
  "dc_detach t d =
     (let d1 = detach_from_shared_session t d in d1\<lparr>dc_subs := filter (\<lambda>(t', _). t' \<noteq> t) (dc_subs d1)\<rparr>)"

datatype dc_effect = BroadcastOutput string bytes | StopSharing terminal

text \<open>The subscribers of the terminal's \<open>binaryOutput$\<close>, \<open>closed$\<close> and \<open>destroyed$\<close>, in subscription order.\<close>

definition dc_output :: "terminal \<Rightarrow> bytes \<Rightarrow> decorator \<Rightarrow> dc_effect list" where
  "dc_output t x d =
     concat (map (\<lambda>(t', k). if t' = t then (case k of SubOutput sid \<Rightarrow> [BroadcastOutput sid x] | _ \<Rightarrow> []) else [])
       (dc_subs d))"

definition dc_closed :: "terminal \<Rightarrow> decorator \<Rightarrow> dc_effect list" where
  "dc_closed t d = map (\<lambda>_. StopSharing t) (filter (\<lambda>(t', k). t' = t \<and> k = SubClosed) (dc_subs d))"

definition dc_destroyed :: "terminal \<Rightarrow> decorator \<Rightarrow> dc_effect list" where
  "dc_destroyed t d = map (\<lambda>_. StopSharing t) (filter (\<lambda>(t', k). t' = t \<and> k = SubDestroyed) (dc_subs d))"

datatype dc_event = DcAttach terminal | DcDetach terminal | DcOutput terminal bytes | DcClosed terminal
  | DcDestroyed terminal

fun dc_step :: "sharing_view \<Rightarrow> dc_event \<Rightarrow> decorator \<Rightarrow> decorator \<times> dc_effect list" where
  "dc_step sv (DcAttach t) d = (dc_attach sv t d, [])"
| "dc_step sv (DcDetach t) d = (dc_detach t d, [])"
| "dc_step sv (DcOutput t x) d = (d, dc_output t x d)"
| "dc_step sv (DcClosed t) d = (d, dc_closed t d)"
| "dc_step sv (DcDestroyed t) d = (d, dc_destroyed t d)"

text \<open>The service's answers may change between events, so each event comes with its view.\<close>

inductive dc_reachable :: "decorator \<Rightarrow> bool" where
  init: "dc_reachable dc_init"
| step: "dc_reachable d \<Longrightarrow> dc_reachable (fst (dc_step sv e d))"

fun dc_run :: "(sharing_view \<times> dc_event) list \<Rightarrow> decorator \<Rightarrow> decorator \<times> dc_effect list" where
  "dc_run [] d = (d, [])"
| "dc_run ((sv, e) # es) d =
     (case dc_step sv e d of (d1, fx1) \<Rightarrow> (case dc_run es d1 of (d2, fx2) \<Rightarrow> (d2, fx1 @ fx2)))"

text \<open>The kinds of the subscriptions a terminal holds, in subscription order.\<close>

definition subs_of :: "terminal \<Rightarrow> (terminal \<times> sub_kind) list \<Rightarrow> sub_kind list" where
  "subs_of t xs = map snd (filter (\<lambda>(t', _). t' = t) xs)"

definition dc_inv :: "decorator \<Rightarrow> bool" where
  "dc_inv d \<longleftrightarrow> distinct (jsmap_keys (dc_shared d)) \<and>
     (\<forall>t. subs_of t (dc_subs d) =
            (case map_of (dc_shared d) t of None \<Rightarrow> [] | Some sid \<Rightarrow> [SubOutput sid, SubClosed, SubDestroyed]))"

text \<open>
  The contract of the decorator: a partial map from terminals to session ids; a terminal
  is attached at most once, while the service reports it shared with a live session; its
  output goes once to its session, and its end stops sharing once per event.
\<close>

type_synonym share_map = "terminal \<Rightarrow> string option"

fun dc_spec_step :: "sharing_view \<Rightarrow> dc_event \<Rightarrow> share_map \<Rightarrow> share_map \<times> dc_effect list" where
  "dc_spec_step sv (DcAttach t) m =
     (case sv_get_shared sv t of
        Some ss \<Rightarrow> if sv_is_shared sv t \<and> sv_has_session sv t \<and> m t = None then (m(t \<mapsto> si_id ss), []) else (m, [])
      | None \<Rightarrow> (m, []))"
| "dc_spec_step sv (DcDetach t) m = (m(t := None), [])"
| "dc_spec_step sv (DcOutput t x) m = (m, case m t of None \<Rightarrow> [] | Some sid \<Rightarrow> [BroadcastOutput sid x])"
| "dc_spec_step sv (DcClosed t) m = (m, case m t of None \<Rightarrow> [] | Some _ \<Rightarrow> [StopSharing t])"
| "dc_spec_step sv (DcDestroyed t) m = (m, case m t of None \<Rightarrow> [] | Some _ \<Rightarrow> [StopSharing t])"

definition dc_abs :: "decorator \<Rightarrow> share_map" where
  "dc_abs d = map_of (dc_shared d)"

subsection \<open>Context menus\<close>

datatype tab_kind = OtherTab | TerminalTab | ConnectableTab

text \<open>
  What a provider reads from the tab: its class (\<open>BaseTerminalTabComponent\<close>, with
  \<open>ConnectableTerminalTabComponent\<close> a subclass), toolbar flags, whether its session reports
  a working directory, and the number of tabs of a \<open>SplitTabComponent\<close> parent.
\<close>

record tab_info =
  ti_kind :: tab_kind
  ti_enable_toolbar :: bool
  ti_pin_toolbar :: bool
  ti_supports_cwd :: bool
  ti_split_size :: "nat option"

definition is_terminal :: "tab_info \<Rightarrow> bool" where
  "is_terminal t \<longleftrightarrow> ti_kind t \<noteq> OtherTab"

datatype menu_action = ACopy | APaste | AShowToolbar | ACopyPath | AFocusAllTabs | AFocusAllPanes
  | ADisconnect | AReconnect | ACopyShareLink | AViewSharing | AStopSharing | AShareSession
  | ASetLogDirectory | AUseCwdForLogs | ASaveAsProfile

record menu_item =
  mi_label :: string
  mi_action :: menu_action
  mi_checked :: "bool option"
  mi_enabled :: bool

definition item :: "string \<Rightarrow> menu_action \<Rightarrow> menu_item" where
  "item l a = \<lparr>mi_label = l, mi_action = a, mi_checked = None, mi_enabled = True\<rparr>"

definition copy_paste_items :: "bool \<Rightarrow> tab_info \<Rightarrow> menu_item list" where
  "copy_paste_items tab_header t =
     (if tab_header then [] else if is_terminal t then [item ''Copy'' ACopy, item ''Paste'' APaste] else [])"

definition misc_items :: "tab_info \<Rightarrow> menu_item list" where
  "misc_items t =
     (if is_terminal t \<and> ti_enable_toolbar t \<and> \<not> ti_pin_toolbar t then [item ''Show toolbar'' AShowToolbar] else []) @
     (if is_terminal t \<and> ti_supports_cwd t then [item ''Copy current path'' ACopyPath] else []) @
     [item ''Focus all tabs'' AFocusAllTabs] @
     (case ti_split_size t of Some n \<Rightarrow> if 1 < n then [item ''Focus all panes'' AFocusAllPanes] else [] | None \<Rightarrow> [])"

definition reconnect_items :: "tab_info \<Rightarrow> menu_item list" where
  "reconnect_items t =
     (if ti_kind t = ConnectableTab then [item ''Disconnect'' ADisconnect, item ''Reconnect'' AReconnect] else [])"

text \<open>\<open>LegacyContextMenu\<close>: the items of the injected terminal providers, in order.\<close>

definition legacy_items :: "(tab_info \<Rightarrow> menu_item list) list option \<Rightarrow> tab_info \<Rightarrow> menu_item list" where
  "legacy_items ps t =
     (case ps of None \<Rightarrow> [] | Some qs \<Rightarrow> if is_terminal t then concat (map (\<lambda>p. p t) qs) else [])"

definition sharing_items :: "bool \<Rightarrow> shared_info option \<Rightarrow> tab_info \<Rightarrow> menu_item list" where
  "sharing_items shared ss t =
     (if \<not> is_terminal t then []
      else if shared \<and> ss \<noteq> None
      then [item ''Copy share link'' ACopyShareLink, item ''View sharing details'' AViewSharing,
            item ''Stop sharing'' AStopSharing]
      else [item ''Share session'' AShareSession])"

subsection \<open>Sharing clicks\<close>

datatype menu_effect = Notice string | NotifyError string | NotifyInfo string | SaveConfig | OpenPath string
  | ShareSessionCall share_mode | CopyShareLinkCall | StopSharingCall
  | OpenShareModal string share_mode nat "int option"

definition copy_link_click :: "bool \<Rightarrow> menu_effect list" where
  "copy_link_click ok =
     CopyShareLinkCall # (if ok then [Notice ''Share link copied to clipboard''] else [NotifyError ''Failed to copy share link''])"

text \<open>\<open>Math.round(x / 60000)\<close> for an integer number of milliseconds: halves round up.\<close>

definition js_round_div :: "int \<Rightarrow> int \<Rightarrow> int" where
  "js_round_div x m = (2 * x + m) div (2 * m)"

definition expires_in_minutes :: "int \<Rightarrow> shared_info \<Rightarrow> int option" where
  "expires_in_minutes now ss =
     (case si_expires_at ss of
        None \<Rightarrow> None
      | Some e \<Rightarrow> (let x = js_round_div (e - now) 60000 in if 0 < x then Some x else None))"

text \<open>\<open>View sharing details\<close>: \<open>shareSession\<close> is called again with the session's mode.\<close>

definition view_details_click :: "int \<Rightarrow> shared_info \<Rightarrow> string option \<Rightarrow> menu_effect list" where
  "view_details_click now ss url =
     ShareSessionCall (si_mode ss) #
       (case url of None \<Rightarrow> [] | Some u \<Rightarrow> [OpenShareModal u (si_mode ss) (si_viewers ss) (expires_in_minutes now ss)])"

definition stop_sharing_click :: "menu_effect list" where
  "stop_sharing_click = [StopSharingCall, Notice ''Session sharing stopped'']"

definition share_error :: "string \<Rightarrow> menu_effect" where
  "share_error e = NotifyError (''Failed to share session: '' @ e)"

text \<open>
  \<open>shareWithMode\<close>: \<open>res\<close> is what \<open>shareSession\<close> gives (\<open>Inl\<close> the message of an
  exception), \<open>copy\<close> what \<open>copyShareableLink\<close> gives; both exceptions land in the same
  \<open>catch\<close>.
\<close>

definition share_with_mode :: "share_mode \<Rightarrow> string + string option \<Rightarrow> string + bool \<Rightarrow> menu_effect list" where
  "share_with_mode m res copy =
     ShareSessionCall m #
       (case res of
          Inl e \<Rightarrow> [share_error e]
        | Inr None \<Rightarrow> [NotifyError ''Failed to share session. Please check console for details.'']
        | Inr (Some u) \<Rightarrow>
            CopyShareLinkCall #
              (case copy of
                 Inl e \<Rightarrow> [share_error e]
               | Inr _ \<Rightarrow> [OpenShareModal u m 0 None, Notice ''Session shared! Share URL copied to clipboard.'']))"

text \<open>\<open>Share session\<close>: nothing while a selector is open or when the user cancels it.\<close>

definition share_click :: "bool \<Rightarrow> share_mode option \<Rightarrow> string + string option \<Rightarrow> string + bool \<Rightarrow> menu_effect list" where
  "share_click selector_active selected res copy =
     (if selector_active then []
      else case selected of None \<Rightarrow> [] | Some m \<Rightarrow> share_with_mode m res copy)"

subsection \<open>Session-log and profile clicks\<close>

record session_log =
  sl_enabled :: "bool option"
  sl_directory :: "string option"
  sl_filename_template :: "string option"
  sl_append :: "bool option"

text \<open>A profile: the options object is a map of which the clicks touch \<open>cwd\<close> only.\<close>

record profile =
  pf_id :: string
  pf_type :: string
  pf_name :: string
  pf_options :: "(string, string) jsmap"
  pf_group :: "string option"
  pf_icon :: "string option"
  pf_color :: "string option"
  pf_disable_dynamic_title :: "bool option"
  pf_behavior_on_session_end :: "string option"
  pf_session_log :: "session_log option"

definition has_log_directory :: "profile \<Rightarrow> bool" where
  "has_log_directory p =
     (case pf_session_log p of None \<Rightarrow> False
      | Some l \<Rightarrow> (case sl_directory l of None \<Rightarrow> False | Some d \<Rightarrow> trim d \<noteq> []))"

text \<open>The two log items exist for a stored profile on a platform that can pick a directory.\<close>

definition save_profile_items :: "bool \<Rightarrow> profile option \<Rightarrow> tab_info \<Rightarrow> menu_item list" where
  "save_profile_items can_pick stored t =
     (if \<not> is_terminal t then []
      else (case stored of
              Some p \<Rightarrow>
                if can_pick
                then [(item ''Set log directory'' ASetLogDirectory)\<lparr>mi_checked := Some (has_log_directory p)\<rparr>,
                      (item ''Use current working directory for logs'' AUseCwdForLogs)\<lparr>mi_enabled := ti_supports_cwd t\<rparr>]
                else []
            | None \<Rightarrow> []) @ [item ''Save as profile'' ASaveAsProfile])"

text \<open>\<open>nextSettings\<close>: \<open>enabled\<close> defaults to true, the rest is carried over.\<close>

definition next_log_settings :: "profile \<Rightarrow> string option \<Rightarrow> session_log" where
  "next_log_settings p dir =
     \<lparr>sl_enabled = Some (case pf_session_log p of None \<Rightarrow> True | Some l \<Rightarrow> (case sl_enabled l of None \<Rightarrow> True | Some b \<Rightarrow> b)),
      sl_directory = dir,
      sl_filename_template = (case pf_session_log p of None \<Rightarrow> None | Some l \<Rightarrow> sl_filename_template l),
      sl_append = (case pf_session_log p of None \<Rightarrow> None | Some l \<Rightarrow> sl_append l)\<rparr>"

definition log_has_settings :: "session_log \<Rightarrow> bool" where
  "log_has_settings l \<longleftrightarrow>
     sl_enabled l = Some True \<or> sl_append l = Some True \<or> (sl_directory l \<noteq> None \<and> sl_directory l \<noteq> Some []) \<or>
     (sl_filename_template l \<noteq> None \<and> sl_filename_template l \<noteq> Some [])"

datatype dir_pick = PickFailed | Picked "string option"

text \<open>
  \<open>Set log directory\<close>: clear the directory when there is one, otherwise ask for one; an
  empty result keeps the settings, settings without any value are deleted, and the
  configuration is saved. The tab's profile receives the same settings.
\<close>

definition set_log_directory_click :: "dir_pick \<Rightarrow> profile \<Rightarrow> profile \<times> menu_effect list" where
  "set_log_directory_click pick p =
     (let apply_dir = (\<lambda>dir. let n = next_log_settings p dir in
                        (p\<lparr>pf_session_log := (if log_has_settings n then Some n else None)\<rparr>, [SaveConfig]))
      in if has_log_directory p then apply_dir None
         else case pick of
                PickFailed \<Rightarrow> (p, [NotifyError ''Directory selection is not supported on this platform''])
              | Picked None \<Rightarrow> (p, [])
              | Picked (Some d) \<Rightarrow> if d = [] then (p, []) else apply_dir (Some d))"

text \<open>
  \<open>Use current working directory for logs\<close>: the session's working directory, else the
  \<open>cwd\<close> option of the tab's profile \<open>tp\<close>; none or an empty one is an error. The stored
  profile \<open>p\<close> gets the new settings.
\<close>

definition use_cwd_for_logs_click :: "bool \<Rightarrow> string option \<Rightarrow> profile \<Rightarrow> profile \<Rightarrow> profile \<times> menu_effect list" where
  "use_cwd_for_logs_click web session_cwd tp p =
     (case (case session_cwd of Some c \<Rightarrow> Some c | None \<Rightarrow> map_of (pf_options tp) ''cwd'') of
        None \<Rightarrow> (p, [NotifyError ''Shell does not support current path detection''])
      | Some c \<Rightarrow>
          if c = [] then (p, [NotifyError ''Shell does not support current path detection''])
          else (p\<lparr>pf_session_log := Some (next_log_settings p (Some c))\<rparr>,
                [SaveConfig] @ (if web then [] else [OpenPath c]) @
                [NotifyInfo ''Session log directory set to current working directory'']))"

text \<open>
  \<open>Save as profile\<close>: the name from the prompt (\<open>None\<close> when dismissed), a copy of the
  options with the current directory, an id from the type, the slug of the name and a
  fresh \<open>uuidv4()\<close> (the counter \<open>u\<close>); the list of profiles gains it at the end.
\<close>

definition save_as_profile_click ::
  "(string \<Rightarrow> string) \<Rightarrow> uuid \<Rightarrow> string option \<Rightarrow> string option \<Rightarrow> profile \<Rightarrow> profile list \<Rightarrow>
     profile list \<times> uuid \<times> menu_effect list" where
  "save_as_profile_click slugify u name session_cwd tp ps =
     (case name of
        None \<Rightarrow> (ps, u, [])
      | Some n \<Rightarrow>
          if n = [] then (ps, u, [])
          else
            (let cwd = (case session_cwd of Some c \<Rightarrow> Some c | None \<Rightarrow> map_of (pf_options tp) ''cwd'');
                 opts = (case cwd of Some c \<Rightarrow> if c = [] then pf_options tp else jsmap_set ''cwd'' c (pf_options tp)
                                   | None \<Rightarrow> pf_options tp);
                 np = \<lparr>pf_id = pf_type tp @ '':custom:'' @ slugify n @ '':'' @ nat_to_string u,
                       pf_type = pf_type tp, pf_name = n, pf_options = opts, pf_group = pf_group tp,
                       pf_icon = pf_icon tp, pf_color = pf_color tp,
                       pf_disable_dynamic_title = pf_disable_dynamic_title tp,
                       pf_behavior_on_session_end = pf_behavior_on_session_end tp, pf_session_log = None\<rparr>
             in (ps @ [np], Suc u, [SaveConfig, NotifyInfo ''Saved''])))"

subsection \<open>Demonstration views\<close>

text \<open>A view in which terminal 1 is shared in session \<open>s1\<close>, and one in which nothing is shared.\<close>

definition demo_sv :: sharing_view where
  "demo_sv = \<lparr>sv_is_shared = (\<lambda>t. t = 1),
     sv_get_shared = (\<lambda>t. if t = 1 then Some \<lparr>si_id = ''s1'', si_mode = Interactive, si_viewers = 0, si_expires_at = None\<rparr> else None),
     sv_has_session = (\<lambda>_. True)\<rparr>"

definition demo_sv_unshared :: sharing_view where
  "demo_sv_unshared = demo_sv\<lparr>sv_is_shared := (\<lambda>_. False), sv_get_shared := (\<lambda>_. None)\<rparr>"

subsection \<open>Lemmas\<close>

lemma subs_of_append [simp]: "subs_of t (xs @ ys) = subs_of t xs @ subs_of t ys"
  by (simp add: subs_of_def)

lemma subs_of_filter_other:
  "subs_of t (filter (\<lambda>(t', _). t' \<noteq> u) xs) = (if t = u then [] else subs_of t xs)"
  by (induction xs) (auto simp: subs_of_def)

lemma dc_output_subs:
  "dc_output t x d = concat (map (\<lambda>k. case k of SubOutput sid \<Rightarrow> [BroadcastOutput sid x] | _ \<Rightarrow> []) (subs_of t (dc_subs d)))"
proof -
  have "\<And>xs. concat (map (\<lambda>(t', k). if t' = t then (case k of SubOutput sid \<Rightarrow> [BroadcastOutput sid x] | _ \<Rightarrow> []) else []) xs)
        = concat (map (\<lambda>k. case k of SubOutput sid \<Rightarrow> [BroadcastOutput sid x] | _ \<Rightarrow> []) (subs_of t xs))"
    subgoal for xs by (induction xs) (auto simp: subs_of_def)
    done
  then show ?thesis by (simp add: dc_output_def)
qed

lemma dc_ended_subs:
  "dc_closed t d = map (\<lambda>_. StopSharing t) (filter (\<lambda>k. k = SubClosed) (subs_of t (dc_subs d)))"
  "dc_destroyed t d = map (\<lambda>_. StopSharing t) (filter (\<lambda>k. k = SubDestroyed) (subs_of t (dc_subs d)))"
  by (simp_all add: dc_closed_def dc_destroyed_def subs_of_def filter_map comp_def case_prod_unfold conj_commute)

lemma map_of_None_keys: "map_of m k = None \<longleftrightarrow> k \<notin> set (jsmap_keys m)"
  by (simp add: jsmap_keys_def map_of_eq_None_iff)

lemma dc_inv_init: "dc_inv dc_init"
  by (simp add: dc_inv_def dc_init_def jsmap_keys_def subs_of_def)

lemma dc_inv_attach: "dc_inv d \<Longrightarrow> dc_inv (attach_to_shared_session sv t d)"
  by (auto simp: dc_inv_def attach_to_shared_session_def jsmap_simps map_of_None_keys split: option.splits)
     (auto simp: subs_of_def)

lemma dc_inv_detach: "dc_inv d \<Longrightarrow> dc_inv (dc_detach t d)"
  by (auto simp: dc_inv_def dc_detach_def detach_from_shared_session_def jsmap_simps subs_of_filter_other
      map_of_None_keys split: option.splits)

lemma dc_inv_step: "dc_inv d \<Longrightarrow> dc_inv (fst (dc_step sv e d))"
  by (cases e) (simp_all add: dc_attach_def dc_inv_attach dc_inv_detach)

lemma dc_reachable_inv: "dc_reachable d \<Longrightarrow> dc_inv d"
  by (induction rule: dc_reachable.induct) (simp_all add: dc_inv_init dc_inv_step)

lemma dc_late_share_never_broadcast:
  "dc_run [(demo_sv_unshared, DcAttach 1), (demo_sv, DcOutput 1 [104, 105])] dc_init = (dc_init, [])"
  by (simp add: demo_sv_unshared_def demo_sv_def dc_attach_def dc_output_def dc_init_def)

lemma dc_output_attached:
  "dc_reachable d \<Longrightarrow> snd (dc_step sv (DcOutput t x) d) = (case dc_abs d t of None \<Rightarrow> [] | Some sid \<Rightarrow> [BroadcastOutput sid x])"
  using dc_reachable_inv [of d] by (auto simp: dc_inv_def dc_abs_def dc_output_subs split: option.splits)

lemma js_round_div_pos: "0 < js_round_div x 60000 \<longleftrightarrow> 30000 \<le> x"
  by (simp add: js_round_div_def pos_imp_zdiv_pos_iff) 

lemma expires_in_minutes_shown:
  "si_expires_at ss = Some e \<Longrightarrow> (expires_in_minutes now ss \<noteq> None \<longleftrightarrow> 30000 \<le> e - now)"
  by (simp add: expires_in_minutes_def Let_def js_round_div_pos)

lemma share_reports_copied_when_copy_fails:
  "share_with_mode m (Inr (Some u)) (Inr False) =
     [ShareSessionCall m, CopyShareLinkCall, OpenShareModal u m 0 None, Notice ''Session shared! Share URL copied to clipboard.'']"
  by (simp add: share_with_mode_def)

lemma set_log_directory_clears:
  "has_log_directory p \<Longrightarrow>
     \<not> has_log_directory (fst (set_log_directory_click pick p)) \<and> snd (set_log_directory_click pick p) = [SaveConfig]"
  by (auto simp: set_log_directory_click_def has_log_directory_def next_log_settings_def Let_def)

lemma set_log_directory_sets:
  "\<not> has_log_directory p \<Longrightarrow> trim d \<noteq> [] \<Longrightarrow>
     set_log_directory_click (Picked (Some d)) p =
       (p\<lparr>pf_session_log := Some (next_log_settings p (Some d))\<rparr>, [SaveConfig]) \<and>
     has_log_directory (fst (set_log_directory_click (Picked (Some d)) p))"
  by (auto simp: set_log_directory_click_def has_log_directory_def next_log_settings_def log_has_settings_def Let_def
      trim_Nil_iff)

lemma save_as_profile_appends:
  assumes "n \<noteq> []" and "c \<noteq> []"
  shows "save_as_profile_click slugify u (Some n) (Some c) tp ps =
     (ps @ [\<lparr>pf_id = pf_type tp @ '':custom:'' @ slugify n @ '':'' @ nat_to_string u,
             pf_type = pf_type tp, pf_name = n, pf_options = jsmap_set ''cwd'' c (pf_options tp), pf_group = pf_group tp,
             pf_icon = pf_icon tp, pf_color = pf_color tp, pf_disable_dynamic_title = pf_disable_dynamic_title tp,
             pf_behavior_on_session_end = pf_behavior_on_session_end tp, pf_session_log = None\<rparr>],
      Suc u, [SaveConfig, NotifyInfo ''Saved''])"
  using assms by (simp add: save_as_profile_click_def)

subsection \<open>Properties\<close>

text \<open>C11. The session-sharing decorator implements its contract: from any state it reaches, each attach, detach, output, close and destroy event changes the decorator's map from terminals to session ids as the abstract map does (attach only a terminal the service reports shared, with a live session, and not yet attached; detach forgets it), broadcasts each output chunk once to the terminal's session and nothing for a terminal not attached, and stops sharing once per close or destroy event.\<close>

theorem dc_refines_spec:
  "dc_reachable d \<Longrightarrow> map_prod dc_abs id (dc_step sv e d) = dc_spec_step sv e (dc_abs d)"
proof -
  assume "dc_reachable d"
  then have inv: "dc_inv d" by (rule dc_reachable_inv)
  then have subs: "\<And>t. subs_of t (dc_subs d) =
      (case map_of (dc_shared d) t of None \<Rightarrow> [] | Some sid \<Rightarrow> [SubOutput sid, SubClosed, SubDestroyed])"
    by (simp add: dc_inv_def)
  show ?thesis
  proof (cases e)
    case (DcAttach t)
    then show ?thesis
      by (auto simp: dc_abs_def dc_attach_def attach_to_shared_session_def jsmap_simps map_of_None_keys
          split: option.splits)
  next
    case (DcDetach t)
    then show ?thesis
      by (auto simp: dc_abs_def dc_detach_def detach_from_shared_session_def jsmap_simps map_of_None_keys)
  qed (auto simp: dc_abs_def dc_output_subs dc_ended_subs subs split: option.splits)
qed

theorem dc_refines_spec_witness:
  "map_prod dc_abs id (dc_step demo_sv (DcAttach 1) dc_init) = (Map.empty(1 \<mapsto> ''s1''), [])"
  using dc_refines_spec [OF dc_reachable.init, of demo_sv "DcAttach 1"]
  by (simp add: demo_sv_def dc_abs_def dc_init_def)

end
