(* ===== verification/ProxyServer.thy ===== *)
theory ProxyServer
  imports Prelude
begin

text \<open>
  The AI proxy server: the provider configuration built from the environment
  (\<open>src/unnamed/part_000\<close>, the module \<open>providers/config.js\<close>) and the chat-completions route
  (\<open>proxy-server/src/routes/chat.js\<close>), which tries the providers in turn, retries each
  with back-off and fails over to the next.
  \<^item> \<open>process.env\<close> is a function from names to optional strings.
  \<^item> The upstream \<open>axios.post\<close> is a function from the provider's name and the attempt
    number to an error or the status of a response; \<open>Math.random\<close> in the back-off is a
    jitter function of the same arguments. \<open>selectProvider\<close> (\<open>providers/selector.js\<close>) and
    \<open>recordRequest\<close> (\<open>providers/telemetry.js\<close>) are not in the sources: the selected
    provider is an argument and the telemetry calls are effects.
  \<^item> The retry limits are the numbers \<open>parseInt\<close> reads from the environment, taken as
    given (\<open>retry_cfg\<close>); \<open>PROXY_FAILOVER_ON_429\<close> is read from the environment.
\<close>

subsection \<open>Provider configuration\<close>

type_synonym env = "string \<Rightarrow> string option"

record provider_config =
  pc_name :: string
  pc_base_url :: string
  pc_api_key :: string
  pc_default_model :: string
  pc_timeout :: nat
  pc_enabled :: bool

text \<open>\<open>isValidKey\<close>: present, and not the placeholder of the example configuration.\<close>

definition is_valid_key :: "string option \<Rightarrow> string \<Rightarrow> bool" where
  "is_valid_key k ph =
     (case k of None \<Rightarrow> False | Some s \<Rightarrow> s \<noteq> [] \<and> to_lower (trim s) \<noteq> to_lower ph)"

text \<open>\<open>parseKeyList\<close>: the comma-separated list first, then the single key.\<close>

definition parse_key_list :: "string option \<Rightarrow> string option \<Rightarrow> string \<Rightarrow> string list" where
  "parse_key_list single multi ph =
     (case multi of
        None \<Rightarrow> []
      | Some m \<Rightarrow>
          if m = [] then []
          else filter (\<lambda>k. is_valid_key (Some k) ph) (filter (\<lambda>k. k \<noteq> []) (map trim (split_on (CHR '','') m)))) @
     (case single of
        None \<Rightarrow> []
      | Some s \<Rightarrow> if s \<noteq> [] \<and> is_valid_key (Some s) ph then [trim s] else [])"

text \<open>The entries of one provider family: numbered names when there are several keys.\<close>

definition family_name :: "string \<Rightarrow> nat \<Rightarrow> nat \<Rightarrow> string" where
  "family_name prefix n i = (if 1 < n then prefix @ ''-'' @ nat_to_string (Suc i) else prefix)"

definition add_family ::
  "string \<Rightarrow> string \<Rightarrow> string \<Rightarrow> nat \<Rightarrow> string list \<Rightarrow> (string, provider_config) jsmap \<Rightarrow>
     (string, provider_config) jsmap" where
  "add_family prefix url model timeout keys cs =
     foldl (\<lambda>cs (i, k). let name = family_name prefix (length keys) i in
              jsmap_set name \<lparr>pc_name = name, pc_base_url = url, pc_api_key = k, pc_default_model = model,
                              pc_timeout = timeout, pc_enabled = True\<rparr> cs)
       cs (enumerate 0 keys)"

text \<open>\<open>cfg.name\<close> is allowed by a list that names it or its family (\<open>name.split('-')[0]\<close>).\<close>

definition allowed_name :: "string list \<Rightarrow> string \<Rightarrow> bool" where
  "allowed_name l n \<longleftrightarrow> n \<in> set l \<or> hd (split_on (CHR ''-'') n) \<in> set l"

definition allow_list :: "env \<Rightarrow> string list option" where
  "allow_list env =
     (case env ''ALLOWED_PROVIDERS'' of
        None \<Rightarrow> None
      | Some a \<Rightarrow> if a = [] then None else Some (filter (\<lambda>s. s \<noteq> []) (map trim (split_on (CHR '','') a))))"

definition build_provider_configs :: "env \<Rightarrow> (string, provider_config) jsmap" where
  "build_provider_configs env =
     (let groq = parse_key_list (env ''GROQ_API_KEY'') (env ''GROQ_API_KEYS'') [];
          openai = parse_key_list (env ''OPENAI_API_KEY'') (env ''OPENAI_API_KEYS'') ''your_openai_api_key_here'';
          anthropic = parse_key_list (env ''ANTHROPIC_API_KEY'') (env ''ANTHROPIC_API_KEYS'') ''your_anthropic_api_key_here'';
          cs = add_family ''anthropic'' ''https://api.anthropic.com/v1''
                 (js_str_or (env ''ANTHROPIC_DEFAULT_MODEL'') ''claude-3-sonnet-20240229'') 60000 anthropic
               (add_family ''openai'' ''https://api.openai.com/v1''
                 (js_str_or (env ''OPENAI_DEFAULT_MODEL'') ''gpt-4o-mini'') 60000 openai
               (add_family ''groq'' ''https://api.groq.com/openai/v1''
                 (js_str_or (env ''GROQ_DEFAULT_MODEL'') ''llama-3.1-8b-instant'') 30000 groq []))
      in case allow_list env of
           Some l \<Rightarrow> if l \<noteq> [] then filter (\<lambda>(n, c). allowed_name l (pc_name c)) cs else cs
         | None \<Rightarrow> cs)"

text \<open>\<open>getProviderConfig\<close> and \<open>getAllProviders\<close>, under the user's \<open>allowedProviders\<close>.\<close>

definition user_allows :: "string list option \<Rightarrow> string \<Rightarrow> bool" where
  "user_allows allowed n = (case allowed of None \<Rightarrow> True | Some l \<Rightarrow> l = [] \<or> allowed_name l n)"

definition get_provider_config :: "env \<Rightarrow> string \<Rightarrow> string list option \<Rightarrow> provider_config option" where
  "get_provider_config env n allowed =
     (if \<not> user_allows allowed n then None else map_of (build_provider_configs env) n)"

definition get_all_providers :: "env \<Rightarrow> string list option \<Rightarrow> provider_config list" where
  "get_all_providers env allowed =
     filter (\<lambda>p. user_allows allowed (pc_name p)) (filter pc_enabled (map snd (build_provider_configs env)))"

subsection \<open>Upstream results and retries\<close>

record retry_cfg =
  rc_max :: nat
  rc_base_ms :: nat
  rc_max_ms :: nat
  rc_failover_429 :: bool

definition default_retry_cfg :: "env \<Rightarrow> retry_cfg" where
  "default_retry_cfg env =
     \<lparr>rc_max = 2, rc_base_ms = 500, rc_max_ms = 4000,
      rc_failover_429 = (env ''PROXY_FAILOVER_ON_429'' \<noteq> Some ''false'')\<rparr>"

text \<open>
  An axios error: the upstream response's status, its \<open>retry-after\<close> header and the
  \<open>error\<close> object of its body when there was a response, the error code, whether a
  request was sent, and the message.
\<close>

record upstream_error =
  ue_status :: "nat option"
  ue_retry_after :: "string option"
  ue_err_message :: "string option"
  ue_err_type :: "string option"
  ue_err_code :: "string option"
  ue_code :: "string option"
  ue_request :: bool
  ue_message :: string

type_synonym upstream_result = "upstream_error + nat"

definition is_retryable :: "upstream_error \<Rightarrow> bool" where
  "is_retryable e \<longleftrightarrow>
     ue_status e \<in> {Some 429, Some 500, Some 502, Some 503, Some 504} \<or>
     ue_code e \<in> {Some ''ECONNRESET'', Some ''ETIMEDOUT'', Some ''ECONNABORTED''}"

text \<open>\<open>getRetryDelayMs\<close>: a positive \<open>retry-after\<close> in seconds, else exponential back-off with jitter, both capped.\<close>

definition get_retry_delay :: "retry_cfg \<Rightarrow> upstream_error \<Rightarrow> nat \<Rightarrow> nat \<Rightarrow> nat" where
  "get_retry_delay rc e attempt jitter =
     (case (case ue_retry_after e of Some r \<Rightarrow> if r = [] then None else js_parse_int r | None \<Rightarrow> None) of
        Some secs \<Rightarrow>
          if 0 < secs then min (nat secs * 1000) (rc_max_ms rc)
          else min (rc_base_ms rc * 2 ^ attempt + jitter) (rc_max_ms rc)
      | None \<Rightarrow> min (rc_base_ms rc * 2 ^ attempt + jitter) (rc_max_ms rc))"

datatype proxy_reply = Forward nat bool | ErrorReply nat string string "string option"

datatype proxy_effect = Post string string | Telemetry string bool | Sleep nat

text \<open>The error reply built from an error, the same at lines 169-191 and 198-220.\<close>

definition reply_of_error :: "upstream_error option \<Rightarrow> proxy_reply" where
  "reply_of_error lst =
     (case lst of
        None \<Rightarrow> ErrorReply 500 ''Internal proxy error'' ''internal_error'' None
      | Some e \<Rightarrow>
          (case ue_status e of
             Some st \<Rightarrow> ErrorReply st (js_str_or (ue_err_message e) ''Provider error'')
                          (js_str_or (ue_err_type e) ''provider_error'') (ue_err_code e)
           | None \<Rightarrow>
               if ue_request e then ErrorReply 503 ''Provider unavailable'' ''provider_unavailable'' None
               else ErrorReply 500 (js_str_or (Some (ue_message e)) ''Internal proxy error'') ''internal_error'' None))"

text \<open>How the attempt loop of one provider ends.\<close>

datatype provider_exit = Served nat | Returned proxy_reply | Exhausted

text \<open>
  The attempt loop \<open>for (attempt = a; attempt <= RETRY_MAX; attempt++)\<close> for one provider:
  its exit, the last error and the effects. A retryable error is retried after the back-off
  while attempts remain; a 429 on the last attempt breaks out when failover on 429 is on;
  any other non-retryable error returns its reply; otherwise the loop runs out.
\<close>

function try_attempts ::
  "retry_cfg \<Rightarrow> string \<Rightarrow> string \<Rightarrow> string \<Rightarrow> (nat \<Rightarrow> upstream_result) \<Rightarrow> (nat \<Rightarrow> nat) \<Rightarrow> nat \<Rightarrow>
     upstream_error option \<Rightarrow> provider_exit \<times> upstream_error option \<times> proxy_effect list" where
  "try_attempts rc name url model call jit a lst =
     (if rc_max rc < a then (Exhausted, lst, [])
      else
        (case call a of
           Inr st \<Rightarrow> (Served st, lst, [Post url model, Telemetry name True])
         | Inl e \<Rightarrow>
             (let fx = [Post url model, Telemetry name False];
                  should_retry = is_retryable e \<and> a < rc_max rc;
                  should_failover = ue_status e = Some 429 \<and> rc_failover_429 rc \<and> rc_max rc \<le> a
              in if should_retry
                 then (case try_attempts rc name url model call jit (Suc a) (Some e) of
                         (x, l, fx') \<Rightarrow> (x, l, fx @ [Sleep (get_retry_delay rc e a (jit a))] @ fx'))
                 else if should_failover then (Exhausted, Some e, fx)
                 else if \<not> is_retryable e then (Returned (reply_of_error (Some e)), Some e, fx)
                 else (case try_attempts rc name url model call jit (Suc a) (Some e) of
                         (x, l, fx') \<Rightarrow> (x, l, fx @ fx')))))"
  by pat_completeness auto

termination
  by (relation "measure (\<lambda>(rc, name, url, model, call, jit, a, lst). Suc (rc_max rc) - a)") auto

declare try_attempts.simps [simp del]

text \<open>The model of a request: \<open>auto\<close> selectors and no model become the provider's default.\<close>

definition effective_model :: "string option \<Rightarrow> provider_config \<Rightarrow> string" where
  "effective_model m cfg =
     (if m = None \<or> m = Some [] \<or> m = Some ''tlink-proxy-auto'' \<or> m = Some ''auto''
      then js_str_or (Some (pc_default_model cfg)) ''gpt-3.5-turbo'' else the m)"

definition config_error :: "string \<Rightarrow> upstream_error" where
  "config_error n = \<lparr>ue_status = None, ue_retry_after = None, ue_err_message = None, ue_err_type = None,
     ue_err_code = None, ue_code = None, ue_request = False, ue_message = ''Provider '' @ n @ '' not configured''\<rparr>"

text \<open>The loop over the candidates, then the reply from the last error.\<close>

fun run_candidates ::
  "env \<Rightarrow> retry_cfg \<Rightarrow> string list option \<Rightarrow> string option \<Rightarrow> bool \<Rightarrow> (string \<Rightarrow> nat \<Rightarrow> upstream_result) \<Rightarrow>
     (string \<Rightarrow> nat \<Rightarrow> nat) \<Rightarrow> provider_config list \<Rightarrow> upstream_error option \<Rightarrow> proxy_reply \<times> proxy_effect list" where
  "run_candidates env rc allowed model stream call jit [] lst = (reply_of_error lst, [])"
| "run_candidates env rc allowed model stream call jit (c # cs) lst =
     (case get_provider_config env (pc_name c) allowed of
        Some cfg \<Rightarrow>
          if pc_api_key cfg = [] then
            (case run_candidates env rc allowed model stream call jit cs (Some (config_error (pc_name c))) of
               (r, fx) \<Rightarrow> (r, Telemetry (pc_name c) False # fx))
          else
            (case try_attempts rc (pc_name c) (pc_base_url cfg @ ''/chat/completions'') (effective_model model cfg)
                    (call (pc_name c)) (jit (pc_name c)) 0 lst of
               (Served st, l, fx) \<Rightarrow> (Forward st stream, fx)
             | (Returned r, l, fx) \<Rightarrow> (r, fx)
             | (Exhausted, l, fx) \<Rightarrow>
                 (case run_candidates env rc allowed model stream call jit cs l of (r, fx') \<Rightarrow> (r, fx @ fx')))
      | None \<Rightarrow>
          (case run_candidates env rc allowed model stream call jit cs (Some (config_error (pc_name c))) of
             (r, fx) \<Rightarrow> (r, Telemetry (pc_name c) False # fx)))"

text \<open>The candidates: the providers rotated to start at the selected one, or the selected one first.\<close>

definition ordered_providers :: "provider_config \<Rightarrow> provider_config list \<Rightarrow> provider_config list" where
  "ordered_providers p ps =
     (case find_idx (\<lambda>q. pc_name q = pc_name p) ps of
        Some i \<Rightarrow> drop i ps @ take i ps
      | None \<Rightarrow> p # filter (\<lambda>q. pc_name q \<noteq> pc_name p) ps)"

definition chat_completions ::
  "env \<Rightarrow> retry_cfg \<Rightarrow> provider_config option \<Rightarrow> string list option \<Rightarrow> string option \<Rightarrow> bool option \<Rightarrow>
     (string \<Rightarrow> nat \<Rightarrow> upstream_result) \<Rightarrow> (string \<Rightarrow> nat \<Rightarrow> nat) \<Rightarrow> proxy_reply \<times> proxy_effect list" where
  "chat_completions env rc selected allowed model stream call jit =
     (let ps = get_all_providers env allowed in
      case selected of
        None \<Rightarrow> (ErrorReply 503 ''No AI providers available'' ''service_unavailable'' None, [])
      | Some p \<Rightarrow>
          if ps = [] then (ErrorReply 503 ''No AI providers available'' ''service_unavailable'' None, [])
          else run_candidates env rc allowed model (stream \<noteq> Some False) call jit (ordered_providers p ps) None)"


subsection \<open>Effect counting, configuration shape and demonstration inputs\<close>

fun is_post :: "proxy_effect \<Rightarrow> bool" where
  "is_post (Post _ _) = True"
| "is_post _ = False"

definition cfg_ok :: "(string, provider_config) jsmap \<Rightarrow> bool" where
  "cfg_ok cs \<longleftrightarrow> distinct (jsmap_keys cs) \<and> (\<forall>(n, c) \<in> set cs. pc_name c = n)"

definition demo_env :: env where
  "demo_env v = (if v = ''OPENAI_API_KEYS'' then Some ''sk-a, sk-b'' else if v = ''GROQ_API_KEY'' then Some ''gsk'' else None)"

definition demo_429 :: upstream_error where
  "demo_429 = \<lparr>ue_status = Some 429, ue_retry_after = None, ue_err_message = Some ''Rate limit reached'',
     ue_err_type = Some ''rate_limit'', ue_err_code = None, ue_code = None, ue_request = True, ue_message = []\<rparr>"

definition demo_call :: "string \<Rightarrow> nat \<Rightarrow> upstream_result" where
  "demo_call n a = (if n = ''groq'' then Inl demo_429 else Inr 200)"

definition blank_key_env :: env where
  "blank_key_env v = (if v = ''OPENAI_API_KEY'' then Some ''   '' else None)"

subsection \<open>Lemmas\<close>

lemma try_attempts_done [simp]: "rc_max rc < a \<Longrightarrow> try_attempts rc n u m call jit a l = (Exhausted, l, [])"
  by (subst try_attempts.simps) simp

lemma try_attempts_posts:
  "length (filter is_post (snd (snd (try_attempts rc n u m call jit a l)))) \<le> Suc (rc_max rc) - a"
proof (induction "Suc (rc_max rc) - a" arbitrary: a l rule: less_induct)
  case less
  show ?case
  proof (cases "rc_max rc < a")
    case True
    then show ?thesis by simp
  next
    case False
    then have ih: "\<And>l'. length (filter is_post (snd (snd (try_attempts rc n u m call jit (Suc a) l')))) \<le> Suc (rc_max rc) - Suc a"
      by (intro less) auto
    show ?thesis
    proof (cases "call a")
      case (Inr st)
      then show ?thesis using False by (subst try_attempts.simps) simp
    next
      case (Inl e)
      obtain x l2 fx where r: "try_attempts rc n u m call jit (Suc a) (Some e) = (x, l2, fx)" by (cases "try_attempts rc n u m call jit (Suc a) (Some e)") auto
      have "length (filter is_post fx) \<le> Suc (rc_max rc) - Suc a" using ih [of "Some e"] r by simp
      then show ?thesis using False Inl by (subst try_attempts.simps) (auto simp: Let_def r)
    qed
  qed
qed

lemma get_retry_delay_flag [simp]: "get_retry_delay (rc\<lparr>rc_failover_429 := b\<rparr>) = get_retry_delay rc"
  by (intro ext) (simp add: get_retry_delay_def split: option.split)

lemma retryable_429: "ue_status e = Some 429 \<Longrightarrow> is_retryable e"
  by (simp add: is_retryable_def)

lemma try_attempts_failover_irrelevant:
  "try_attempts (rc\<lparr>rc_failover_429 := b\<rparr>) n u m call jit a l = try_attempts (rc\<lparr>rc_failover_429 := True\<rparr>) n u m call jit a l"
proof (induction "Suc (rc_max rc) - a" arbitrary: a l rule: less_induct)
  case less
  show ?case
  proof (cases "rc_max rc < a")
    case True
    then show ?thesis by simp
  next
    case False
    then have ih: "\<And>l'. try_attempts (rc\<lparr>rc_failover_429 := b\<rparr>) n u m call jit (Suc a) l' =
        try_attempts (rc\<lparr>rc_failover_429 := True\<rparr>) n u m call jit (Suc a) l'"
      by (intro less) auto
    show ?thesis using False
      by (subst (1 2) try_attempts.simps)
         (auto simp: Let_def ih retryable_429 split: sum.split prod.split)
  qed
qed

lemma run_candidates_failover_irrelevant:
  "run_candidates env (rc\<lparr>rc_failover_429 := b\<rparr>) al m st call jit cs l =
   run_candidates env (rc\<lparr>rc_failover_429 := True\<rparr>) al m st call jit cs l"
proof (induction cs arbitrary: l)
  case Nil
  then show ?case by simp
next
  case (Cons c cs)
  then show ?case
    by (simp only: run_candidates.simps try_attempts_failover_irrelevant [where rc = rc and b = b])
qed

lemma run_candidates_posts:
  "length (filter is_post (snd (run_candidates env rc al m st call jit cs l))) \<le> length cs * Suc (rc_max rc)"
proof (induction cs arbitrary: l)
  case Nil
  then show ?case by simp
next
  case (Cons c cs)
  show ?case
  proof (cases "get_provider_config env (pc_name c) al")
    case None
    obtain r fx where "run_candidates env rc al m st call jit cs (Some (config_error (pc_name c))) = (r, fx)"
      by fastforce
    then show ?thesis using None Cons [of "Some (config_error (pc_name c))"] by simp
  next
    case (Some cfg)
    obtain x l2 fx where t: "try_attempts rc (pc_name c) (pc_base_url cfg @ ''/chat/completions'') (effective_model m cfg)
        (call (pc_name c)) (jit (pc_name c)) 0 l = (x, l2, fx)"
      by (cases "try_attempts rc (pc_name c) (pc_base_url cfg @ ''/chat/completions'') (effective_model m cfg)
        (call (pc_name c)) (jit (pc_name c)) 0 l") auto
    have b: "length (filter is_post fx) \<le> Suc (rc_max rc)"
      using try_attempts_posts [of rc "pc_name c" "pc_base_url cfg @ ''/chat/completions''" "effective_model m cfg"
          "call (pc_name c)" "jit (pc_name c)" 0 l] t by simp
    show ?thesis
      using Some t b Cons [of "Some (config_error (pc_name c))"] Cons [of l2]
      by (cases x) (auto split: prod.split)
  qed
qed

lemma ordered_providers_length: "length (ordered_providers p ps) \<le> Suc (length ps)"
  by (auto simp: ordered_providers_def split: option.split intro: le_SucI)

lemma retry_delay_capped: "get_retry_delay rc e a j \<le> rc_max_ms rc"
  by (simp add: get_retry_delay_def split: option.split)

lemma set_jsmap_set_cases: "x \<in> set (jsmap_set k v m) \<Longrightarrow> x = (k, v) \<or> x \<in> set m"
  by (induction k v m rule: jsmap_set.induct) (auto split: if_splits)

lemma foldl_family_ok:
  "cfg_ok cs \<Longrightarrow> cfg_ok (foldl (\<lambda>cs (i, k). let name = family_name prefix n i in
       jsmap_set name \<lparr>pc_name = name, pc_base_url = url, pc_api_key = k, pc_default_model = model,
                       pc_timeout = timeout, pc_enabled = True\<rparr> cs) cs xs)"
proof (induction xs arbitrary: cs)
  case Nil
  then show ?case by simp
next
  case (Cons x xs)
  obtain i k where x: "x = (i, k)" by fastforce
  have "cfg_ok (jsmap_set (family_name prefix n i) \<lparr>pc_name = family_name prefix n i, pc_base_url = url, pc_api_key = k,
      pc_default_model = model, pc_timeout = timeout, pc_enabled = True\<rparr> cs)"
    using Cons.prems by (auto simp: cfg_ok_def jsmap_simps dest: set_jsmap_set_cases)
  then show ?case using Cons.IH x by (simp add: Let_def)
qed

lemma add_family_ok: "cfg_ok cs \<Longrightarrow> cfg_ok (add_family prefix url model timeout keys cs)"
  unfolding add_family_def by (rule foldl_family_ok)

lemma cfg_ok_filter: "cfg_ok cs \<Longrightarrow> cfg_ok (filter P cs)"
  by (auto simp: cfg_ok_def jsmap_keys_def distinct_map_filter)

lemma build_provider_configs_ok: "cfg_ok (build_provider_configs env)"
proof -
  have "cfg_ok []" by (simp add: cfg_ok_def jsmap_keys_def)
  then show ?thesis
    by (simp add: build_provider_configs_def Let_def add_family_ok cfg_ok_filter split: option.split)
qed

lemma demo_configs:
  "build_provider_configs demo_env =
     [(''groq'', \<lparr>pc_name = ''groq'', pc_base_url = ''https://api.groq.com/openai/v1'', pc_api_key = ''gsk'',
       pc_default_model = ''llama-3.1-8b-instant'', pc_timeout = 30000, pc_enabled = True\<rparr>),
      (''openai-1'', \<lparr>pc_name = ''openai-1'', pc_base_url = ''https://api.openai.com/v1'', pc_api_key = ''sk-a'',
       pc_default_model = ''gpt-4o-mini'', pc_timeout = 60000, pc_enabled = True\<rparr>),
      (''openai-2'', \<lparr>pc_name = ''openai-2'', pc_base_url = ''https://api.openai.com/v1'', pc_api_key = ''sk-b'',
       pc_default_model = ''gpt-4o-mini'', pc_timeout = 60000, pc_enabled = True\<rparr>)]"
  by (simp add: build_provider_configs_def demo_env_def parse_key_list_def is_valid_key_def
      trim_def is_ws_def to_lower_def lower_char_def add_family_def family_name_def allow_list_def
      nat_to_string.simps Let_def char_of_def bit_0)

lemma demo_providers:
  "get_all_providers demo_env None =
     [\<lparr>pc_name = ''groq'', pc_base_url = ''https://api.groq.com/openai/v1'', pc_api_key = ''gsk'',
       pc_default_model = ''llama-3.1-8b-instant'', pc_timeout = 30000, pc_enabled = True\<rparr>,
      \<lparr>pc_name = ''openai-1'', pc_base_url = ''https://api.openai.com/v1'', pc_api_key = ''sk-a'',
       pc_default_model = ''gpt-4o-mini'', pc_timeout = 60000, pc_enabled = True\<rparr>,
      \<lparr>pc_name = ''openai-2'', pc_base_url = ''https://api.openai.com/v1'', pc_api_key = ''sk-b'',
       pc_default_model = ''gpt-4o-mini'', pc_timeout = 60000, pc_enabled = True\<rparr>]"
  by (simp add: get_all_providers_def demo_configs user_allows_def)

lemma failover_with_flag_off:
  "chat_completions demo_env (default_retry_cfg (demo_env(''PROXY_FAILOVER_ON_429'' := Some ''false'')))
      (Some (hd (get_all_providers demo_env None))) None None None demo_call (\<lambda>_ _. 0) =
     (Forward 200 True,
      [Post ''https://api.groq.com/openai/v1/chat/completions'' ''llama-3.1-8b-instant'', Telemetry ''groq'' False, Sleep 500,
       Post ''https://api.groq.com/openai/v1/chat/completions'' ''llama-3.1-8b-instant'', Telemetry ''groq'' False, Sleep 1000,
       Post ''https://api.groq.com/openai/v1/chat/completions'' ''llama-3.1-8b-instant'', Telemetry ''groq'' False,
       Post ''https://api.openai.com/v1/chat/completions'' ''gpt-4o-mini'', Telemetry ''openai-1'' True])"
  by (simp add: chat_completions_def demo_providers ordered_providers_def get_provider_config_def user_allows_def
      demo_configs try_attempts.simps effective_model_def default_retry_cfg_def demo_call_def demo_429_def
      is_retryable_def get_retry_delay_def)

lemma blank_key_listed_unconfigured:
  "get_all_providers blank_key_env None =
     [\<lparr>pc_name = ''openai'', pc_base_url = ''https://api.openai.com/v1'', pc_api_key = [],
       pc_default_model = ''gpt-4o-mini'', pc_timeout = 60000, pc_enabled = True\<rparr>] \<and>
   chat_completions blank_key_env rc (Some (hd (get_all_providers blank_key_env None))) None None None call jit =
     (ErrorReply 500 ''Provider openai not configured'' ''internal_error'' None, [Telemetry ''openai'' False])"
proof -
  have c: "build_provider_configs blank_key_env =
     [(''openai'', \<lparr>pc_name = ''openai'', pc_base_url = ''https://api.openai.com/v1'', pc_api_key = [],
       pc_default_model = ''gpt-4o-mini'', pc_timeout = 60000, pc_enabled = True\<rparr>)]"
    by (simp add: build_provider_configs_def blank_key_env_def parse_key_list_def is_valid_key_def
        trim_def is_ws_def to_lower_def lower_char_def add_family_def family_name_def allow_list_def Let_def)
  show ?thesis
    by (simp add: get_all_providers_def c user_allows_def chat_completions_def ordered_providers_def
        get_provider_config_def reply_of_error_def config_error_def)
qed

subsection \<open>Properties\<close>

text \<open>C12. The environment switch PROXY_FAILOVER_ON_429 has no effect: whatever the providers answer, the chat-completions route gives the same reply and issues the same requests, sleeps and telemetry with failover on 429 switched off as with it on, because a 429 on the last attempt ends the attempt loop and moves to the next provider either way.\<close>

theorem failover_flag_irrelevant:
  "chat_completions env (rc\<lparr>rc_failover_429 := b\<rparr>) sel al m st call jit =
   chat_completions env (rc\<lparr>rc_failover_429 := True\<rparr>) sel al m st call jit"
  unfolding chat_completions_def Let_def by (subst run_candidates_failover_irrelevant) (rule refl)

text \<open>C13. The retries of the chat-completions route are bounded: one request sends at most (n + 1) (RETRY_MAX + 1) upstream requests, where n is the number of providers the user may use, since each candidate's attempt loop runs at most RETRY_MAX + 1 times and the candidates are the providers, plus the selected one when it is not among them.\<close>

theorem chat_posts_bounded:
  "length (filter is_post (snd (chat_completions env rc sel al m st call jit))) \<le>
     Suc (length (get_all_providers env al)) * Suc (rc_max rc)"
proof (cases sel)
  case None
  then show ?thesis by (simp add: chat_completions_def)
next
  case (Some p)
  let ?ps = "get_all_providers env al"
  have "length (filter is_post (snd (run_candidates env rc al m (st \<noteq> Some False) call jit (ordered_providers p ?ps) None)))
      \<le> length (ordered_providers p ?ps) * Suc (rc_max rc)"
    by (rule run_candidates_posts)
  also have "\<dots> \<le> Suc (length ?ps) * Suc (rc_max rc)"
    using ordered_providers_length by (rule mult_le_mono1)
  finally show ?thesis using Some by (simp add: chat_completions_def Let_def)
qed

text \<open>C14. The provider configuration is well formed: the configurations built from the environment have distinct names, and every provider getAllProviders lists for a user is enabled and is exactly what getProviderConfig returns for its name and that user.\<close>

theorem provider_configs_well_formed:
  "distinct (jsmap_keys (build_provider_configs env)) \<and>
   (\<forall>p \<in> set (get_all_providers env al). pc_enabled p \<and> get_provider_config env (pc_name p) al = Some p)"
proof -
  have ok: "cfg_ok (build_provider_configs env)" by (rule build_provider_configs_ok)
  have "get_provider_config env (pc_name p) al = Some p" if p: "p \<in> set (get_all_providers env al)" for p
  proof -
    from p obtain n where "(n, p) \<in> set (build_provider_configs env)" and u: "user_allows al (pc_name p)"
      by (auto simp: get_all_providers_def)
    moreover from this ok have "n = pc_name p" by (auto simp: cfg_ok_def)
    ultimately have "(pc_name p, p) \<in> set (build_provider_configs env)" by simp
    then have "map_of (build_provider_configs env) (pc_name p) = Some p"
      using ok by (intro map_of_is_SomeI) (simp_all add: cfg_ok_def jsmap_keys_def)
    then show ?thesis using u by (simp add: get_provider_config_def)
  qed
  moreover have "distinct (jsmap_keys (build_provider_configs env))" using ok by (simp add: cfg_ok_def)
  ultimately show ?thesis by (auto simp: get_all_providers_def)
qed

theorem provider_configs_well_formed_witness:
  "get_provider_config demo_env ''openai-2'' None =
     Some \<lparr>pc_name = ''openai-2'', pc_base_url = ''https://api.openai.com/v1'', pc_api_key = ''sk-b'',
       pc_default_model = ''gpt-4o-mini'', pc_timeout = 60000, pc_enabled = True\<rparr>"
proof -
  let ?p = "\<lparr>pc_name = ''openai-2'', pc_base_url = ''https://api.openai.com/v1'', pc_api_key = ''sk-b'',
       pc_default_model = ''gpt-4o-mini'', pc_timeout = 60000, pc_enabled = True\<rparr>"
  have "?p \<in> set (get_all_providers demo_env None)" by (simp add: demo_providers)
  then show ?thesis using provider_configs_well_formed [of demo_env None] by fastforce
qed

end
