(* ===== verification/AppWindows.thy ===== *)
theory AppWindows
  imports Prelude
begin

text \<open>
  The window management of the Electron main process, \<open>Application\<close> in
  \<open>src/app/lib/app.ts\<close>: the list of windows with the main window, the global hotkey, the
  tray, second instances, message delivery to the windows, the quit rules, the macOS menu,
  the display events, the \<open>app:save-config\<close> broadcast and the command-line switches
  chosen at start.
  \<^item> The \<open>Window\<close> class is not in the sources: a window is a record of what
    \<open>Application\<close> reads (\<open>isMainWindow\<close>, \<open>isVisible\<close>, \<open>isFocused\<close>, \<open>isDockedOnTop\<close>,
    \<open>isDestroyed\<close>), \<open>makeMain\<close> sets the main flag, \<open>present\<close> shows and focuses, \<open>hide\<close>
    hides; a new window starts shown and focused. A window's \<open>webContents.id\<close> is its id.
  \<^item> \<open>visible$\<close> emits when a window's visibility changes; the handler of \<open>newWindow\<close>
    switches the tray, and it runs for each window the hotkey shows or hides.
  \<^item> The platform and the \<open>hideTray\<close> setting are arguments.
\<close>

datatype platform = Darwin | Linux | Win32

record window =
  w_id :: nat
  w_main :: bool
  w_visible :: bool
  w_focused :: bool
  w_docked_on_top :: bool
  w_destroyed :: bool

record app_state =
  app_windows :: "window list"
  app_tray :: bool
  app_quit_requested :: bool
  app_quit :: bool
  app_next_window :: nat

definition app_init :: app_state where
  "app_init = \<lparr>app_windows = [], app_tray = False, app_quit_requested = False, app_quit = False,
     app_next_window = 0\<rparr>"

definition present_win :: "window \<Rightarrow> window" where
  "present_win w = w\<lparr>w_visible := True, w_focused := True\<rparr>"

definition hide_win :: "window \<Rightarrow> window" where
  "hide_win w = w\<lparr>w_visible := False, w_focused := False\<rparr>"

subsection \<open>Tray\<close>

text \<open>\<open>enableTray\<close>: not twice, never on Linux or when the tray is hidden by the settings.\<close>

definition enable_tray :: "platform \<Rightarrow> bool \<Rightarrow> app_state \<Rightarrow> app_state" where
  "enable_tray p hide_tray s = (if app_tray s \<or> p = Linux \<or> hide_tray then s else s\<lparr>app_tray := True\<rparr>)"

definition disable_tray :: "platform \<Rightarrow> app_state \<Rightarrow> app_state" where
  "disable_tray p s = (if p = Linux then s else s\<lparr>app_tray := False\<rparr>)"

text \<open>The \<open>visible$\<close> subscriber of a window.\<close>

definition on_visible :: "platform \<Rightarrow> bool \<Rightarrow> bool \<Rightarrow> app_state \<Rightarrow> app_state" where
  "on_visible p hide_tray v s = (if v then disable_tray p s else enable_tray p hide_tray s)"

subsection \<open>Windows\<close>

text \<open>\<open>newWindow\<close>: the first window of the list becomes the main window.\<close>

definition new_window :: "bool \<Rightarrow> app_state \<Rightarrow> app_state \<times> nat" where
  "new_window docked s =
     (let i = app_next_window s;
          w = \<lparr>w_id = i, w_main = False, w_visible = True, w_focused = True, w_docked_on_top = docked,
               w_destroyed = False\<rparr>;
          ws = app_windows s @ [w];
          ws' = (if length ws = 1 then map (\<lambda>x. if w_id x = i then x\<lparr>w_main := True\<rparr> else x) ws else ws)
      in (s\<lparr>app_windows := ws', app_next_window := Suc i\<rparr>, i))"

text \<open>The \<open>closed$\<close> subscriber: drop the window; without a main window left, the first becomes main and is presented.\<close>

definition window_closed :: "nat \<Rightarrow> app_state \<Rightarrow> app_state" where
  "window_closed i s =
     (let ws = filter (\<lambda>x. w_id x \<noteq> i) (app_windows s)
      in if \<not> (\<exists>x \<in> set ws. w_main x)
         then s\<lparr>app_windows := (case ws of [] \<Rightarrow> [] | x # xs \<Rightarrow> present_win (x\<lparr>w_main := True\<rparr>) # xs)\<rparr>
         else s\<lparr>app_windows := ws\<rparr>)"

text \<open>A window's visibility changes (the user hides or shows it) and its \<open>visible$\<close> subscriber runs.\<close>

definition set_visibility :: "platform \<Rightarrow> bool \<Rightarrow> nat \<Rightarrow> bool \<Rightarrow> app_state \<Rightarrow> app_state" where
  "set_visibility p hide_tray i v s =
     (if i \<in> w_id ` set (app_windows s)
      then on_visible p hide_tray v
             (s\<lparr>app_windows := map (\<lambda>x. if w_id x = i then x\<lparr>w_visible := v, w_focused := w_focused x \<and> v\<rparr> else x)
                                   (app_windows s)\<rparr>)
      else s)"

text \<open>
  \<open>onGlobalHotkey\<close>: the windows count as present when one is focused and visible, or, when
  one is docked on top, when one is visible; present windows are all hidden, otherwise all
  presented. Each window whose visibility changes runs its \<open>visible$\<close> subscriber.
\<close>

definition hotkey_present :: "window list \<Rightarrow> bool" where
  "hotkey_present ws =
     (if \<exists>x \<in> set ws. w_docked_on_top x then \<exists>x \<in> set ws. w_visible x
      else \<exists>x \<in> set ws. w_focused x \<and> w_visible x)"

definition on_global_hotkey :: "platform \<Rightarrow> bool \<Rightarrow> app_state \<Rightarrow> app_state" where
  "on_global_hotkey p hide_tray s =
     (let ws = app_windows s;
          pres = hotkey_present ws;
          ws' = map (if pres then hide_win else present_win) ws;
          changed = filter (\<lambda>x. w_visible x \<noteq> (\<not> pres)) ws
      in foldl (\<lambda>t x. on_visible p hide_tray (\<not> pres) t) (s\<lparr>app_windows := ws'\<rparr>) changed)"

definition present_all_windows :: "app_state \<Rightarrow> app_state" where
  "present_all_windows s = s\<lparr>app_windows := map present_win (app_windows s)\<rparr>"

datatype 'm delivery = SendTo nat 'm | PassCli nat "string list" string

text \<open>\<open>handleSecondInstance\<close>: a window if there is none, all presented, the arguments to the last.\<close>

definition handle_second_instance :: "string list \<Rightarrow> string \<Rightarrow> app_state \<Rightarrow> app_state \<times> 'm delivery list" where
  "handle_second_instance argv cwd s =
     (let s1 = (if app_windows s = [] then fst (new_window False s) else s);
          s2 = present_all_windows s1
      in (s2, [PassCli (w_id (last (app_windows s2))) argv cwd]))"

text \<open>\<open>broadcast\<close>, \<open>broadcastExcept\<close> (by \<open>webContents.id\<close>) and \<open>send\<close>, which opens a window if there is none and throws when every window is destroyed.\<close>

definition broadcast :: "'m \<Rightarrow> app_state \<Rightarrow> 'm delivery list" where
  "broadcast ev s = map (\<lambda>x. SendTo (w_id x) ev) (app_windows s)"

definition broadcast_except :: "'m \<Rightarrow> nat \<Rightarrow> app_state \<Rightarrow> 'm delivery list" where
  "broadcast_except ev c s = map (\<lambda>x. SendTo (w_id x) ev) (filter (\<lambda>x. w_id x \<noteq> c) (app_windows s))"

definition app_send :: "'m \<Rightarrow> app_state \<Rightarrow> (app_state \<times> 'm delivery) option" where
  "app_send ev s =
     (let s1 = (if app_windows s = [] then fst (new_window False s) else s)
      in case filter (\<lambda>x. \<not> w_destroyed x) (app_windows s1) of
           [] \<Rightarrow> None
         | x # _ \<Rightarrow> Some (s1, SendTo (w_id x) ev))"

subsection \<open>Quitting\<close>

definition before_quit_app :: "app_state \<Rightarrow> app_state" where
  "before_quit_app s = s\<lparr>app_quit_requested := True\<rparr>"

definition window_all_closed :: "platform \<Rightarrow> app_state \<Rightarrow> app_state" where
  "window_all_closed p s = (if app_quit_requested s \<or> p \<noteq> Darwin then s\<lparr>app_quit := True\<rparr> else s)"

subsection \<open>The application menu, the tray and the host events\<close>

text \<open>\<open>focus\<close>, run by a click on the tray: every window is presented, and each window that was hidden runs its \<open>visible$\<close> subscriber.\<close>

definition app_focus :: "platform \<Rightarrow> bool \<Rightarrow> app_state \<Rightarrow> app_state" where
  "app_focus p hide_tray s =
     foldl (\<lambda>t x. on_visible p hide_tray True t) (present_all_windows s) (filter (\<lambda>x. \<not> w_visible x) (app_windows s))"

text \<open>The items of the macOS menu built by \<open>setupMenu\<close> that run code of \<open>Application\<close>.\<close>

datatype menu_item = MenuPreferences | MenuQuit | MenuCommandWindow | MenuCommandWindowBottom
  | MenuButtonBar | MenuSessionManager

text \<open>\<open>if (!this.hasWindows()) await this.newWindow()\<close>, at the start of the menu's click handlers.\<close>

definition ensure_window :: "app_state \<Rightarrow> app_state" where
  "ensure_window s = (if app_windows s = [] then fst (new_window False s) else s)"

text \<open>The View items: the focused window, else the first, receives the message.\<close>

definition menu_view :: "string \<Rightarrow> app_state \<Rightarrow> app_state \<times> string delivery list" where
  "menu_view ch s =
     (let s1 = ensure_window s;
          target = (case find w_focused (app_windows s1) of Some w \<Rightarrow> w | None \<Rightarrow> hd (app_windows s1))
      in (s1, [SendTo (w_id target) ch]))"

fun menu_click :: "menu_item \<Rightarrow> app_state \<Rightarrow> app_state \<times> string delivery list" where
  "menu_click MenuPreferences s =
     (let s1 = ensure_window s in (s1, [SendTo (w_id (hd (app_windows s1))) ''host:preferences-menu'']))"
| "menu_click MenuQuit s = (s\<lparr>app_quit_requested := True, app_quit := True\<rparr>, [])"
| "menu_click MenuCommandWindow s = menu_view ''host:command-window'' s"
| "menu_click MenuCommandWindowBottom s = menu_view ''host:command-window-bottom'' s"
| "menu_click MenuButtonBar s = menu_view ''host:button-bar'' s"
| "menu_click MenuSessionManager s = menu_view ''host:session-manager'' s"

text \<open>The display events subscribed in \<open>init\<close>, and the \<open>app:save-config\<close> handler, which
  tells every other window of the new configuration once it is saved.\<close>

datatype display_event = DisplayMetricsChanged | DisplayAdded | DisplayRemoved

definition on_display_event :: "display_event \<Rightarrow> app_state \<Rightarrow> string delivery list" where
  "on_display_event e s =
     broadcast (if e = DisplayMetricsChanged then ''host:display-metrics-changed'' else ''host:displays-changed'') s"

definition save_config_handler :: "'c \<Rightarrow> nat \<Rightarrow> app_state \<Rightarrow> (string \<times> 'c) delivery list" where
  "save_config_handler config sender s = broadcast_except (''host:config-change'', config) sender s"

subsection \<open>The application as a state machine\<close>

datatype app_event = AppNewWindow bool | AppWindowClosed nat | AppVisibility nat bool | AppHotkey
  | AppSecondInstance "string list" string | AppBeforeQuit | AppAllClosed | AppDestroyed nat
  | AppMenu menu_item | AppTrayClick

text \<open>\<open>AppDestroyed\<close>: a window's web contents are destroyed before its \<open>closed$\<close> event.
  The menu exists on macOS only (\<open>newWindow\<close> builds it there), the tray only while it is up.\<close>

fun app_step :: "platform \<Rightarrow> bool \<Rightarrow> app_event \<Rightarrow> app_state \<Rightarrow> app_state" where
  "app_step p h (AppNewWindow docked) s = fst (new_window docked s)"
| "app_step p h (AppWindowClosed i) s = window_closed i s"
| "app_step p h (AppVisibility i v) s = set_visibility p h i v s"
| "app_step p h AppHotkey s = on_global_hotkey p h s"
| "app_step p h (AppSecondInstance argv cwd) s = fst (handle_second_instance argv cwd s :: app_state \<times> unit delivery list)"
| "app_step p h AppBeforeQuit s = before_quit_app s"
| "app_step p h AppAllClosed s = (if app_windows s = [] then window_all_closed p s else s)"
| "app_step p h (AppDestroyed i) s =
     s\<lparr>app_windows := map (\<lambda>x. if w_id x = i then x\<lparr>w_destroyed := True\<rparr> else x) (app_windows s)\<rparr>"
| "app_step p h (AppMenu m) s = (if p = Darwin then fst (menu_click m s) else s)"
| "app_step p h AppTrayClick s = (if app_tray s then app_focus p h s else s)"

inductive app_reachable :: "platform \<Rightarrow> bool \<Rightarrow> app_state \<Rightarrow> bool" for p h where
  init: "app_reachable p h app_init"
| step: "app_reachable p h s \<Longrightarrow> app_reachable p h (app_step p h e s)"

definition app_inv :: "platform \<Rightarrow> app_state \<Rightarrow> bool" where
  "app_inv p s \<longleftrightarrow>
     distinct (map w_id (app_windows s)) \<and> (\<forall>i \<in> set (map w_id (app_windows s)). i < app_next_window s) \<and>
     (app_windows s \<noteq> [] \<longrightarrow> length (filter w_main (app_windows s)) = 1) \<and>
     (p = Linux \<longrightarrow> \<not> app_tray s)"

subsection \<open>Command-line switches\<close>

text \<open>
  The switches the constructor appends, in order, and whether it disables hardware
  acceleration: \<open>(opacity || 1) !== 1\<close> on Linux, \<open>hacks.disableGPU\<close>, and the configured
  flags, \<open>force_discrete_gpu=0\<close> when there are none.
\<close>

definition js_or_one :: "'a::{zero,one} option \<Rightarrow> 'a" where
  "js_or_one x = (case x of None \<Rightarrow> 1 | Some v \<Rightarrow> if v = 0 then 1 else v)"

definition command_line_switches ::
  "platform \<Rightarrow> 'a::{zero,one} option \<Rightarrow> bool \<Rightarrow> (string \<times> string) list option \<Rightarrow> (string \<times> string) list \<times> bool" where
  "command_line_switches p opacity disable_gpu flags =
     ((if p = Linux then (''no-sandbox'', []) # (if js_or_one opacity \<noteq> 1 then [(''enable-transparent-visuals'', [])] else [])
       else []) @
      (if disable_gpu then [(''disable-gpu'', [])] else []) @
      [(''disable-http-cache'', []), (''max-active-webgl-contexts'', ''9000''), (''lang'', ''EN'')] @
      (case flags of None \<Rightarrow> [(''force_discrete_gpu'', ''0'')] | Some fs \<Rightarrow> fs),
      (p = Linux \<and> js_or_one opacity \<noteq> 1) \<or> disable_gpu)"

subsection \<open>The window invariant\<close>

text \<open>The tray subscribers change neither the windows nor the id counter.\<close>


lemma foldl_on_visible_windows [simp]:
  "app_windows (foldl (\<lambda>t x. on_visible p h v t) s xs) = app_windows s \<and>
   app_next_window (foldl (\<lambda>t x. on_visible p h v t) s xs) = app_next_window s"
  by (induction xs arbitrary: s) (simp_all add: on_visible_def enable_tray_def disable_tray_def)

lemma foldl_on_visible_linux:
  "p = Linux \<Longrightarrow> app_tray (foldl (\<lambda>t x. on_visible p h v t) s xs) = app_tray s"
  by (induction xs arbitrary: s) (simp_all add: on_visible_def enable_tray_def disable_tray_def)

lemma length_filter_main_map:
  "(\<And>x. w_main (f x) = w_main x) \<Longrightarrow> length (filter w_main (map f ws)) = length (filter w_main ws)"
  by (induction ws) auto

lemma app_inv_init: "app_inv p app_init"
  by (simp add: app_inv_def app_init_def)

lemma app_inv_new_window: "app_inv p s \<Longrightarrow> app_inv p (fst (new_window d s))"
  by (auto simp: app_inv_def new_window_def Let_def filter_empty_conv length_Suc_conv)

lemma main_count_filter:
  "length (filter w_main (filter P ws)) \<le> length (filter w_main ws)"
  by (induction ws) auto

lemma app_inv_window_closed: "app_inv p s \<Longrightarrow> app_inv p (window_closed i s)"
proof -
  assume inv: "app_inv p s"
  let ?ws = "filter (\<lambda>x. w_id x \<noteq> i) (app_windows s)"
  have le: "length (filter w_main ?ws) \<le> 1"
    using inv main_count_filter [of "\<lambda>x. w_id x \<noteq> i" "app_windows s"]
    by (cases "app_windows s = []") (auto simp: app_inv_def)
  have d: "distinct (map w_id ?ws)" using inv by (simp add: app_inv_def distinct_map_filter)
  have b: "\<forall>x \<in> set ?ws. w_id x < app_next_window s" using inv by (simp add: app_inv_def)
  show ?thesis
  proof (cases "\<exists>x \<in> set ?ws. w_main x")
    case True
    then have "filter w_main ?ws \<noteq> []" by (auto simp: filter_empty_conv)
    then have "length (filter w_main ?ws) = 1" using le by (cases "filter w_main ?ws") auto
    then show ?thesis using True inv d by (auto simp: window_closed_def Let_def app_inv_def)
  next
    case False
    show ?thesis
    proof (cases ?ws)
      case Nil
      then show ?thesis using inv by (simp add: window_closed_def app_inv_def)
    next
      case (Cons x xs)
      then have "\<forall>y \<in> set xs. \<not> w_main y" "w_id x < app_next_window s" "\<forall>y \<in> set xs. w_id y < app_next_window s"
          "distinct (map w_id (x # xs))"
        using False b d by auto
      then show ?thesis using False Cons inv
        by (simp add: window_closed_def app_inv_def present_win_def filter_empty_conv)
    qed
  qed
qed

lemma app_inv_tray:
  "app_inv p s \<Longrightarrow> app_windows t = app_windows s \<Longrightarrow> app_next_window t = app_next_window s \<Longrightarrow>
     (p = Linux \<Longrightarrow> app_tray t = app_tray s) \<Longrightarrow> app_inv p t"
  by (simp add: app_inv_def)

lemma on_visible_fields [simp]:
  "app_windows (on_visible p h v s) = app_windows s" "app_next_window (on_visible p h v s) = app_next_window s"
  "p = Linux \<Longrightarrow> app_tray (on_visible p h v s) = app_tray s"
  by (simp_all add: on_visible_def enable_tray_def disable_tray_def)

lemma map_w_id_map: "(\<And>x. w_id (f x) = w_id x) \<Longrightarrow> map w_id (map f ws) = map w_id ws"
  by (induction ws) auto

lemma app_inv_map_windows:
  assumes inv: "app_inv p s" and f: "\<And>x. w_id (f x) = w_id x" "\<And>x. w_main (f x) = w_main x"
    and t: "app_windows t = map f (app_windows s)" "app_next_window t = app_next_window s"
    and tray: "p = Linux \<Longrightarrow> \<not> app_tray t"
  shows "app_inv p t"
proof -
  have ids: "map w_id (app_windows t) = map w_id (app_windows s)"
    using t(1) map_w_id_map [of f "app_windows s"] f(1) by simp
  have mains: "length (filter w_main (app_windows t)) = length (filter w_main (app_windows s))"
    using t(1) length_filter_main_map [of f "app_windows s"] f(2) by simp
  have ne: "(app_windows t \<noteq> []) = (app_windows s \<noteq> [])" using t(1) by simp
  show ?thesis using inv tray unfolding app_inv_def ids mains ne t(2) by simp
qed

lemma app_inv_on_visible: "app_inv p s \<Longrightarrow> app_inv p (on_visible p h v s)"
  by (simp add: app_inv_def)

lemma app_inv_set_visibility: "app_inv p s \<Longrightarrow> app_inv p (set_visibility p h i v s)"
proof -
  assume inv: "app_inv p s"
  let ?f = "\<lambda>x. if w_id x = i then x\<lparr>w_visible := v, w_focused := w_focused x \<and> v\<rparr> else x"
  have "app_inv p (s\<lparr>app_windows := map ?f (app_windows s)\<rparr>)"
    by (rule app_inv_map_windows [OF inv, of ?f]) (use inv in \<open>simp_all add: app_inv_def\<close>)
  then show ?thesis using inv by (simp add: set_visibility_def app_inv_on_visible)
qed

lemma app_inv_foldl_on_visible: "app_inv p s \<Longrightarrow> app_inv p (foldl (\<lambda>t x. on_visible p h v t) s xs)"
  by (induction xs arbitrary: s) (simp_all add: app_inv_on_visible)

lemma app_inv_hotkey: "app_inv p s \<Longrightarrow> app_inv p (on_global_hotkey p h s)"
proof -
  assume inv: "app_inv p s"
  let ?f = "if hotkey_present (app_windows s) then hide_win else present_win"
  have "app_inv p (s\<lparr>app_windows := map ?f (app_windows s)\<rparr>)"
    by (rule app_inv_map_windows [OF inv, of ?f]) (use inv in \<open>simp_all add: app_inv_def hide_win_def present_win_def\<close>)
  then show ?thesis by (simp add: on_global_hotkey_def Let_def app_inv_foldl_on_visible)
qed

lemma app_inv_present_all: "app_inv p s \<Longrightarrow> app_inv p (present_all_windows s)"
  by (rule app_inv_map_windows [of p s present_win]) (simp_all add: present_all_windows_def present_win_def app_inv_def)

lemma app_inv_second_instance:
  "app_inv p s \<Longrightarrow> app_inv p (fst (handle_second_instance argv cwd s :: app_state \<times> unit delivery list))"
  by (simp add: handle_second_instance_def Let_def app_inv_present_all app_inv_new_window)

lemma app_inv_destroyed:
  "app_inv p s \<Longrightarrow> app_inv p (s\<lparr>app_windows := map (\<lambda>x. if w_id x = i then x\<lparr>w_destroyed := True\<rparr> else x) (app_windows s)\<rparr>)"
  by (rule app_inv_map_windows [of p s "\<lambda>x. if w_id x = i then x\<lparr>w_destroyed := True\<rparr> else x"])
     (simp_all add: app_inv_def)

lemma app_inv_ensure_window: "app_inv p s \<Longrightarrow> app_inv p (ensure_window s)"
  by (simp add: ensure_window_def app_inv_new_window)

lemma app_inv_menu_click: "app_inv p s \<Longrightarrow> app_inv p (fst (menu_click m s))"
  by (cases m) (simp_all add: menu_view_def Let_def app_inv_ensure_window, simp add: app_inv_def)

lemma app_inv_focus: "app_inv p s \<Longrightarrow> app_inv p (app_focus p h s)"
  by (simp add: app_focus_def app_inv_foldl_on_visible app_inv_present_all)

text \<open>The menu exists on macOS only: its event leaves other platforms' states unchanged.\<close>

lemma app_inv_menu_event: "app_inv p s \<Longrightarrow> app_inv p (app_step p h (AppMenu m) s)"
proof (cases "p = Darwin")
  case True
  assume "app_inv p s"
  then show ?thesis using True app_inv_menu_click [of p s m] by simp
qed simp

lemma app_inv_step:
  assumes inv: "app_inv p s" shows "app_inv p (app_step p h e s)"
proof (cases "\<exists>m. e = AppMenu m")
  case True
  then obtain m where "e = AppMenu m" by blast
  show ?thesis unfolding \<open>e = AppMenu m\<close> by (rule app_inv_menu_event [OF inv])
next
  case False
  then show ?thesis using inv
    by (cases e) (simp_all add: app_inv_new_window app_inv_window_closed app_inv_set_visibility app_inv_hotkey
       app_inv_second_instance app_inv_destroyed app_inv_focus,
     simp_all add: app_inv_def before_quit_app_def window_all_closed_def)
qed

subsection \<open>Behaviour of the handlers\<close>

text \<open>
  The hotkey hides every window when they are present and presents them all otherwise, so
  it toggles presence; hiding them runs the subscribers, which put up the tray.
  \<open>send\<close> fails exactly when there are windows and every one is destroyed.
\<close>

lemma hotkey_present_hidden: "\<forall>w \<in> set ws. \<not> w_visible w \<Longrightarrow> \<not> hotkey_present ws"
  by (auto simp: hotkey_present_def)

lemma hotkey_present_presented: "ws \<noteq> [] \<Longrightarrow> \<forall>w \<in> set ws. w_visible w \<and> w_focused w \<Longrightarrow> hotkey_present ws"
  by (cases ws) (auto simp: hotkey_present_def)

lemma on_global_hotkey_windows:
  "app_windows (on_global_hotkey p h s) =
     map (if hotkey_present (app_windows s) then hide_win else present_win) (app_windows s)"
  by (simp add: on_global_hotkey_def Let_def)

lemma foldl_on_visible_tray:
  "xs \<noteq> [] \<Longrightarrow> p \<noteq> Linux \<Longrightarrow>
   app_tray (foldl (\<lambda>t x. on_visible p h v t) s xs) = (if v then False else app_tray s \<or> \<not> h)"
proof (induction xs arbitrary: s)
  case (Cons x xs)
  then show ?case
    by (cases xs) (auto simp: on_visible_def enable_tray_def disable_tray_def)
qed simp

lemma hotkey_toggles:
  "app_windows s \<noteq> [] \<Longrightarrow>
   (\<forall>w \<in> set (app_windows (on_global_hotkey p h s)). w_visible w = (\<not> hotkey_present (app_windows s))) \<and>
   hotkey_present (app_windows (on_global_hotkey p h s)) = (\<not> hotkey_present (app_windows s))"
proof (cases "hotkey_present (app_windows s)")
  case True
  then show ?thesis
    using hotkey_present_hidden [of "map hide_win (app_windows s)"]
    by (simp add: on_global_hotkey_windows hide_win_def)
next
  case False
  assume "app_windows s \<noteq> []"
  then show ?thesis using False hotkey_present_presented [of "map present_win (app_windows s)"]
    by (simp add: on_global_hotkey_windows present_win_def)
qed

lemma hotkey_hide_enables_tray:
  "p \<noteq> Linux \<Longrightarrow> hotkey_present (app_windows s) \<Longrightarrow> app_tray (on_global_hotkey p h s) = (app_tray s \<or> \<not> h)"
proof -
  assume p: "p \<noteq> Linux" and pres: "hotkey_present (app_windows s)"
  then have "filter w_visible (app_windows s) \<noteq> []"
    by (auto simp: hotkey_present_def filter_empty_conv split: if_splits)
  then show ?thesis using p pres
    by (simp add: on_global_hotkey_def Let_def foldl_on_visible_tray)
qed

lemma app_send_none_iff:
  "app_send ev s = None \<longleftrightarrow> app_windows s \<noteq> [] \<and> (\<forall>w \<in> set (app_windows s). w_destroyed w)"
  by (auto simp: app_send_def new_window_def Let_def filter_empty_conv filter_eq_Cons_iff split: list.split)

lemma app_send_first_live:
  "app_send ev s = Some (s', d) \<Longrightarrow> \<exists>w. d = SendTo (w_id w) ev \<and> filter (\<lambda>x. \<not> w_destroyed x) (app_windows s') = w # tl (filter (\<lambda>x. \<not> w_destroyed x) (app_windows s'))"
  by (auto simp: app_send_def Let_def split: list.splits if_splits)

lemma second_instance_last_window:
  "handle_second_instance argv cwd s = (s', ds) \<Longrightarrow> app_windows s' \<noteq> [] \<and>
   (\<forall>w \<in> set (app_windows s'). w_visible w \<and> w_focused w) \<and> ds = [PassCli (w_id (last (app_windows s'))) argv cwd] \<and>
   (app_windows s = [] \<longrightarrow> w_id (last (app_windows s')) = app_next_window s)"
  by (cases "app_windows s = []") (auto simp: handle_second_instance_def present_all_windows_def present_win_def new_window_def Let_def)

lemma all_closed_quits:
  "app_quit (app_step p h AppAllClosed s) =
     (app_quit s \<or> (app_windows s = [] \<and> (app_quit_requested s \<or> p \<noteq> Darwin)))"
  by (auto simp: window_all_closed_def)

lemma broadcast_except_sender:
  "broadcast_except ev c s = filter (\<lambda>d. d \<noteq> SendTo c ev) (broadcast ev s)"
  by (induction "app_windows s" arbitrary: s) (auto simp: broadcast_def broadcast_except_def filter_map comp_def)

text \<open>
  A tray click presents every window and, when one was hidden, takes the tray down. The
  menu's View items reach the focused window, Preferences always the first, and with no
  window the menu first opens one, which receives the message.
\<close>

lemma ensure_window_nonempty [simp]: "app_windows s \<noteq> [] \<Longrightarrow> ensure_window s = s"
  by (simp add: ensure_window_def)

lemma app_focus_presents:
  assumes "p \<noteq> Linux" and "\<exists>w \<in> set (app_windows s). \<not> w_visible w"
  shows "(\<forall>w \<in> set (app_windows (app_focus p h s)). w_visible w \<and> w_focused w) \<and> \<not> app_tray (app_focus p h s)"
proof -
  have "filter (\<lambda>x. \<not> w_visible x) (app_windows s) \<noteq> []" using assms(2) by (simp add: filter_empty_conv)
  then show ?thesis using assms(1)
    by (simp add: app_focus_def foldl_on_visible_tray present_all_windows_def present_win_def)
qed

lemma menu_view_focused:
  assumes "w \<in> set (app_windows s)" and "w_focused w"
  shows "\<exists>v \<in> set (app_windows s). w_focused v \<and> menu_view ch s = (s, [SendTo (w_id v) ch])"
proof -
  obtain v where "find w_focused (app_windows s) = Some v"
    using assms by (cases "find w_focused (app_windows s)") (auto simp: find_None_iff)
  moreover then have "v \<in> set (app_windows s) \<and> w_focused v" by (auto simp: find_Some_iff)
  moreover have "app_windows s \<noteq> []" using assms(1) by auto
  ultimately show ?thesis by (auto simp: menu_view_def Let_def)
qed

lemma menu_preferences_first:
  "app_windows s = w # ws \<Longrightarrow> menu_click MenuPreferences s = (s, [SendTo (w_id w) ''host:preferences-menu''])"
  by simp

lemma menu_opens_window:
  "app_windows s = [] \<Longrightarrow> m \<noteq> MenuQuit \<Longrightarrow>
   fst (menu_click m s) = fst (new_window False s) \<and> (\<exists>ch. snd (menu_click m s) = [SendTo (app_next_window s) ch])"
  by (cases m) (simp_all add: menu_view_def ensure_window_def new_window_def Let_def)

text \<open>
  C18. In every state reachable through window creation, closing, visibility changes, the
  global hotkey, second instances, quitting, destroyed web contents, the clicks of the macOS
  menu and of the tray, window ids are
  distinct and drawn from the counter, a non-empty window list has exactly one main window,
  and on Linux there is never a tray.
\<close>

theorem app_reachable_inv: "app_reachable p h s \<Longrightarrow> app_inv p s"
  by (induction rule: app_reachable.induct) (simp_all add: app_inv_init app_inv_step)

theorem app_reachable_inv_witness:
  "app_inv Darwin (app_step Darwin False (AppWindowClosed 0)
     (app_step Darwin False (AppNewWindow False) (app_step Darwin False (AppNewWindow True) app_init)))"
  by (rule app_reachable_inv [where h = False]) (intro app_reachable.step app_reachable.init)

end
