(* ===== verification/Codec.thy ===== *)
theory Codec
  imports Prelude
begin

text \<open>
  The JavaScript built-ins through which the workspace service turns a JSON text into a
  shareable URL and back (\<open>generateShareableUrl\<close> and \<open>importFromUrl\<close> of
  \<open>tlink-core/src/services/workspace.service.ts\<close>):
  \<^item> \<open>btoa\<close> and \<open>atob\<close> (HTML standard, forgiving base64): \<open>btoa\<close> writes each three
    bytes as four characters of the base64 alphabet with \<open>=\<close> padding; \<open>atob\<close> drops ASCII
    white space, removes one or two trailing \<open>=\<close> when the length is a multiple of four,
    and fails on a length of the form \<open>4k + 1\<close> or on a character outside the alphabet.
  \<^item> \<open>unescape(encodeURIComponent(s))\<close> is the UTF-8 encoding of the UTF-16 text \<open>s\<close> as a
    string of bytes (\<open>utf8_encode\<close>); \<open>encodeURIComponent\<close> throws \<open>URIError\<close> on an unpaired
    surrogate, which is \<open>None\<close>.
  \<^item> \<open>decodeURIComponent(escape(b))\<close> is the UTF-8 decoding of the bytes \<open>b\<close>
    (\<open>utf8_decode\<close>); it throws \<open>URIError\<close>, \<open>None\<close>, on a byte sequence that is not the
    shortest UTF-8 encoding of a Unicode scalar value.
  \<^item> \<open>JSON.stringify\<close> without indentation, over the \<open>json\<close> values of the prelude.
  Bytes are \<open>8 word\<close> values and a JavaScript string is the list of its UTF-16 code units,
  \<open>16 word\<close> values (\<open>js_text\<close>); the bit operations of \<open>btoa\<close> are those of the standard.
\<close>

subsection \<open>Base64\<close>

unbundle bit_operations_syntax

definition b64_alphabet :: string where
  "b64_alphabet = ''ABCDEFGHIJKLMNOPQRSTUVWXYZabcdefghijklmnopqrstuvwxyz0123456789+/''"

definition b64_char :: "8 word \<Rightarrow> char" where
  "b64_char i = b64_alphabet ! unat i"

definition b64_value :: "char \<Rightarrow> 8 word option" where
  "b64_value c = map_option of_nat (find_idx (\<lambda>d. d = c) b64_alphabet)"

fun b64_sextets :: "bytes \<Rightarrow> 8 word list" where
  "b64_sextets (a # b # c # rest) =
     [drop_bit 2 a, push_bit 4 (take_bit 2 a) OR drop_bit 4 b, push_bit 2 (take_bit 4 b) OR drop_bit 6 c, take_bit 6 c]
     @ b64_sextets rest"
| "b64_sextets [a, b] = [drop_bit 2 a, push_bit 4 (take_bit 2 a) OR drop_bit 4 b, push_bit 2 (take_bit 4 b)]"
| "b64_sextets [a] = [drop_bit 2 a, push_bit 4 (take_bit 2 a)]"
| "b64_sextets [] = []"

definition b64_pad :: "bytes \<Rightarrow> string" where
  "b64_pad bs = replicate ((3 - length bs mod 3) mod 3) CHR ''=''"

definition btoa :: "bytes \<Rightarrow> string" where
  "btoa bs = map b64_char (b64_sextets bs) @ b64_pad bs"

fun b64_decode_groups :: "8 word list \<Rightarrow> bytes" where
  "b64_decode_groups (i0 # i1 # i2 # i3 # rest) =
     [push_bit 2 i0 OR drop_bit 4 i1, push_bit 4 i1 OR drop_bit 2 i2, push_bit 6 i2 OR i3] @ b64_decode_groups rest"
| "b64_decode_groups [i0, i1, i2] = [push_bit 2 i0 OR drop_bit 4 i1, push_bit 4 i1 OR drop_bit 2 i2]"
| "b64_decode_groups [i0, i1] = [push_bit 2 i0 OR drop_bit 4 i1]"
| "b64_decode_groups _ = []"

definition ascii_ws :: "char \<Rightarrow> bool" where
  "ascii_ws c \<longleftrightarrow> of_char c \<in> {9, 10, 12, 13, 32 :: nat}"

definition strip_b64_padding :: "string \<Rightarrow> string" where
  "strip_b64_padding s =
     (if length s mod 4 = 0 \<and> drop (length s - 2) s = ''=='' then take (length s - 2) s
      else if length s mod 4 = 0 \<and> drop (length s - 1) s = ''='' then take (length s - 1) s else s)"

definition atob :: "string \<Rightarrow> bytes option" where
  "atob s = (let s1 = strip_b64_padding (filter (\<lambda>c. \<not> ascii_ws c) s)
             in if length s1 mod 4 = 1 then None else map_option b64_decode_groups (those (map b64_value s1)))"

subsection \<open>UTF-8\<close>

type_synonym js_text = "16 word list"

definition is_lead :: "16 word \<Rightarrow> bool" where
  "is_lead c \<longleftrightarrow> 0xD800 \<le> unat c \<and> unat c \<le> 0xDBFF"

definition is_trail :: "16 word \<Rightarrow> bool" where
  "is_trail c \<longleftrightarrow> 0xDC00 \<le> unat c \<and> unat c \<le> 0xDFFF"

definition surrogate_pair :: "16 word \<Rightarrow> 16 word \<Rightarrow> nat" where
  "surrogate_pair c d = 0x10000 + (unat c - 0xD800) * 1024 + (unat d - 0xDC00)"

definition byte :: "nat \<Rightarrow> 8 word" where
  "byte n = of_nat n"

definition code_unit :: "nat \<Rightarrow> 16 word" where
  "code_unit n = of_nat n"

definition utf8_of_cp :: "nat \<Rightarrow> bytes" where
  "utf8_of_cp cp = map byte
     (if cp < 0x80 then [cp]
      else if cp < 0x800 then [0xC0 + cp div 64, 0x80 + cp mod 64]
      else if cp < 0x10000 then [0xE0 + cp div 4096, 0x80 + cp div 64 mod 64, 0x80 + cp mod 64]
      else [0xF0 + cp div 262144, 0x80 + cp div 4096 mod 64, 0x80 + cp div 64 mod 64, 0x80 + cp mod 64])"

definition utf16_of_cp :: "nat \<Rightarrow> js_text" where
  "utf16_of_cp cp =
     (if cp < 0x10000 then [code_unit cp]
      else [code_unit (0xD800 + (cp - 0x10000) div 1024), code_unit (0xDC00 + (cp - 0x10000) mod 1024)])"

fun utf8_encode :: "js_text \<Rightarrow> bytes option" where
  "utf8_encode [] = Some []"
| "utf8_encode (c # cs) =
     (if is_trail c then None
      else if is_lead c then
        (case cs of [] \<Rightarrow> None
         | d # ds \<Rightarrow> if is_trail d then map_option ((@) (utf8_of_cp (surrogate_pair c d))) (utf8_encode ds) else None)
      else map_option ((@) (utf8_of_cp (unat c))) (utf8_encode cs))"

definition utf8_valid :: "nat \<Rightarrow> nat \<Rightarrow> bool" where
  "utf8_valid k cp \<longleftrightarrow>
     (if k = 1 then 0x80 \<le> cp else if k = 2 then 0x800 \<le> cp \<and> \<not> (0xD800 \<le> cp \<and> cp \<le> 0xDFFF)
      else 0x10000 \<le> cp \<and> cp \<le> 0x10FFFF)"

function (domintros) utf8_decode :: "bytes \<Rightarrow> js_text option" where
  "utf8_decode [] = Some []"
| "utf8_decode (b # bs) =
     (let n = unat b in
      if n < 0x80 then map_option (Cons (code_unit n)) (utf8_decode bs)
      else if n < 0xC0 \<or> 0xF8 \<le> n then None
      else
        let k = (if n < 0xE0 then 1 else if n < 0xF0 then 2 else 3 :: nat) in
        if length bs < k \<or> (\<exists>c \<in> set (take k bs). unat c div 64 \<noteq> 2) then None
        else
          let cp = foldl (\<lambda>a c. a * 64 + unat c mod 64) (n mod 2 ^ (6 - k)) (take k bs) in
          if utf8_valid k cp then map_option ((@) (utf16_of_cp cp)) (utf8_decode (drop k bs)) else None)"
  by pat_completeness auto
termination by (relation "measure length") auto

subsection \<open>JSON text\<close>

text \<open>\<open>QuoteJSONString\<close>: quote and backslash are escaped, the control characters with
  their short escapes or \<open>\u00xx\<close> in lower-case hexadecimal; every other character is
  written as it is.\<close>

definition hex_digit :: "nat \<Rightarrow> char" where
  "hex_digit d = char_of (if d < 10 then 48 + d else 87 + d)"

definition json_escape :: "char \<Rightarrow> string" where
  "json_escape c =
     (let n = of_char c :: nat; bs = char_of (92 :: nat) in
      if n = 34 then [bs, c] else if n = 92 then [bs, bs]
      else if n = 8 then [bs, CHR ''b''] else if n = 12 then [bs, CHR ''f'']
      else if n = 10 then [bs, CHR ''n''] else if n = 13 then [bs, CHR ''r''] else if n = 9 then [bs, CHR ''t'']
      else if n < 32 then [bs, CHR ''u'', CHR ''0'', CHR ''0'', hex_digit (n div 16), hex_digit (n mod 16)]
      else [c])"

definition json_quote :: "string \<Rightarrow> string" where
  "json_quote s = char_of (34 :: nat) # concat (map json_escape s) @ [char_of (34 :: nat)]"

fun json_stringify :: "json \<Rightarrow> string" where
  "json_stringify JNull = ''null''"
| "json_stringify (JBool b) = (if b then ''true'' else ''false'')"
| "json_stringify (JNum i) = int_to_string i"
| "json_stringify (JStr s) = json_quote s"
| "json_stringify (JArr xs) = ''['' @ join_with '','' (map json_stringify xs) @ '']''"
| "json_stringify (JObj kvs) =
     ''{'' @ join_with '','' (map (\<lambda>kv. json_quote (fst kv) @ '':'' @ json_stringify (snd kv)) kvs) @ ''}''"

text \<open>A string of the model (8-bit characters) as JavaScript text.\<close>

definition text_of :: "string \<Rightarrow> js_text" where
  "text_of s = map (\<lambda>c. code_unit (of_char c)) s"

subsection \<open>Round trips\<close>

lemma suc_suc_diff2 [simp]: "2 \<le> n \<Longrightarrow> Suc (Suc (n - 2)) = n"
  by arith

lemma b64_regroup:
  fixes a b c :: "8 word"
  shows "push_bit 2 (drop_bit 2 a) OR drop_bit 4 (push_bit 4 (take_bit 2 a) OR drop_bit 4 b) = a"
    and "push_bit 4 (push_bit 4 (take_bit 2 a) OR drop_bit 4 b) OR drop_bit 2 (push_bit 2 (take_bit 4 b) OR drop_bit 6 c) = b"
    and "push_bit 6 (push_bit 2 (take_bit 4 b) OR drop_bit 6 c) OR take_bit 6 c = c"
    and "push_bit 2 (drop_bit 2 a) OR drop_bit 4 (push_bit 4 (take_bit 2 a)) = a"
    and "push_bit 4 (push_bit 4 (take_bit 2 a) OR drop_bit 4 b) OR drop_bit 2 (push_bit 2 (take_bit 4 b)) = b"
  by (rule bit_word_eqI;
      subgoal_tac "n < 2 \<or> (2 \<le> n \<and> n < 4) \<or> (4 \<le> n \<and> n < 6) \<or> 6 \<le> n";
      auto simp: bit_simps le_add_diff_inverse)+

lemma b64_decode_sextets: "b64_decode_groups (b64_sextets bs) = bs"
  by (induction bs rule: b64_sextets.induct)
     (simp_all only: b64_sextets.simps b64_decode_groups.simps append_Cons append_Nil b64_regroup)

lemma unat_lt64:
  assumes "drop_bit 6 (x :: 8 word) = 0" shows "unat x < 64"
proof -
  have "unat x div 64 = 0" using arg_cong [OF assms, of unat] by (simp add: unat_drop_bit_eq drop_bit_eq_div unat_div)
  then show ?thesis by simp
qed

lemma b64_sextet_shapes:
  fixes a b c :: "8 word"
  shows "unat (drop_bit 2 a) < 64" and "unat (push_bit 4 (take_bit 2 a) OR drop_bit 4 b) < 64"
    and "unat (push_bit 2 (take_bit 4 b) OR drop_bit 6 c) < 64" and "unat (take_bit 6 c) < 64"
    and "unat (push_bit 4 (take_bit 2 a)) < 64" and "unat (push_bit 2 (take_bit 4 b)) < 64"
  by (rule unat_lt64, rule bit_word_eqI, auto simp: bit_simps)+

lemma b64_sextets_small: "x \<in> set (b64_sextets bs) \<Longrightarrow> unat x < 64"
  by (induction bs rule: b64_sextets.induct) (auto simp: b64_sextet_shapes)

lemma find_idx_nth_distinct: "distinct xs \<Longrightarrow> n < length xs \<Longrightarrow> find_idx (\<lambda>d. d = xs ! n) xs = Some n"
proof (induction xs arbitrary: n)
  case (Cons x xs)
  then show ?case by (cases n) (auto simp: nth_mem)
qed simp

lemma b64_alphabet_facts: "distinct b64_alphabet" "length b64_alphabet = 64"
  "CHR ''='' \<notin> set b64_alphabet" "\<forall>c \<in> set b64_alphabet. \<not> ascii_ws c"
  by (simp_all add: b64_alphabet_def ascii_ws_def)

lemma b64_value_char: "unat x < 64 \<Longrightarrow> b64_value (b64_char x) = Some x"
  by (simp add: b64_char_def b64_value_def find_idx_nth_distinct b64_alphabet_facts)

lemma b64_char_in: "unat x < 64 \<Longrightarrow> b64_char x \<in> set b64_alphabet"
  by (simp add: b64_char_def b64_alphabet_facts)

lemma b64_pad_Cons3 [simp]: "b64_pad (a # b # c # rest) = b64_pad rest"
  by (simp add: b64_pad_def)

lemma div3_step: "(5 + n) div 3 = Suc ((2 + n) div 3)" for n :: nat
  by presburger

lemma b64_sextets_length:
  "length (b64_sextets bs) + length (b64_pad bs) = 4 * ((length bs + 2) div 3) \<and>
   length (b64_pad bs) \<le> 2 \<and> length (b64_sextets bs) mod 4 \<noteq> 1"
  by (induction bs rule: b64_sextets.induct) (simp_all add: b64_pad_def div3_step)

lemma length_btoa: "length (btoa bs) = 4 * ((length bs + 2) div 3)"
  using b64_sextets_length [of bs] by (simp add: btoa_def)

lemma strip_b64_padding_pad:
  assumes "CHR ''='' \<notin> set t" "p \<le> 2" "(length t + p) mod 4 = 0"
  shows "strip_b64_padding (t @ replicate p CHR ''='') = t"
proof -
  consider "p = 0" | "p = 1" | "p = 2" using assms(2) by arith
  then show ?thesis
  proof cases
    case 1
    show ?thesis
    proof (cases t rule: rev_cases)
      case (snoc u x)
      have "x \<noteq> CHR ''=''" using assms(1) snoc by auto
      then show ?thesis using 1 snoc by (cases u rule: rev_cases) (auto simp: strip_b64_padding_def)
    qed (use 1 in \<open>simp add: strip_b64_padding_def\<close>)
  next
    case 2
    then obtain u x where t: "t = u @ [x]" using assms(3) by (cases t rule: rev_cases) auto
    have "x \<noteq> CHR ''=''" using assms(1) t by auto
    then show ?thesis using 2 t assms(3) by (simp add: strip_b64_padding_def numeral_2_eq_2)
  next
    case 3
    then show ?thesis using assms(3) by (simp add: strip_b64_padding_def numeral_2_eq_2)
  qed
qed

lemma those_b64_values: "\<forall>x \<in> set xs. unat x < 64 \<Longrightarrow> those (map (b64_value \<circ> b64_char) xs) = Some xs"
  by (induction xs) (simp_all add: b64_value_char)

lemma atob_btoa: "atob (btoa bs) = Some bs"
proof -
  let ?t = "map b64_char (b64_sextets bs)"
  have small: "\<forall>x \<in> set (b64_sextets bs). unat x < 64" using b64_sextets_small by blast
  have notpad: "CHR ''='' \<notin> set ?t" using small b64_char_in b64_alphabet_facts(3) by fastforce
  have nows: "filter (\<lambda>c. \<not> ascii_ws c) (btoa bs) = btoa bs"
    using small b64_char_in b64_alphabet_facts(4) by (auto simp: btoa_def b64_pad_def ascii_ws_def)
  have len: "(length ?t + length (b64_pad bs)) mod 4 = 0" "length (b64_pad bs) \<le> 2" "length ?t mod 4 \<noteq> 1"
    using b64_sextets_length [of bs] by simp_all
  have "strip_b64_padding (btoa bs) = ?t"
    using strip_b64_padding_pad [OF notpad len(2)] len(1) by (simp add: btoa_def b64_pad_def)
  then show ?thesis
    using nows len(3) small by (simp add: atob_def those_b64_values b64_decode_sextets)
qed

lemma unat_byte: "n < 256 \<Longrightarrow> unat (byte n) = n"
  by (simp add: byte_def unat_of_nat)

lemma unat_code_unit: "n < 65536 \<Longrightarrow> unat (code_unit n) = n"
  by (simp add: code_unit_def unat_of_nat)

lemma utf8_decode_Cons_cont:
  assumes "unat b = n" "0xC0 \<le> n" "n < 0xF8" "k = (if n < 0xE0 then 1 else if n < 0xF0 then 2 else 3)"
    "length cs = k" "\<forall>c \<in> set cs. unat c div 64 = 2"
    "cp = foldl (\<lambda>a c. a * 64 + unat c mod 64) (n mod 2 ^ (6 - k)) cs" "utf8_valid k cp"
  shows "utf8_decode (b # cs @ rest) = map_option ((@) (utf16_of_cp cp)) (utf8_decode rest)"
  using assms by (simp add: Let_def)

lemma lead_mod: "a mod m = 0 \<Longrightarrow> x < m \<Longrightarrow> (a + x) mod m = (x::nat)"
  by (metis mod_add_eq add_0 mod_less)
lemma cont_byte: "r < 64 \<Longrightarrow> (128 + r) div 64 = (2::nat)" "r < 64 \<Longrightarrow> (128 + r) mod 64 = (r::nat)"
  by (simp_all add: lead_mod)

lemma div64_split: "(x::nat) = x div 64 * 64 + x mod 64" "x div 4096 = x div 64 div 64" "x div 262144 = x div 4096 div 64"
  by (simp_all add: div_mult2_eq [symmetric])
lemma utf8_arith2: "cp < 2048 \<Longrightarrow> (192 + cp div 64) mod 32 * 64 + (128 + cp mod 64) mod 64 = (cp::nat)"
  using div64_split [of cp] by (simp add: lead_mod)
lemma utf8_arith3: "cp < 65536 \<Longrightarrow> ((224 + cp div 4096) mod 16 * 64 + (128 + cp div 64 mod 64) mod 64) * 64 + (128 + cp mod 64) mod 64 = (cp::nat)"
  using div64_split [of cp] div64_split(1) [of "cp div 64"] by (simp add: lead_mod)
lemma utf8_arith4:
  assumes "cp < 1114112"
  shows "(((240 + cp div 262144) mod 8 * 64 + (128 + cp div 4096 mod 64) mod 64) * 64 + (128 + cp div 64 mod 64) mod 64) * 64 + (128 + cp mod 64) mod 64 = (cp::nat)"
proof -
  have "cp div 262144 < 8" using assms by simp
  then have "(240 + cp div 262144) mod 8 = cp div 262144" by (simp add: lead_mod)
  then show ?thesis
    using div64_split(1) [of cp] div64_split(1) [of "cp div 64"] div64_split(1) [of "cp div 4096"] div64_split(2,3) [of cp]
    by (simp add: lead_mod)
qed

lemma utf8_decode_cp:
  assumes "cp < 0x110000" "\<not> (0xD800 \<le> cp \<and> cp \<le> 0xDFFF)"
  shows "utf8_decode (utf8_of_cp cp @ rest) = map_option ((@) (utf16_of_cp cp)) (utf8_decode rest)"
proof -
  consider "cp < 0x80" | "0x80 \<le> cp" "cp < 0x800" | "0x800 \<le> cp" "cp < 0x10000" | "0x10000 \<le> cp"
    by arith
  then show ?thesis
  proof cases
    case 1
    then show ?thesis by (cases "utf8_decode rest") (simp_all add: utf8_of_cp_def utf16_of_cp_def unat_byte)
  next
    case 2
    then have "utf8_of_cp cp = byte (0xC0 + cp div 64) # [byte (0x80 + cp mod 64)]"
      by (simp add: utf8_of_cp_def)
    moreover have "utf8_decode (byte (0xC0 + cp div 64) # [byte (0x80 + cp mod 64)] @ rest) =
                   map_option ((@) (utf16_of_cp cp)) (utf8_decode rest)"
      by (rule utf8_decode_Cons_cont [where n = "0xC0 + cp div 64" and k = 1])
         (use 2 utf8_arith2 [of cp] in \<open>simp_all add: unat_byte utf8_valid_def cont_byte\<close>)
    ultimately show ?thesis by simp
  next
    case 3
    then have "utf8_of_cp cp = byte (0xE0 + cp div 4096) # [byte (0x80 + cp div 64 mod 64), byte (0x80 + cp mod 64)]"
      by (simp add: utf8_of_cp_def)
    moreover have "utf8_decode (byte (0xE0 + cp div 4096) # [byte (0x80 + cp div 64 mod 64), byte (0x80 + cp mod 64)] @ rest) =
                   map_option ((@) (utf16_of_cp cp)) (utf8_decode rest)"
      by (rule utf8_decode_Cons_cont [where n = "0xE0 + cp div 4096" and k = 2])
         (use 3 assms(2) utf8_arith3 [of cp] in \<open>simp_all add: unat_byte utf8_valid_def cont_byte\<close>)
    ultimately show ?thesis by simp
  next
    case 4
    then have "utf8_of_cp cp = byte (0xF0 + cp div 262144) #
                 [byte (0x80 + cp div 4096 mod 64), byte (0x80 + cp div 64 mod 64), byte (0x80 + cp mod 64)]"
      by (simp add: utf8_of_cp_def)
    moreover have "utf8_decode (byte (0xF0 + cp div 262144) #
                 [byte (0x80 + cp div 4096 mod 64), byte (0x80 + cp div 64 mod 64), byte (0x80 + cp mod 64)] @ rest) =
                   map_option ((@) (utf16_of_cp cp)) (utf8_decode rest)"
      by (rule utf8_decode_Cons_cont [where n = "0xF0 + cp div 262144" and k = 3])
         (use 4 assms(1) utf8_arith4 [of cp] in \<open>simp_all add: unat_byte utf8_valid_def cont_byte\<close>)
    ultimately show ?thesis by simp
  qed
qed

lemma unat_cu_bound: "unat (c :: 16 word) < 65536"
proof -
  have "unat c < 2 ^ LENGTH(16)" by (rule unsigned_less)
  then show ?thesis by simp
qed

lemma utf16_of_cp_unit: "utf16_of_cp (unat c) = [c]"
  using unat_cu_bound [of c] by (simp add: utf16_of_cp_def code_unit_def)

lemma surrogate_pair_range:
  "is_lead c \<Longrightarrow> is_trail d \<Longrightarrow> 0x10000 \<le> surrogate_pair c d \<and> surrogate_pair c d < 0x110000"
  by (auto simp: surrogate_pair_def is_lead_def is_trail_def)

lemma utf16_of_surrogate_pair:
  assumes "is_lead c" "is_trail d" shows "utf16_of_cp (surrogate_pair c d) = [c, d]"
proof -
  have r: "unat d - 0xDC00 < 1024" using assms(2) unfolding is_trail_def by arith
  have "(surrogate_pair c d - 0x10000) div 1024 = unat c - 0xD800"
       "(surrogate_pair c d - 0x10000) mod 1024 = unat d - 0xDC00"
    using r by (simp_all add: surrogate_pair_def)
  then show ?thesis using assms surrogate_pair_range [OF assms]
    by (simp add: utf16_of_cp_def is_lead_def is_trail_def code_unit_def)
qed

lemma utf8_roundtrip: "utf8_encode cs = Some bs \<Longrightarrow> utf8_decode bs = Some cs"
proof (induction cs arbitrary: bs rule: utf8_encode.induct)
  case (2 c cs)
  show ?case
  proof (cases "is_trail c \<or> is_lead c")
    case True
    then obtain d ds r where cs: "cs = d # ds" and l: "is_lead c" and t: "is_trail d"
      and e: "utf8_encode ds = Some r" and bs: "bs = utf8_of_cp (surrogate_pair c d) @ r"
      using "2.prems" by (auto split: list.splits if_splits)
    have nt: "\<not> is_trail c" using l by (simp add: is_lead_def is_trail_def)
    have "utf8_decode r = Some ds" using "2.IH"(1) [OF nt l cs t e] .
    then show ?thesis using bs cs surrogate_pair_range [OF l t]
      by (simp add: utf8_decode_cp utf16_of_surrogate_pair [OF l t])
  next
    case False
    then obtain r where e: "utf8_encode cs = Some r" and bs: "bs = utf8_of_cp (unat c) @ r"
      using "2.prems" by auto
    have lt: "unat c < 0x110000" using unat_cu_bound [of c] by simp
    have ns: "\<not> (0xD800 \<le> unat c \<and> unat c \<le> 0xDFFF)" using False by (auto simp: is_lead_def is_trail_def)
    have "utf8_decode r = Some cs" using "2.IH"(2) [OF _ _ e] False by simp
    then show ?thesis using bs by (simp add: utf8_decode_cp [OF lt ns] utf16_of_cp_unit)
  qed
qed simp

lemma length_utf8_of_cp: "length (utf8_of_cp cp) \<le> 4 \<and> (cp < 0x10000 \<longrightarrow> length (utf8_of_cp cp) \<le> 3)"
  by (simp add: utf8_of_cp_def)

lemma utf8_encode_length: "utf8_encode cs = Some bs \<Longrightarrow> length bs \<le> 3 * length cs"
proof (induction cs arbitrary: bs rule: utf8_encode.induct)
  case (2 c cs)
  have u: "unat c < 0x10000" using unat_cu_bound [of c] by simp
  show ?case
  proof (cases "is_trail c \<or> is_lead c")
    case True
    then obtain d ds r where "cs = d # ds" "is_lead c" "is_trail d" "utf8_encode ds = Some r"
      "bs = utf8_of_cp (surrogate_pair c d) @ r"
      using "2.prems" by (auto split: list.splits if_splits)
    moreover have "\<not> is_trail c" using \<open>is_lead c\<close> by (simp add: is_lead_def is_trail_def)
    ultimately show ?thesis using "2.IH"(1) length_utf8_of_cp [of "surrogate_pair c d"] by fastforce
  next
    case False
    then obtain r where "utf8_encode cs = Some r" "bs = utf8_of_cp (unat c) @ r"
      using "2.prems" by auto
    then show ?thesis using False "2.IH"(2) length_utf8_of_cp [of "unat c"] u by fastforce
  qed
qed simp

lemma utf8_encode_text: "utf8_encode (text_of s) = Some (concat (map (\<lambda>c. utf8_of_cp (of_char c)) s))"
proof (induction s)
  case (Cons c s)
  have "of_char c < (256 :: nat)" by (rule nat_of_char_less_256)
  then have u: "unat (code_unit (of_char c)) = of_char c" by (intro unat_code_unit) linarith
  have "\<not> is_lead (code_unit (of_char c))" "\<not> is_trail (code_unit (of_char c))"
    unfolding is_lead_def is_trail_def u using nat_of_char_less_256 [of c] by linarith+
  with Cons u show ?case by (simp add: text_of_def)
qed (simp add: text_of_def)

lemma btoa_vectors:
  "btoa (map byte [102, 111, 111, 98, 97, 114]) = ''Zm9vYmFy''"
  "btoa (map byte [102, 111, 111, 98]) = ''Zm9vYg==''"
  "btoa (map byte [102, 111, 111, 98, 97]) = ''Zm9vYmE=''"
  by code_simp+

lemma length_utf16_of_cp: "length (utf16_of_cp cp) \<le> 2"
  by (simp add: utf16_of_cp_def)



end
