(* ===== verification/ShareUrl.thy ===== *)
theory ShareUrl
  imports Codec SettingsTabs
begin

text \<open>
  Shareable workspace URLs: \<open>generateShareableUrl\<close>, \<open>copyShareableUrl\<close> and
  \<open>importFromUrl\<close> of \<open>WorkspaceService\<close> (\<open>tlink-core/src/services/workspace.service.ts\<close>),
  and the tab handlers \<open>shareWorkspace\<close> and \<open>importWorkspaceFromUrl\<close> of
  \<open>WorkspaceSettingsTabComponent\<close>.
  \<^item> The URL is \<open>tlink://workspace/\<close> followed by \<open>btoa(unescape(encodeURIComponent(json)))\<close>,
    \<open>json\<close> the \<open>JSON.stringify\<close> text of the workspace's name, description, tabs, folders,
    profiles, layout and version (theory \<open>Codec\<close>). A recovery token is written as a JSON
    string, the layout as \<open>{"tabs": n}\<close>.
  \<^item> \<open>JSON.parse\<close> followed by the property reads of \<open>importFromUrl\<close> is the argument
    \<open>parse\<close>: the payload read, or \<open>None\<close> when parsing or a property read throws.
  \<^item> Every exception of \<open>importFromUrl\<close> is caught and yields \<open>null\<close>, here \<open>None\<close>;
    the workspace built from the payload is added by the code \<open>importFromJson\<close> also runs,
    \<open>import_payload\<close> of theory \<open>Workspace\<close>.
  \<^item> The user's input is a string of the model; a code unit above 255 would make
    \<open>atob\<close> fail, as a character outside the base64 alphabet does.
\<close>

definition share_prefix :: string where
  "share_prefix = ''tlink://workspace/''"

definition share_json :: "ws_payload \<Rightarrow> json" where
  "share_json p =
     JObj (json_opt_field ''name'' JStr (pl_name p) @ json_opt_field ''description'' JStr (pl_description p) @
           json_opt_field ''tabs'' (\<lambda>ts. JArr (map JStr ts)) (pl_tabs p) @
           json_opt_field ''codeEditorFolders'' (\<lambda>fs. JArr (map JStr fs)) (pl_folders p) @
           json_opt_field ''profiles'' (\<lambda>ps. JArr (map JStr ps)) (pl_profiles p) @
           json_opt_field ''layout'' (\<lambda>n. JObj [(''tabs'', JNum (int n))]) (pl_layout p) @
           json_opt_field ''version'' (\<lambda>v. JNum (int v)) (pl_version p))"

definition share_text :: "workspace \<Rightarrow> js_text" where
  "share_text w = text_of (json_stringify (share_json (export_payload w)))"

definition generate_shareable_url :: "uuid \<Rightarrow> ws_state \<Rightarrow> ws_state \<times> string option" where
  "generate_shareable_url i s =
     (case get_workspace i s of
        (s1, None) \<Rightarrow> (s1, None)
      | (s1, Some w) \<Rightarrow> (s1, map_option (\<lambda>b. share_prefix @ btoa b) (utf8_encode (share_text w))))"

text \<open>\<open>copyShareableUrl\<close>: the URL goes to the clipboard (the third component).\<close>

definition copy_shareable_url :: "uuid \<Rightarrow> ws_state \<Rightarrow> ws_state \<times> bool \<times> string option" where
  "copy_shareable_url i s =
     (case generate_shareable_url i s of
        (s1, None) \<Rightarrow> (s1, False, None)
      | (s1, Some u) \<Rightarrow> (s1, True, Some u))"

text \<open>
  The regular expression \<open>/data:[^;]*;base64,(.+)/\<close> searched in the input: the leftmost
  \<open>data:\<close> whose first following \<open>;\<close> starts \<open>;base64,\<close> and is followed by at least one
  character before a line terminator; the group is the rest of that line.
\<close>

definition line_terminator :: "char \<Rightarrow> bool" where
  "line_terminator c \<longleftrightarrow> of_char c \<in> {10, 13 :: nat}"

definition data_match_at :: "string \<Rightarrow> string option" where
  "data_match_at s =
     (if starts_with s ''data:'' then
        (let r = dropWhile (\<lambda>c. c \<noteq> CHR '';'') (drop 5 s) in
         if starts_with r '';base64,'' then
           (let g = takeWhile (\<lambda>c. \<not> line_terminator c) (drop 8 r) in if g = [] then None else Some g)
         else None)
      else None)"

fun data_url_match :: "string \<Rightarrow> string option" where
  "data_url_match [] = None"
| "data_url_match (c # cs) = (case data_match_at (c # cs) of Some g \<Rightarrow> Some g | None \<Rightarrow> data_url_match cs)"

text \<open>The three forms \<open>importFromUrl\<close> accepts: the \<open>tlink://workspace/\<close> URL, a
  \<open>data:\<close> URL, or the base64 text itself.\<close>

definition url_data :: "string \<Rightarrow> string option" where
  "url_data input =
     (if starts_with input share_prefix then Some (drop (length share_prefix) input)
      else if starts_with input ''data:'' then data_url_match input
      else Some input)"

definition import_data ::
  "(js_text \<Rightarrow> ws_payload option) \<Rightarrow> nat \<Rightarrow> string \<Rightarrow> ws_state \<Rightarrow> ws_state \<times> workspace option" where
  "import_data parse now b s =
     (case atob b of None \<Rightarrow> (s, None)
      | Some bs \<Rightarrow>
         (case utf8_decode bs of None \<Rightarrow> (s, None)
          | Some t \<Rightarrow> (case parse t of None \<Rightarrow> (s, None) | Some d \<Rightarrow> import_payload now d s)))"

definition import_from_url ::
  "(js_text \<Rightarrow> ws_payload option) \<Rightarrow> nat \<Rightarrow> string \<Rightarrow> ws_state \<Rightarrow> ws_state \<times> workspace option" where
  "import_from_url parse now input s =
     (case url_data input of None \<Rightarrow> (s, None) | Some b \<Rightarrow> import_data parse now b s)"

subsection \<open>The settings tab\<close>

definition wt_share_workspace :: "workspace \<Rightarrow> ws_tab \<Rightarrow> ws_state \<Rightarrow> ws_tab \<times> ws_state \<times> string option" where
  "wt_share_workspace w t s =
     (case copy_shareable_url (ws_id w) s of
        (s1, True, clip) \<Rightarrow> (wt_note (Notice ''Workspace shareable URL copied to clipboard'') t, s1, clip)
      | (s1, False, clip) \<Rightarrow> (wt_note (NotifyError ''Failed to generate shareable URL'') t, s1, clip))"

text \<open>\<open>importWorkspaceFromUrl\<close>: the prompt's value, \<open>None\<close> when the prompt is dismissed.\<close>

definition wt_import_from_url ::
  "(js_text \<Rightarrow> ws_payload option) \<Rightarrow> nat \<Rightarrow> string option \<Rightarrow> ws_tab \<Rightarrow> ws_state \<Rightarrow> ws_tab \<times> ws_state" where
  "wt_import_from_url parse now input t s =
     (case input of None \<Rightarrow> (t, s)
      | Some v \<Rightarrow>
         if trim v = [] then (t, s)
         else (case import_from_url parse now (trim v) s of
                 (s1, Some w) \<Rightarrow>
                   (case wt_load_workspaces (wt_note (Notice (''Workspace imported: '' @ ws_name w)) t) s1 of
                      (t2, s2) \<Rightarrow> (t2\<lparr>wt_selected := Some w\<rparr>, s2))
               | (s1, None) \<Rightarrow> (wt_note (NotifyError ''Failed to import workspace'') t, s1)))"

definition demo_parse :: "js_text \<Rightarrow> ws_payload option" where
  "demo_parse t = (if t = share_text demo_w0 then Some (export_payload demo_w0) else None)"

definition demo_bytes :: bytes where
  "demo_bytes = map byte [123, 34, 110, 97, 109, 101, 34, 58, 34, 100, 101, 118, 34, 44, 34, 116, 97, 98, 115, 34, 58, 91, 34, 116, 111, 107, 45, 101, 100, 105, 116, 111, 114, 34, 93, 44, 34, 99, 111, 100, 101, 69, 100, 105, 116, 111, 114, 70, 111, 108, 100, 101, 114, 115, 34, 58, 91, 34, 47, 97, 34, 44, 34, 47, 98, 34, 93, 44, 34, 112, 114, 111, 102, 105, 108, 101, 115, 34, 58, 91, 34, 112, 49, 34, 93, 44, 34, 108, 97, 121, 111, 117, 116, 34, 58, 123, 34, 116, 97, 98, 115, 34, 58, 50, 125, 44, 34, 118, 101, 114, 115, 105, 111, 110, 34, 58, 49, 125]"

subsection \<open>Recognising the URL forms\<close>

lemma starts_with_append_self [simp]: "starts_with (p @ x) p"
  by (simp add: starts_with_iff)

lemma btoa_chars: "c \<in> set (btoa bs) \<Longrightarrow> c \<in> set b64_alphabet \<or> c = CHR ''=''"
  using b64_sextets_small b64_char_in by (auto simp: btoa_def b64_pad_def)

lemma btoa_no_colon: "CHR '':'' \<notin> set (btoa bs)"
  using btoa_chars [of "CHR '':''" bs] by (auto simp: b64_alphabet_def)

lemma btoa_no_line_terminator: "c \<in> set (btoa bs) \<Longrightarrow> \<not> line_terminator c"
  using btoa_chars [of c bs] by (auto simp: b64_alphabet_def line_terminator_def)

lemma starts_with_colon: "CHR '':'' \<in> set p \<Longrightarrow> starts_with x p \<Longrightarrow> CHR '':'' \<in> set x"
  by (auto simp: starts_with_iff)

lemma url_data_prefixed: "url_data (share_prefix @ x) = Some x"
  by (simp add: url_data_def)

lemma url_data_forms:
  "url_data (share_prefix @ btoa bs) = Some (btoa bs)"
  "url_data (btoa bs) = Some (btoa bs)"
  "bs \<noteq> [] \<Longrightarrow> CHR '';'' \<notin> set mt \<Longrightarrow> url_data (''data:'' @ mt @ '';base64,'' @ btoa bs) = Some (btoa bs)"
proof -
  show "url_data (share_prefix @ btoa bs) = Some (btoa bs)"
    by (simp add: url_data_def)
  have "\<not> starts_with (btoa bs) share_prefix" "\<not> starts_with (btoa bs) ''data:''"
    using starts_with_colon [of share_prefix "btoa bs"] starts_with_colon [of "''data:''" "btoa bs"] btoa_no_colon
    by (auto simp: share_prefix_def)
  then show "url_data (btoa bs) = Some (btoa bs)" by (simp add: url_data_def)
  assume ne: "bs \<noteq> []" and mt: "CHR '';'' \<notin> set mt"
  have "btoa bs \<noteq> []" using ne length_btoa [of bs] by (auto simp: div_eq_0_iff)
  moreover have tw: "takeWhile (\<lambda>c. \<not> line_terminator c) (btoa bs) = btoa bs"
    using btoa_no_line_terminator by (simp add: takeWhile_eq_all_conv)
  moreover have "\<not> starts_with (''data:'' @ mt @ '';base64,'' @ btoa bs) share_prefix"
    by (simp add: share_prefix_def)
  moreover have "dropWhile (\<lambda>c. c \<noteq> CHR '';'') (mt @ '';base64,'' @ btoa bs) = '';base64,'' @ btoa bs"
    using mt by (induction mt) auto
  ultimately show "url_data (''data:'' @ mt @ '';base64,'' @ btoa bs) = Some (btoa bs)"
    by (simp add: url_data_def data_match_at_def Let_def tw)
qed

lemma import_data_btoa:
  "import_data parse now (btoa bs) s =
     (case utf8_decode bs of None \<Rightarrow> (s, None)
      | Some t \<Rightarrow> (case parse t of None \<Rightarrow> (s, None) | Some d \<Rightarrow> import_payload now d s))"
  by (simp add: import_data_def atob_btoa)

lemma import_url_forms:
  assumes "bs \<noteq> []" and "CHR '';'' \<notin> set mt"
  shows "import_from_url parse now (share_prefix @ btoa bs) s = import_from_url parse now (btoa bs) s \<and>
         import_from_url parse now (''data:'' @ mt @ '';base64,'' @ btoa bs) s = import_from_url parse now (btoa bs) s"
  by (simp only: import_from_url_def url_data_forms(1,2) url_data_forms(3) [OF assms] option.case simp_thms)

lemma atob_skips_ws: "ascii_ws c \<Longrightarrow> atob (x @ c # y) = atob (x @ y)"
  by (simp add: atob_def)

text \<open>
  The demonstration workspace \<open>demo_w0\<close> of theory \<open>Workspace\<close>: its URL, computed here,
  is the one a browser computes for the same object. Wrapped over two lines, the
  \<open>tlink://\<close> form still imports, since \<open>atob\<close> drops white space, but the \<open>data:\<close> form
  does not: the group \<open>(.+)\<close> of the regular expression stops at the line break and only
  the first line is decoded.
\<close>

lemma demo_share_bytes: "utf8_encode (share_text demo_w0) = Some demo_bytes"
  by (simp add: share_text_def utf8_encode_text share_json_def export_payload_def demo_w0_def json_opt_field_def
      json_quote_def json_escape_def int_to_string_def nat_to_string.simps utf8_of_cp_def demo_bytes_def)

lemma demo_btoa: "btoa demo_bytes = ''eyJuYW1lIjoiZGV2IiwidGFicyI6WyJ0b2stZWRpdG9yIl0sImNvZGVFZGl0b3JGb2xkZXJzIjpbIi9hIiwiL2IiXSwicHJvZmlsZXMiOlsicDEiXSwibGF5b3V0Ijp7InRhYnMiOjJ9LCJ2ZXJzaW9uIjoxfQ==''"
  by code_simp

lemma demo_get: "get_workspace 0 demo_saved = (demo_saved, Some demo_w0)"
  by (simp add: get_workspace_def get_workspaces_def demo_saved_def demo_ws_def ensure_workspaces_config_def
      stored_def demo_w0_def)

lemma demo_share_url: "generate_shareable_url 0 demo_saved = (demo_saved, Some (''tlink://workspace/'' @ ''eyJuYW1lIjoiZGV2IiwidGFicyI6WyJ0b2stZWRpdG9yIl0sImNvZGVFZGl0b3JGb2xkZXJzIjpbIi9hIiwiL2IiXSwicHJvZmlsZXMiOlsicDEiXSwibGF5b3V0Ijp7InRhYnMiOjJ9LCJ2ZXJzaW9uIjoxfQ==''))"
  by (simp add: generate_shareable_url_def demo_get demo_share_bytes demo_btoa share_prefix_def)

lemma demo_wrapped_tlink_imports:
  "import_from_url demo_parse now (share_prefix @ take 8 (btoa demo_bytes) @ CHR 0x0A # drop 8 (btoa demo_bytes)) s =
     import_payload now (export_payload demo_w0) s"
proof -
  let ?x = "take 8 (btoa demo_bytes) @ CHR 0x0A # drop 8 (btoa demo_bytes)"
  have a: "atob ?x = Some demo_bytes"
    by (subst atob_skips_ws) (simp_all add: ascii_ws_def atob_btoa)
  have u: "url_data (share_prefix @ ?x) = Some ?x" by (rule url_data_prefixed)
  have p: "demo_parse (share_text demo_w0) = Some (export_payload demo_w0)"
    by (simp add: demo_parse_def)
  show ?thesis
    by (simp only: import_from_url_def u option.case import_data_def a utf8_roundtrip [OF demo_share_bytes] p)
qed

lemma url_data_wrapped_data_url:
  "url_data (''data:application/json;base64,'' @ ''eyJuYW1l'' @ CHR 0x0A # rest) = Some ''eyJuYW1l''"
  by (simp add: url_data_def share_prefix_def data_match_at_def line_terminator_def)

lemma demo_wrapped_data_url_fails:
  "import_from_url demo_parse now (''data:application/json;base64,'' @ take 8 (btoa demo_bytes) @ CHR 0x0A # drop 8 (btoa demo_bytes)) s = (s, None)"
proof -
  have u: "take 8 (btoa demo_bytes) = ''eyJuYW1l''" by (simp add: demo_btoa)
  have a: "atob ''eyJuYW1l'' = Some (map byte [123, 34, 110, 97, 109, 101])" by code_simp
  have d: "utf8_decode (map byte [123, 34, 110, 97, 109, 101]) = Some (map code_unit [123, 34, 110, 97, 109, 101])"
    by (simp add: unat_byte)
  have e: "utf8_encode (map code_unit [123, 34, 110, 97, 109, 101]) = Some (map byte [123, 34, 110, 97, 109, 101])"
    by (simp add: is_lead_def is_trail_def unat_code_unit utf8_of_cp_def)
  have "map code_unit [123, 34, 110, 97, 109, 101] \<noteq> share_text demo_w0"
  proof
    assume "map code_unit [123, 34, 110, 97, 109, 101] = share_text demo_w0"
    then have "map byte [123, 34, 110, 97, 109, 101] = demo_bytes" using demo_share_bytes e by simp
    then have "length (map byte [123, 34, 110, 97, 109, 101]) = length demo_bytes" by (rule arg_cong)
    then show False by (simp add: demo_bytes_def)
  qed
  then have p: "demo_parse (map code_unit [123, 34, 110, 97, 109, 101]) = None" by (simp add: demo_parse_def)
  show ?thesis
    by (simp only: u import_from_url_def url_data_wrapped_data_url option.case import_data_def a d p)
qed

subsection \<open>The tab handlers\<close>

lemma generate_unknown: "get_workspace i s = (s1, None) \<Longrightarrow> generate_shareable_url i s = (s1, None)"
  by (simp add: generate_shareable_url_def)

lemma generate_known:
  "get_workspace i s = (s1, Some w) \<Longrightarrow>
   generate_shareable_url i s = (s1, Some (share_prefix @ btoa (concat (map (\<lambda>c. utf8_of_cp (of_char c))
     (json_stringify (share_json (export_payload w)))))))"
  by (simp add: generate_shareable_url_def share_text_def utf8_encode_text)

lemma wt_share_known:
  "get_workspace (ws_id w) s = (s1, Some w') \<Longrightarrow>
   \<exists>u. wt_share_workspace w t s = (wt_note (Notice ''Workspace shareable URL copied to clipboard'') t, s1, Some u)"
  by (simp add: wt_share_workspace_def copy_shareable_url_def generate_known)

lemma wt_share_unknown:
  "get_workspace (ws_id w) s = (s1, None) \<Longrightarrow>
   wt_share_workspace w t s = (wt_note (NotifyError ''Failed to generate shareable URL'') t, s1, None)"
  by (simp add: wt_share_workspace_def copy_shareable_url_def generate_unknown)

lemma wt_import_blank: "trim v = [] \<Longrightarrow> wt_import_from_url parse now (Some v) t s = (t, s)"
  by (simp add: wt_import_from_url_def)

lemma wt_import_fails:
  "trim v \<noteq> [] \<Longrightarrow> import_from_url parse now (trim v) s = (s1, None) \<Longrightarrow>
   wt_import_from_url parse now (Some v) t s = (wt_note (NotifyError ''Failed to import workspace'') t, s1)"
  by (simp add: wt_import_from_url_def)

lemma wt_import_selects:
  "trim v \<noteq> [] \<Longrightarrow> import_from_url parse now (trim v) s = (s1, Some w) \<Longrightarrow>
   wt_selected (fst (wt_import_from_url parse now (Some v) t s)) = Some w \<and>
   last (wt_notes (fst (wt_import_from_url parse now (Some v) t s))) = Notice (''Workspace imported: '' @ ws_name w)"
  by (simp add: wt_import_from_url_def wt_load_workspaces_def wt_note_def split: prod.split)



end
