(* ===== verification/McpHotkeys.thy ===== *)
theory McpHotkeys
  imports CommandHistory
begin

text \<open>
  The MCP hotkeys and toolbar of the VS Code agent plugin: the hotkey provider
  (\<open>src/unnamed/part_007\<close>), \<open>McpHotkeyService\<close> (\<open>services/mcpHotkey.service.ts\<close>), which
  dispatches a matched hotkey, \<open>McpToolbarButtonProvider\<close> (\<open>toolbarButtonProvider.ts\<close>),
  whose buttons show the counts its subscriptions keep, and the stop actions of
  \<open>RunningCommandsDialogComponent\<close>.
  \<^item> Effects are values: opening a modal with its size, aborting a command through
    \<open>ExecToolCategory.abortCommand\<close>, the TCP connection to the VS Code extension, the
    PowerShell fallback. Logging is not modelled.
  \<^item> \<open>ExecToolCategory\<close> is not in the sources: its terminal sessions (id and focus) and
    its active commands are arguments. Whether the TCP connection succeeds is an argument;
    the code's success and error callbacks are the two branches.
  \<^item> The three subscriptions are to \<open>BehaviorSubject\<close>s, which emit the current list on
    subscription and after every change.
\<close>

datatype modal_kind = HistoryModal | RunningModal | MinimizedModal | RecommendationModal

datatype mcp_effect = OpenModal modal_kind string | Abort "int option"
  | TcpConnect nat string | TcpWrite string | TcpEnd | ShellExec string

text \<open>\<open>McpHotkeyProvider.provide\<close>: the hotkey ids and their names.\<close>

definition mcp_hotkeys :: "(string \<times> string) list" where
  "mcp_hotkeys =
     [(''mcp-abort-command'', ''Abort running MCP command''),
      (''mcp-show-command-history'', ''Show MCP command history''),
      (''mcp-show-running-commands'', ''Show running MCP commands''),
      (''mcp-open-copilot'', ''Open Copilot window'')]"

record term_session =
  ts_id :: nat
  ts_focused :: bool

text \<open>\<open>abortFocusedCommand\<close>: the first focused session, if it has an active command.\<close>

definition abort_focused_command :: "term_session list \<Rightarrow> (nat \<Rightarrow> string option) \<Rightarrow> mcp_effect list" where
  "abort_focused_command sessions active =
     (case find ts_focused sessions of
        None \<Rightarrow> []
      | Some f \<Rightarrow> (case active (ts_id f) of None \<Rightarrow> [] | Some cmd \<Rightarrow> [Abort (Some (int (ts_id f)))]))"

definition show_command_history :: "mcp_effect list" where
  "show_command_history = [OpenModal HistoryModal ''xl'']"

definition show_running_commands :: "mcp_effect list" where
  "show_running_commands = [OpenModal RunningModal ''lg'']"

definition copilot_command :: string where
  \<open>copilot_command = ''pwsh.exe -Command "code --command workbench.action.chat.openInNewWindow"''\<close>

definition open_copilot_with_powershell :: "mcp_effect list" where
  "open_copilot_with_powershell = [OpenModal RecommendationModal ''md'', ShellExec copilot_command]"

text \<open>\<open>openCopilot\<close> and \<open>openCopilotViaTCP\<close>: connect to port 6789 of the loopback
  address; on success the socket is ended, on error the PowerShell fallback runs.\<close>

definition open_copilot :: "bool \<Rightarrow> mcp_effect list" where
  "open_copilot connected =
     TcpConnect 6789 ''127.0.0.1'' # (if connected then [TcpEnd] else open_copilot_with_powershell)"

text \<open>The \<open>matchedHotkey\<close> subscriber of \<open>initializeHotkeys\<close>.\<close>

definition mcp_on_hotkey :: "term_session list \<Rightarrow> (nat \<Rightarrow> string option) \<Rightarrow> bool \<Rightarrow> string \<Rightarrow> mcp_effect list" where
  "mcp_on_hotkey sessions active connected h =
     (if h = ''mcp-abort-command'' then abort_focused_command sessions active
      else if h = ''mcp-show-command-history'' then show_command_history
      else if h = ''mcp-show-running-commands'' then show_running_commands
      else if h = ''mcp-open-copilot'' then open_copilot connected
      else [])"

subsection \<open>The toolbar\<close>

record toolbar =
  tb_active :: nat
  tb_minimized :: nat
  tb_history :: nat

definition tb_init :: toolbar where
  "tb_init = \<lparr>tb_active = 0, tb_minimized = 0, tb_history = 0\<rparr>"

text \<open>The three subscriptions of the constructor.\<close>

definition tb_on_running :: "'a list \<Rightarrow> toolbar \<Rightarrow> toolbar" where
  "tb_on_running cmds t = t\<lparr>tb_active := length cmds\<rparr>"

definition tb_on_minimized :: "'a list \<Rightarrow> toolbar \<Rightarrow> toolbar" where
  "tb_on_minimized ds t = t\<lparr>tb_minimized := length ds\<rparr>"

definition tb_on_history :: "'a list \<Rightarrow> toolbar \<Rightarrow> toolbar" where
  "tb_on_history h t = t\<lparr>tb_history := length h\<rparr>"

datatype tb_action = ClickRunning | ClickMinimized | ClickHistory | ClickCopilot

record tb_button =
  tbb_weight :: nat
  tbb_title :: string
  tbb_click :: tb_action

definition tb_title :: "string \<Rightarrow> nat \<Rightarrow> string" where
  "tb_title label n = (if 0 < n then label @ '' ('' @ nat_to_string n @ '')'' else label)"

text \<open>\<open>provide()\<close>; the icons are not modelled.\<close>

definition tb_provide :: "toolbar \<Rightarrow> tb_button list" where
  "tb_provide t =
     [\<lparr>tbb_weight = 5, tbb_title = tb_title ''Running Commands'' (tb_active t), tbb_click = ClickRunning\<rparr>,
      \<lparr>tbb_weight = 6, tbb_title = tb_title ''Minimized Dialogs'' (tb_minimized t), tbb_click = ClickMinimized\<rparr>,
      \<lparr>tbb_weight = 7, tbb_title = tb_title ''Command History'' (tb_history t), tbb_click = ClickHistory\<rparr>,
      \<lparr>tbb_weight = 8, tbb_title = ''Open Copilot Chat'', tbb_click = ClickCopilot\<rparr>]"

text \<open>The buttons' \<open>click\<close> handlers: the three \<open>show...Modal\<close> methods and \<open>openCopilot\<close>.\<close>

fun tb_click :: "bool \<Rightarrow> tb_action \<Rightarrow> mcp_effect list" where
  "tb_click connected ClickRunning = [OpenModal RunningModal ''lg'']"
| "tb_click connected ClickMinimized = [OpenModal MinimizedModal ''lg'']"
| "tb_click connected ClickHistory = [OpenModal HistoryModal ''xl'']"
| "tb_click connected ClickCopilot = open_copilot connected"

text \<open>The running-commands service with the toolbar subscribed: every operation emits the
  new list of running commands.\<close>

fun tb_rcm_run :: "rcm_op list \<Rightarrow> running_map \<times> toolbar \<Rightarrow> running_map \<times> toolbar" where
  "tb_rcm_run [] st = st"
| "tb_rcm_run (op # ops) (m, t) =
     (let m' = rcm_step op m in tb_rcm_run ops (m', tb_on_running (rcm_get_all m') t))"

subsection \<open>Stopping commands from the running-commands dialog\<close>

text \<open>\<open>stopCommand\<close> aborts \<open>parseInt(tabId)\<close>; \<open>stopAllCommands\<close> stops every listed command.\<close>

definition stop_command :: "string \<Rightarrow> mcp_effect list" where
  "stop_command tab = [Abort (js_parse_int tab)]"

definition stop_all_commands :: "running_command list \<Rightarrow> mcp_effect list" where
  "stop_all_commands cmds = concat (map (\<lambda>c. stop_command (rc_tab_id c)) cmds)"

subsection \<open>Properties\<close>

text \<open>The abort hotkey aborts the command of the first focused session, and only when it
  has an active command; a later focused session is never touched.\<close>

lemma find_Some_split:
  "find P xs = Some f \<longleftrightarrow> (\<exists>ws vs. xs = ws @ f # vs \<and> (\<forall>w \<in> set ws. \<not> P w) \<and> P f)"
proof (induction xs)
  case (Cons x xs)
  note IH = Cons.IH
  show ?case
  proof
    assume h: "find P (x # xs) = Some f"
    show "\<exists>ws vs. x # xs = ws @ f # vs \<and> (\<forall>w \<in> set ws. \<not> P w) \<and> P f"
    proof (cases "P x")
      case True
      then show ?thesis using h by - (rule exI [of _ "[]"], rule exI [of _ xs], simp)
    next
      case False
      then obtain ws vs where "xs = ws @ f # vs" "\<forall>w \<in> set ws. \<not> P w" "P f" using h IH by auto
      then show ?thesis using False by - (rule exI [of _ "x # ws"], rule exI [of _ vs], simp)
    qed
  next
    assume "\<exists>ws vs. x # xs = ws @ f # vs \<and> (\<forall>w \<in> set ws. \<not> P w) \<and> P f"
    then obtain ws vs where e: "x # xs = ws @ f # vs" and n: "\<forall>w \<in> set ws. \<not> P w" and p: "P f" by blast
    show "find P (x # xs) = Some f"
    proof (cases ws)
      case Nil
      then show ?thesis using e p by simp
    next
      case (Cons w ws')
      then have xs: "xs = ws' @ f # vs" and x: "x = w" using e by auto
      have "\<forall>w \<in> set ws'. \<not> P w" using n Cons by simp
      then have "find P xs = Some f" using IH xs p by blast
      then show ?thesis using n Cons x by simp
    qed
  qed
qed simp

lemma abort_focused_spec:
  "abort_focused_command sessions active = [Abort (Some (int i))] \<longleftrightarrow>
   (\<exists>ws f vs. sessions = ws @ f # vs \<and> (\<forall>w \<in> set ws. \<not> ts_focused w) \<and> ts_focused f \<and> ts_id f = i \<and>
      active i \<noteq> None)" (is "?l \<longleftrightarrow> ?r")
proof
  assume l: ?l
  show ?r
  proof (cases "find ts_focused sessions")
    case None
    then show ?thesis using l by (simp add: abort_focused_command_def)
  next
    case (Some g)
    show ?thesis
    proof (cases "active (ts_id g)")
      case None
      then show ?thesis using l Some by (simp add: abort_focused_command_def)
    next
      case (Some c)
      then have "ts_id g = i" using l \<open>find ts_focused sessions = Some g\<close> by (simp add: abort_focused_command_def)
      show ?thesis
      proof -
        obtain ws vs where "sessions = ws @ g # vs" "\<forall>w \<in> set ws. \<not> ts_focused w" "ts_focused g"
          using find_Some_split [THEN iffD1, OF \<open>find ts_focused sessions = Some g\<close>] by blast
        then show ?thesis using Some \<open>ts_id g = i\<close> by blast
      qed
    qed
  qed
next
  assume ?r
  then obtain ws f vs where "sessions = ws @ f # vs" "\<forall>w \<in> set ws. \<not> ts_focused w" "ts_focused f"
    and i: "ts_id f = i" and a: "active i \<noteq> None" by blast
  then have "find ts_focused sessions = Some f"
    by - (rule find_Some_split [THEN iffD2], rule exI [of _ ws], rule exI [of _ vs], simp)
  then show ?l using i a by (auto simp: abort_focused_command_def)
qed

text \<open>A toolbar button and the hotkey for the same action have the same effects.\<close>

lemma toolbar_hotkey_agree:
  "tb_click c ClickHistory = mcp_on_hotkey ss act c ''mcp-show-command-history'' \<and>
   tb_click c ClickRunning = mcp_on_hotkey ss act c ''mcp-show-running-commands'' \<and>
   tb_click c ClickCopilot = mcp_on_hotkey ss act c ''mcp-open-copilot''"
  by (simp add: mcp_on_hotkey_def show_command_history_def show_running_commands_def)

lemma hotkey_unknown: "h \<notin> fst ` set mcp_hotkeys \<Longrightarrow> mcp_on_hotkey ss act c h = []"
  by (auto simp: mcp_on_hotkey_def mcp_hotkeys_def)

lemma tb_provide_actions:
  "map tbb_click (tb_provide t) = [ClickRunning, ClickMinimized, ClickHistory, ClickCopilot] \<and>
   sorted (map tbb_weight (tb_provide t))"
  by (simp add: tb_provide_def)

text \<open>On success the socket is opened and ended with nothing written to it, although the
  log line says the extension is asked to open Copilot.\<close>

lemma open_copilot_connected_sends_nothing:
  "open_copilot True = [TcpConnect 6789 ''127.0.0.1'', TcpEnd] \<and> (\<forall>c x. TcpWrite x \<notin> set (open_copilot c))"
  by (simp add: open_copilot_def open_copilot_with_powershell_def)

text \<open>The running-commands count of the toolbar is the number of tabs with a running
  command, after any sequence of \<open>startCommand\<close>, \<open>endCommand\<close> and \<open>clearAll\<close>.\<close>

lemma tb_rcm_run_count:
  "tb_active t = length (rcm_get_all m) \<Longrightarrow> tb_rcm_run ops (m, t) = (m', t') \<Longrightarrow>
   tb_active t' = length (rcm_get_all m') \<and> m' = foldl (\<lambda>m op. rcm_step op m) m ops"
proof (induction ops arbitrary: m t)
  case (Cons op ops)
  have h: "tb_active (tb_on_running (rcm_get_all (rcm_step op m)) t) = length (rcm_get_all (rcm_step op m))"
    by (simp add: tb_on_running_def)
  have r: "tb_rcm_run ops (rcm_step op m, tb_on_running (rcm_get_all (rcm_step op m)) t) = (m', t')"
    using Cons.prems(2) by (simp add: Let_def)
  show ?case using Cons.IH [OF h r] by simp
qed simp

lemma rcm_reachable_foldl: "rcm_reachable m \<Longrightarrow> rcm_reachable (foldl (\<lambda>m op. rcm_step op m) m ops)"
  by (induction ops arbitrary: m) (simp_all add: rcm_reachable.step)

lemma tb_running_count_tabs:
  assumes "tb_rcm_run ops ([], tb_on_running [] tb_init) = (m', t')"
  shows "tb_active t' = card {tab. rcm_is_running tab m'}"
proof -
  have c: "tb_active t' = length (rcm_get_all m')" and m: "m' = foldl (\<lambda>m op. rcm_step op m) [] ops"
    using tb_rcm_run_count [OF _ assms] by (simp_all add: tb_on_running_def rcm_get_all_def)
  have "rcm_inv m'" using m rcm_reachable_foldl [OF rcm_reachable.init] rcm_reachable_inv by simp
  then have "distinct (jsmap_keys m')" "length (jsmap_keys m') = length (rcm_get_all m')"
    by (simp_all add: rcm_inv_def jsmap_keys_def rcm_get_all_def)
  moreover have "{tab. rcm_is_running tab m'} = set (jsmap_keys m')"
    by (auto simp: rcm_is_running_keys)
  ultimately show ?thesis using c distinct_card by metis
qed

text \<open>Tab ids written by \<open>toString\<close> are read back by \<open>parseInt\<close>, so stopping such a
  tab aborts that tab.\<close>

lemma nat_to_string_digits_all: "\<forall>c \<in> set (nat_to_string n). is_digit c"
  using nat_to_string_digits by (auto simp: is_digit_def less_eq_char_def)

lemma digits_value_snoc: "digits_value (xs @ [c]) = 10 * digits_value xs + (of_char c - 48)"
  by (simp add: digits_value_def)

lemma digits_value_nat_to_string: "digits_value (nat_to_string n) = n"
proof (induction n rule: nat_to_string.induct)
  case (1 n)
  show ?case
  proof (cases "n < 10")
    case True
    then show ?thesis by (subst nat_to_string.simps) (simp add: digits_value_def of_char_digit)
  next
    case False
    then show ?thesis using 1 by (simp add: nat_to_string_step digits_value_snoc of_char_digit)
  qed
qed

lemma js_parse_int_nat_to_string: "js_parse_int (nat_to_string n) = Some (int n)"
proof -
  obtain c cs where e: "nat_to_string n = c # cs" by (cases "nat_to_string n") (simp_all add: nat_to_string_not_Nil)
  have d: "\<forall>x \<in> set (nat_to_string n). is_digit x" by (rule nat_to_string_digits_all)
  then have "\<not> is_ws c" "c \<noteq> CHR ''-''" "c \<noteq> CHR ''+''" using e
    by (auto simp: is_digit_def is_ws_def less_eq_char_def)
  moreover have tw: "takeWhile is_digit cs = cs" using d e by (simp add: takeWhile_eq_all_conv)
  ultimately show ?thesis using d e digits_value_nat_to_string [of n] by (simp add: js_parse_int_def tw)
qed

lemma stop_command_nat: "stop_command (nat_to_string n) = [Abort (Some (int n))]"
  by (simp add: stop_command_def js_parse_int_nat_to_string)

lemma stop_all_commands_spec:
  "stop_all_commands cmds = map (\<lambda>c. Abort (js_parse_int (rc_tab_id c))) cmds"
  by (induction cmds) (simp_all add: stop_all_commands_def stop_command_def)

end
