(* ===== verification/Spec2Isabelle.thy ===== *)
theory Spec2Isabelle
  imports SharingHost SettingsTabs CommandHistory DialogForms OutputStorage TerminalMenus ProxyServer AppWindows ShareUrl McpHotkeys
begin

text \<open>
  Verification development of the tlink-ai terminal application (\<open>src/\<close>): the
  session-sharing relay and its host wiring in the Electron main process, the workspace
  and backup services of \<open>tlink-core\<close> with their settings tabs, and the command history,
  dialogs and output storage of the VS Code agent plugin. Each theory models one part of the program by a
  shallow embedding: state as records, operations as functions from state to new state and
  result, errors as \<open>Inl\<close> values of a sum type, and the part's whole behaviour as an
  inductive reachability relation over a step function.

  \<^bold>\<open>Theories.\<close>
  \<^item> \<open>Prelude\<close>: JavaScript library behaviour the components share: strings (\<open>trim\<close>,
    \<open>split\<close>, \<open>join\<close>, \<open>startsWith\<close>, \<open>includes\<close>, number printing), the \<open>x || d\<close> default
    idiom (\<open>js_str_or\<close>, \<open>js_nat_or\<close>), \<open>findIndex\<close> (\<open>find_idx\<close>), object spread of a
    partial object (\<open>patch_or\<close>), de-duplicating \<open>push\<close> (\<open>add_unique\<close>), and \<open>Map\<close> as an
    association list updated in place (\<open>jsmap\<close>), with their lemmas. Identifiers from
    \<open>uuidv4()\<close> are numbers from a counter in the state, which is exactly the freshness
    the code relies on.
  \<^item> \<open>Relay\<close>: the session-sharing server (\<open>sessionSharingServer\<close>). Its module is
    imported by \<open>src/app/lib/app.ts\<close> but is not part of the sources, so it is modelled
    from the specification (registry of sessions with token, password, mode, expiry and
    viewers; attach handshake; broadcast fan-out with failing writes; input routing;
    expiry sweep; start and stop). Its lemmas (registry invariant, fan-out, per-viewer
    order, expiry, idempotence, teardown) are the library the host's properties use.
  \<^item> \<open>SharingHost\<close>: \<open>Application.initSessionSharing\<close>, \<open>Application.init\<close> and the
    \<open>before-quit\<close> handler of \<open>app.ts\<close>. Every IPC handler is a definition; \<open>host_step\<close>
    composes them with the relay's network events and the listeners that turn relay
    notifications into window messages. \<open>host_step_run\<close> and \<open>host_run_relay\<close> show that
    every host step is a run of relay operations (a simulation), so the relay's
    invariants carry over to every state the host can reach (C1-C10, C15).
  \<^item> \<open>Workspace\<close>: \<open>WorkspaceService\<close> of \<open>tlink-core/src/services/workspace.service.ts\<close>:
    the store of saved workspaces in \<open>config.store.workspaces\<close>, saving the open tabs,
    update, delete, load, export and import, and \<open>ws_step\<close>/\<open>ws_reachable\<close> (C16, C17, C20-C22).
  \<^item> \<open>Backup\<close>: \<open>BackupService\<close> of the same file: backup files behind IPC, the index,
    retention cleanup, restore with its safety backup, import, listing and statistics,
    the automatic schedule and the configuration operations, and \<open>bk_step\<close>/\<open>bk_reachable\<close>
    over runs in which configuration saves succeed (C23-C27, C29, C30).
  \<^item> \<open>CommandHistory\<close>: the command history of the VS Code agent plugin,
    \<open>CommandHistoryManagerService\<close> (\<open>src/unnamed/part_005\<close>: add, get, remove, clear,
    search, status filters, the five exports, persistence in \<open>localStorage\<close>), the history
    modal and the running-commands dialog (\<open>components/runningCommandsDialog.component.ts\<close>),
    and \<open>RunningCommandsManagerService\<close>; the history and the manager's map as step
    relations with their invariants, and the CSV export checked against an RFC 4180
    reader (C31-C35, C37).
  \<^item> \<open>SettingsTabs\<close>: the backup and workspace settings tabs of \<open>tlink-settings\<close>, each
    handler a function over the tab's fields and the \<open>Backup\<close> and \<open>Workspace\<close> models, with
    the \<open>backupsChanged\<close> subscription; \<open>announced\<close> relates two service states when every
    change of the backup list between them was emitted (C36).
  \<^item> \<open>Dialogs\<close>: \<open>DialogManagerService\<close> (\<open>services/dialogManager.service.ts\<close>: the queue of
    requests, one active dialog, the 100 ms deferred show), \<open>MinimizedDialogManagerService\<close>
    (\<open>src/unnamed/part_006\<close>) and the minimized-dialogs modal, as \<open>dm_step\<close> over events
    and \<open>dm_reachable\<close>. Every request's resolver is counted as a multiset over the places
    that hold it; the invariant \<open>dm_inv\<close> says each is held or settled once (C38-C40).
  \<^item> \<open>DialogForms\<close>: the forms of the confirm-command and command-result dialogs, every
    keyboard handler and button as an event (\<open>cf_event\<close>, \<open>rf_event\<close>), sessions of events
    until the dialog closes, and the \<open>DialogService\<close> wrappers over \<open>openDialog\<close>; lemmas:
    a rejection always carries a non-blank reason, toggling the reject mode twice restores
    the accept message.
  \<^item> \<open>OutputStorage\<close>: \<open>CommandOutputStorageService\<close> (\<open>src/unnamed/part_004\<close>): stored outputs
    in a \<open>Map\<close> with eviction above 100 entries and pagination; lemmas: the bound, the
    pagination round trip, the eviction of an older output.
  \<^item> \<open>TerminalMenus\<close>: the session-sharing decorator and the tab context menus of the
    terminal plugin (\<open>src/unnamed/part_010\<close>). The decorator's map and subscriptions are a
    step function over attach, detach, output, close and destroy events, each carrying what
    \<open>SessionSharingService\<close> reports (a \<open>sharing_view\<close>); \<open>dc_inv\<close> says each attached terminal
    holds exactly its three subscriptions, and the decorator refines an abstract map from
    terminals to sessions (\<open>dc_spec_step\<close>, \<open>dc_abs\<close>, C11). The menus are item lists; the
    sharing, session-log and save-as-profile clicks map the results of the awaited services
    to the changed profile and the effects issued.
  \<^item> \<open>ProxyServer\<close>: the AI proxy (\<open>src/unnamed/part_000\<close>, the provider configuration
    built from \<open>process.env\<close>, and \<open>proxy-server/src/routes/chat.js\<close>). The route rotates
    the providers to start at the selected one and runs the attempt loop
    \<open>try_attempts\<close> for each, a \<open>function\<close> whose termination measure is the number of
    attempts left; upstream answers, jitter and the selected provider are arguments, telemetry
    and sleeps are effects. Lemmas: the switch \<open>PROXY_FAILOVER_ON_429\<close> changes nothing (C12),
    the number of upstream requests is bounded (C13), the configuration is well formed and
    consistent between its two accessors (C14).
  \<^item> \<open>AppWindows\<close>: the window management of \<open>Application\<close> in \<open>app.ts\<close>:
    \<open>newWindow\<close> with its \<open>visible$\<close> and \<open>closed$\<close> subscribers (\<open>new_window\<close>,
    \<open>on_visible\<close>, \<open>window_closed\<close>), \<open>onGlobalHotkey\<close>, \<open>presentAllWindows\<close>,
    \<open>broadcast\<close>, \<open>broadcastExcept\<close>, \<open>send\<close>, \<open>enableTray\<close>, \<open>disableTray\<close>,
    \<open>handleSecondInstance\<close>, the quit handlers and the command-line switches of the
    constructor. \<open>app_step\<close> composes the handlers; every reachable state has distinct
    fresh window ids, exactly one main window and no tray on Linux (C18). The hotkey
    toggles the presence of the windows, and \<open>send\<close> throws when every window is destroyed.
    The macOS menu (\<open>setupMenu\<close>) and the tray's \<open>focus\<close> are events of \<open>app_step\<close>:
    the View items reach the focused window, Preferences the first, and a tray click
    presents every window and takes the tray down.
  \<^item> \<open>Codec\<close>: the JavaScript built-ins the share URL goes through, over \<open>8 word\<close> bytes
    and \<open>16 word\<close> UTF-16 code units: \<open>btoa\<close>/\<open>atob\<close> (forgiving base64),
    \<open>unescape(encodeURIComponent(.))\<close> and \<open>decodeURIComponent(escape(.))\<close> as UTF-8
    encoding and decoding (\<open>utf8_encode\<close>, \<open>utf8_decode\<close>), and \<open>JSON.stringify\<close>.
    Lemmas: \<open>atob (btoa b) = Some b\<close>, the UTF-8 round trip, the lengths, and that the
    decoder terminates (C19).
  \<^item> \<open>ShareUrl\<close>: \<open>generateShareableUrl\<close>, \<open>copyShareableUrl\<close> and \<open>importFromUrl\<close> of
    \<open>WorkspaceService\<close>, and the tab handlers \<open>shareWorkspace\<close> and
    \<open>importWorkspaceFromUrl\<close>. Importing a shared URL adds what \<open>importFromJson\<close> adds for
    the exported object (C28). The \<open>tlink://\<close>, \<open>data:\<close> and bare base64 forms of a URL
    import alike. The URL of the demonstration workspace is computed and equals the
    browser's.
  \<^item> \<open>McpHotkeys\<close>: the hotkeys of \<open>McpHotkeyProvider\<close>, the dispatch of
    \<open>McpHotkeyService\<close> (\<open>abortFocusedCommand\<close>, the modals, \<open>openCopilot\<close> over TCP
    with the PowerShell fallback) as lists of effects, \<open>McpToolbarButtonProvider\<close> (its
    counters, buttons and clicks) and the stop actions of the running-commands dialog.
    The toolbar and the hotkeys open the same modal for a command; the toolbar's running
    count is the number of tabs with a running command after every change; stopping a
    command aborts the tab whose id the dialog printed (\<open>parseInt\<close> inverts the
    decimal printing); a connected \<open>openCopilot\<close> sends nothing.

  \<^bold>\<open>Properties.\<close> Each component has a state invariant proved for every reachable
  state by rule induction over its step relation (C1, C16, C18, C23, C31, C37, C38), an
  invariant of a view kept in sync with its service (C36), functional descriptions of
  its operations on every branch, error branches (C27, C29), round trips (C21, C28, C32,
  C35), termination of a loop whose recursion is not structural (C19), equivalences (C15, C34), a refinement of an abstract specification (C11), a well-formedness
  property of built data (C14), bounds (C9, C13, C24, C31), a liveness failure (C40), and the
  findings listed in the manifest, each proved as a theorem with a concrete witness (C3,
  C8, C25, C26, C29, C30, C33, C39, C40).

  \<^bold>\<open>Modelling choices.\<close> Times are milliseconds as \<open>nat\<close>; a retention day is
  86400000 ms (the code subtracts calendar days). Asynchronous callbacks that the code
  does not await (the initial automatic backup, the deferred folder restore of
  \<open>loadWorkspace\<close>) are modelled as running at the point they are scheduled; the dialog
  manager's \<open>setTimeout\<close> is a list of pending timers fired by an event of its own, so
  that other events can come between. JSON text is modelled by the object it serialises
  (datatype \<open>json\<close> for the history export), and a backup file's checksum and size by
  functions of that object. \<open>config.save()\<close> succeeds in the workspace model and is an
  argument of the backup configuration operations. Date formatting, \<open>Date.now\<close> and
  \<open>Math.random\<close> are arguments. No loop of the modelled code can diverge, so no fuel is
  needed: the loops of the sources are \<open>for ... of\<close> loops and array methods over finite
  collections, modelled by structural recursion (\<open>fun\<close>, \<open>foldl\<close>), and the counted attempt
  loop of the proxy route, modelled by \<open>try_attempts\<close> with the measure
  \<open>RETRY_MAX + 1 - attempt\<close>. The UTF-8 decoder consumes one to four bytes a step and
  terminates by the measure \<open>length\<close>. \<open>JSON.parse\<close> of an imported URL is an argument,
  the function reading the payload, since the input is arbitrary user text.

  \<^bold>\<open>Not modelled.\<close> Rendering and templates of the Angular components, focus and
  hotkey handling (DOM); the proxy's provider selector, telemetry and response streaming
  (not in the sources or I/O), the MCP settings-tab provider (a static
  registration), the logging of the MCP services; the \<open>Window\<close> class of the Electron shell (not in the
  sources: the model keeps the flags \<open>Application\<close> reads), tray icons and the menu roles handled by Electron, the
  throttle of the global hotkey, the plugin manager;
  \<open>SessionSharingService\<close> of \<open>tlink-core\<close> (not in the sources);
  \<open>JSON.parse\<close> (an argument), \<open>exportBackup\<close>
  (a file copy), the persisted backup index, the clipboard and download actions, the
  tunnelling stub, the build scripts, and the Markdown documents under \<open>src/\<close>
  (implementation plans and guides, not code).
\<close>

end
